theory Spec2Isabelle
  imports Main "HOL-Library.Word" "HOL-Library.Multiset"
begin

section \<open>The GPU driver of MGPUSim (amd/driver/driver.go)\<close>

text \<open>
  A shallow embedding of the driver component: the tick-driven dispatch loop, the
  kernel launch path with the multi-GPU workgroup distribution, and the page-migration
  orchestrator. Every panic of the Go code is a value of type \<open>error\<close>; a function
  that can panic returns \<open>error + 'a\<close> with \<open>Inl\<close> for the panic.
\<close>

subsection \<open>Go integers and slices\<close>

datatype error =
    IndexOutOfRange
  | DivideByZero
  | NilDereference
  | NotAllWGAllocated
  | CannotFindCommand
  | CannotHandleRequest
  | ProcessDoesNotExist
  | PageNotFound

text \<open>Go's \<open>int\<close> is a 64-bit two's complement integer: every result wraps into
  the signed range.\<close>

definition int64 :: "int \<Rightarrow> int" where
  "int64 x = sint (word_of_int x :: 64 word)"

text \<open>Go's integer division truncates towards zero.\<close>

definition quo :: "int \<Rightarrow> int \<Rightarrow> int" where
  "quo a b = sgn a * sgn b * (\<bar>a\<bar> div \<bar>b\<bar>)"

text \<open>Indexing a slice with a Go \<open>int\<close>: out of range is a runtime panic.\<close>

definition index :: "'a list \<Rightarrow> int \<Rightarrow> error + 'a" where
  "index xs i = (if 0 \<le> i \<and> i < int (length xs) then Inr (xs ! nat i) else Inl IndexOutOfRange)"

subsection \<open>Devices and kernel dispatch packets\<close>

record DeviceProperties =
  CUCount :: int
  DRAMSize :: "64 word"

record Device =
  ID :: int
  Properties :: DeviceProperties
  UnifiedGPUIDs :: "int list"

record HsaKernelDispatchPacket =
  WorkgroupSizeX :: "16 word"
  WorkgroupSizeY :: "16 word"
  WorkgroupSizeZ :: "16 word"
  GridSizeX :: "32 word"
  GridSizeY :: "32 word"
  GridSizeZ :: "32 word"

record WorkGroup =
  IDX :: int
  IDY :: int
  IDZ :: int

text \<open>\<open>(grid - 1) / uint32(wg) + 1\<close> in \<open>uint32\<close> arithmetic; a zero workgroup size
  is an integer division by zero.\<close>

definition numWG :: "32 word \<Rightarrow> 16 word \<Rightarrow> error + 32 word" where
  "numWG grid wg =
     (if wg = 0 then Inl DivideByZero else Inr ((grid - 1) div ucast wg + 1))"

subsection \<open>Sequencing of calls that may panic\<close>

definition bindE :: "error + 'a \<Rightarrow> ('a \<Rightarrow> error + 'b) \<Rightarrow> error + 'b" where
  "bindE m f = (case m of Inl e \<Rightarrow> Inl e | Inr x \<Rightarrow> f x)"

subsection \<open>distributeWGToGPUs\<close>

fun sumCUCount :: "Device list \<Rightarrow> int list \<Rightarrow> int \<Rightarrow> error + int" where
  "sumCUCount devs [] totalCUCount = Inr totalCUCount"
| "sumCUCount devs (devID # rest) totalCUCount =
     bindE (index devs devID) (\<lambda>dev.
       sumCUCount devs rest (int64 (totalCUCount + CUCount (Properties dev))))"

fun allocateWGs ::
  "Device list \<Rightarrow> int \<Rightarrow> int list \<Rightarrow> nat \<Rightarrow> int \<Rightarrow> int list \<Rightarrow> error + (int \<times> int list)" where
  "allocateWGs devs wgPerCU [] i wgAllocated wgDist = Inr (wgAllocated, wgDist)"
| "allocateWGs devs wgPerCU (devID # rest) i wgAllocated wgDist =
     bindE (index devs devID) (\<lambda>dev.
       let cuCount = CUCount (Properties dev);
           wgToAllocate = int64 (cuCount * wgPerCU)
       in allocateWGs devs wgPerCU rest (Suc i)
            (int64 (wgAllocated + wgToAllocate))
            (wgDist[Suc i := int64 (wgAllocated + wgToAllocate)]))"

definition totalWGCountOf :: "HsaKernelDispatchPacket \<Rightarrow> error + int" where
  "totalWGCountOf pkt =
     bindE (numWG (GridSizeX pkt) (WorkgroupSizeX pkt)) (\<lambda>numWGX.
     bindE (numWG (GridSizeY pkt) (WorkgroupSizeY pkt)) (\<lambda>numWGY.
     bindE (numWG (GridSizeZ pkt) (WorkgroupSizeZ pkt)) (\<lambda>numWGZ.
       Inr (uint (numWGX * numWGY * numWGZ)))))"

text \<open>\<open>distributeWGToGPUs\<close> reads the devices table, the GPU id of the queue and the
  packet array of the command.\<close>

definition distributeWGToGPUs ::
  "Device list \<Rightarrow> int \<Rightarrow> HsaKernelDispatchPacket list \<Rightarrow> error + int list" where
  "distributeWGToGPUs devs queueGPUID packetArray =
     bindE (index devs queueGPUID) (\<lambda>dev.
       let actualGPUs = UnifiedGPUIDs dev;
           wgDist = replicate (length actualGPUs + 1) 0
       in
       bindE (sumCUCount devs actualGPUs 0) (\<lambda>totalCUCount.
       bindE (index packetArray 0) (\<lambda>pkt0.
       bindE (totalWGCountOf pkt0) (\<lambda>totalWGCount.
         if totalCUCount = 0 then Inl DivideByZero
         else
           let wgPerCU = int64 (int64 (quo (int64 (totalWGCount - 1)) totalCUCount) + 1) in
           bindE (allocateWGs devs wgPerCU actualGPUs 0 0 wgDist) (\<lambda>(wgAllocated, wgDist').
             if wgAllocated < totalWGCount then Inl NotAllWGAllocated else Inr wgDist')))))"

subsection \<open>Messages on the GPU port and on the MMU port\<close>

type_synonym port = string
type_synonym PID = "32 word"

text \<open>Every message carries its meta data: a fresh id, the sending port and the
  destination port. The id generator of the simulation framework is a counter
  (\<open>idGenerator\<close> in the driver state below).\<close>

record MsgMeta =
  MsgID :: nat
  Src :: port
  Dst :: port

text \<open>The workgroup filter of a launch request is a closure over \<open>wgDist\<close> and
  \<open>currentGPUIndex\<close>; the closure is represented by the two captured values and
  run by \<open>WGFilter_apply\<close>.\<close>

record WGFilterClosure =
  captured_wgDist :: "int list"
  currentGPUIndex :: int

record LaunchKernelReq =
  lk_Meta :: MsgMeta
  lk_PID :: PID
  HsaCo :: nat
  Packet :: HsaKernelDispatchPacket
  PacketAddress :: "64 word"
  WGFilter :: "WGFilterClosure option"

record PageMigrationReqToCP =
  cp_Meta :: MsgMeta
  DestinationPMCPort :: port
  ToReadFromPhysicalAddress :: "64 word"
  ToWriteToPhysicalAddress :: "64 word"
  cp_PageSize :: "64 word"

datatype Msg =
    LaunchKernelReqMsg LaunchKernelReq
  | LaunchKernelRsp MsgMeta nat
  | RDMADrainCmdFromDriver MsgMeta
  | RDMADrainRspToDriver MsgMeta
  | ShootDownCommand MsgMeta "64 word list" PID
  | ShootDownCompleteRsp MsgMeta
  | PageMigrationReqToCPMsg PageMigrationReqToCP
  | PageMigrationRspToDriver MsgMeta
  | GPURestartReq MsgMeta
  | GPURestartRsp MsgMeta
  | RDMARestartCmdFromDriver MsgMeta
  | RDMARestartRspToDriver MsgMeta
  | OtherMsg MsgMeta

fun Meta :: "Msg \<Rightarrow> MsgMeta" where
  "Meta (LaunchKernelReqMsg r) = lk_Meta r"
| "Meta (LaunchKernelRsp m _) = m"
| "Meta (RDMADrainCmdFromDriver m) = m"
| "Meta (RDMADrainRspToDriver m) = m"
| "Meta (ShootDownCommand m _ _) = m"
| "Meta (ShootDownCompleteRsp m) = m"
| "Meta (PageMigrationReqToCPMsg r) = cp_Meta r"
| "Meta (PageMigrationRspToDriver m) = m"
| "Meta (GPURestartReq m) = m"
| "Meta (GPURestartRsp m) = m"
| "Meta (RDMARestartCmdFromDriver m) = m"
| "Meta (RDMARestartRspToDriver m) = m"
| "Meta (OtherMsg m) = m"

record PageMigrationReqToDriver =
  mig_Meta :: MsgMeta
  GPUReqToVAddrMap :: "64 word \<Rightarrow> 64 word list option"
  CurrAccessingGPUs :: "64 word list"
  mig_PID :: PID
  CurrPageHostGPU :: "64 word"
  PageSize :: "64 word"
  RespondToTop :: bool

record PageMigrationRspFromDriver =
  rsp_Meta :: MsgMeta
  OriginalReq :: PageMigrationReqToDriver
  rsp_VAddr :: "64 word list"
  RspToTop :: bool

datatype MMUMsg =
    PageMigrationReqToDriverMsg PageMigrationReqToDriver
  | OtherMMUMsg MsgMeta

subsection \<open>Pages, commands, queues and contexts\<close>

record Page =
  page_PID :: PID
  VAddr :: "64 word"
  PAddr :: "64 word"
  DeviceID :: "64 word"
  Unified :: bool
  IsMigrating :: bool

datatype Command =
    LaunchKernelCommand nat nat HsaKernelDispatchPacket "64 word" "Msg list"
  | NoopCommand nat
  | LaunchUnifiedMultiGPUKernelCommand nat nat "HsaKernelDispatchPacket list"
      "64 word list" "Msg list"
  | OtherCommand nat "Msg list"

fun GetID :: "Command \<Rightarrow> nat" where
  "GetID (LaunchKernelCommand cid _ _ _ _) = cid"
| "GetID (NoopCommand cid) = cid"
| "GetID (LaunchUnifiedMultiGPUKernelCommand cid _ _ _ _) = cid"
| "GetID (OtherCommand cid _) = cid"

fun GetReqs :: "Command \<Rightarrow> Msg list" where
  "GetReqs (LaunchKernelCommand _ _ _ _ reqs) = reqs"
| "GetReqs (NoopCommand _) = []"
| "GetReqs (LaunchUnifiedMultiGPUKernelCommand _ _ _ _ reqs) = reqs"
| "GetReqs (OtherCommand _ reqs) = reqs"

fun setReqs :: "Msg list \<Rightarrow> Command \<Rightarrow> Command" where
  "setReqs reqs (LaunchKernelCommand cid co pkt dpkt _) = LaunchKernelCommand cid co pkt dpkt reqs"
| "setReqs reqs (NoopCommand cid) = NoopCommand cid"
| "setReqs reqs (LaunchUnifiedMultiGPUKernelCommand cid co pkts dpkts _) =
     LaunchUnifiedMultiGPUKernelCommand cid co pkts dpkts reqs"
| "setReqs reqs (OtherCommand cid _) = OtherCommand cid reqs"

record CommandQueue =
  IsRunning :: bool
  GPUID :: int
  commands :: "Command list"

text \<open>A queue belongs to the context that lists it: \<open>queue.Context\<close> is that
  context. Each buffer of a context is represented by its dirty bit.\<close>

record Context =
  pid :: PID
  queues :: "CommandQueue list"
  l2Dirty :: bool
  buffers :: "bool list"

subsection \<open>The driver\<close>

text \<open>A port holds the messages that arrived and were not retrieved yet
  (\<open>incoming\<close>). It also keeps two logs, oldest first: \<open>retrieved\<close> lists the
  messages taken out by \<open>RetrieveIncoming\<close>, \<open>sent\<close> the messages a successful
  \<open>Send\<close> handed to the port.\<close>

record ('i, 'o) Port =
  portName :: port
  incoming :: "'i list"
  retrieved :: "'i list"
  sent :: "'o list"

text \<open>The state of the memory allocator is a parameter \<open>'a\<close>.\<close>

record 'a Driver =
  memAllocator :: 'a
  GPUs :: "port list"
  devices :: "Device list"
  pageTable :: "PID \<times> 64 word \<Rightarrow> Page option"
  requestsToSend :: "Msg list"
  contexts :: "Context list"
  mmuPort :: "(MMUMsg, PageMigrationRspFromDriver) Port"
  gpuPort :: "(Msg, Msg) Port"
  currentPageMigrationReq :: "PageMigrationReqToDriver option"
  toSendToMMU :: "PageMigrationRspFromDriver option"
  migrationReqToSendToCP :: "PageMigrationReqToCP list"
  isCurrentlyHandlingMigrationReq :: bool
  numRDMADrainACK :: "64 word"
  numRDMARestartACK :: "64 word"
  numShootDownACK :: "64 word"
  numRestartACK :: "64 word"
  numPagesMigratingACK :: "64 word"
  isCurrentlyMigratingOnePage :: bool
  RemotePMCPorts :: "port list"
  idGenerator :: nat

subsection \<open>Framework operations used by the driver\<close>

text \<open>Indexing a slice with a \<open>uint64\<close>, and the position of a context or queue
  in its list (the Go code holds pointers; the model addresses them by position).\<close>

definition indexW :: "'a list \<Rightarrow> 64 word \<Rightarrow> error + 'a" where
  "indexW xs w = (if unat w < length xs then Inr (xs ! unat w) else Inl IndexOutOfRange)"

definition at :: "'a list \<Rightarrow> nat \<Rightarrow> error + 'a" where
  "at xs i = (if i < length xs then Inr (xs ! i) else Inl IndexOutOfRange)"

text \<open>The constructors of the messages (\<open>protocol.New...\<close>) draw a fresh id.\<close>

definition newMeta :: "port \<Rightarrow> port \<Rightarrow> 'a Driver \<Rightarrow> MsgMeta \<times> 'a Driver" where
  "newMeta src dst d =
     (\<lparr>MsgID = idGenerator d, Src = src, Dst = dst\<rparr>, d\<lparr>idGenerator := Suc (idGenerator d)\<rparr>)"

text \<open>\<open>Port.Send\<close>: whether the port accepts the message is decided outside the
  driver (\<open>accepted\<close>); the result is \<open>err == nil\<close>.\<close>

definition gpuSend :: "bool \<Rightarrow> Msg \<Rightarrow> 'a Driver \<Rightarrow> bool \<times> 'a Driver" where
  "gpuSend accepted msg d =
     (if accepted then (True, d\<lparr>gpuPort := (gpuPort d)\<lparr>sent := sent (gpuPort d) @ [msg]\<rparr>\<rparr>)
      else (False, d))"

definition mmuSend :: "bool \<Rightarrow> PageMigrationRspFromDriver \<Rightarrow> 'a Driver \<Rightarrow> bool \<times> 'a Driver" where
  "mmuSend accepted msg d =
     (if accepted then (True, d\<lparr>mmuPort := (mmuPort d)\<lparr>sent := sent (mmuPort d) @ [msg]\<rparr>\<rparr>)
      else (False, d))"

definition RetrieveIncoming :: "('i, 'o) Port \<Rightarrow> ('i, 'o) Port" where
  "RetrieveIncoming p =
     (case incoming p of
        [] \<Rightarrow> p
      | m # rest \<Rightarrow> p\<lparr>incoming := rest, retrieved := retrieved p @ [m]\<rparr>)"

definition gpuRetrieveIncoming :: "'a Driver \<Rightarrow> 'a Driver" where
  "gpuRetrieveIncoming d = d\<lparr>gpuPort := RetrieveIncoming (gpuPort d)\<rparr>"

definition mmuRetrieveIncoming :: "'a Driver \<Rightarrow> 'a Driver" where
  "mmuRetrieveIncoming d = d\<lparr>mmuPort := RetrieveIncoming (mmuPort d)\<rparr>"

text \<open>Modelled from the spec: \<open>GetNumGPUs\<close> is not among the sources; it is the number
  of registered GPUs.\<close>

definition GetNumGPUs :: "'a Driver \<Rightarrow> nat" where
  "GetNumGPUs d = length (GPUs d)"

definition updateContext :: "nat \<Rightarrow> (Context \<Rightarrow> Context) \<Rightarrow> 'a Driver \<Rightarrow> 'a Driver" where
  "updateContext ci f d = d\<lparr>contexts := (contexts d)[ci := f (contexts d ! ci)]\<rparr>"

definition updateQueue :: "nat \<Rightarrow> nat \<Rightarrow> (CommandQueue \<Rightarrow> CommandQueue) \<Rightarrow> 'a Driver \<Rightarrow> 'a Driver" where
  "updateQueue ci qi f d =
     updateContext ci (\<lambda>ctx. ctx\<lparr>queues := (queues ctx)[qi := f (queues ctx ! qi)]\<rparr>) d"

text \<open>Modelled from the spec: the command queue is a FIFO whose head stays visible
  through \<open>Peek\<close> until \<open>Dequeue\<close> removes it; \<open>RemoveReq\<close> removes the given
  request from the outstanding requests of a command; \<open>markAllBuffersDirty\<close> sets the
  dirty bit of every buffer of the context. These helpers of the driver package are not
  among the sources.\<close>

definition Dequeue :: "CommandQueue \<Rightarrow> CommandQueue" where
  "Dequeue q = q\<lparr>commands := tl (commands q)\<rparr>"

definition updateHead :: "(Command \<Rightarrow> Command) \<Rightarrow> CommandQueue \<Rightarrow> CommandQueue" where
  "updateHead f q = q\<lparr>commands := (case commands q of [] \<Rightarrow> [] | c # cs \<Rightarrow> f c # cs)\<rparr>"

definition RemoveReq :: "Msg \<Rightarrow> Command \<Rightarrow> Command" where
  "RemoveReq req cmd = setReqs (remove1 req (GetReqs cmd)) cmd"

definition markAllBuffersDirty :: "Context \<Rightarrow> Context" where
  "markAllBuffersDirty ctx = ctx\<lparr>buffers := map (\<lambda>_. True) (buffers ctx)\<rparr>"

subsection \<open>Sending\<close>

definition sendToGPUs :: "bool \<Rightarrow> 'a Driver \<Rightarrow> bool \<times> 'a Driver" where
  "sendToGPUs accepted d =
     (case requestsToSend d of
        [] \<Rightarrow> (False, d)
      | req # rest \<Rightarrow>
          (let (ok, d') = gpuSend accepted req d
           in if ok then (True, d'\<lparr>requestsToSend := rest\<rparr>) else (False, d')))"

definition sendToMMU :: "bool \<Rightarrow> 'a Driver \<Rightarrow> bool \<times> 'a Driver" where
  "sendToMMU accepted d =
     (case toSendToMMU d of
        None \<Rightarrow> (False, d)
      | Some req \<Rightarrow>
          (let (ok, d') = mmuSend accepted req d
           in if ok then (True, d'\<lparr>toSendToMMU := None\<rparr>) else (False, d')))"

definition sendMigrationReqToCP :: "bool \<Rightarrow> 'a Driver \<Rightarrow> bool \<times> 'a Driver" where
  "sendMigrationReqToCP accepted d =
     (case migrationReqToSendToCP d of
        [] \<Rightarrow> (False, d)
      | req # rest \<Rightarrow>
          if isCurrentlyMigratingOnePage d then (False, d)
          else
            (let (ok, d') = gpuSend accepted (PageMigrationReqToCPMsg req) d
             in if ok then (True, d'\<lparr>migrationReqToSendToCP := rest,
                                     isCurrentlyMigratingOnePage := True\<rparr>)
                else (False, d')))"

subsection \<open>Kernel launches\<close>

text \<open>The statements both launch paths run once a request is built. In the loop of
  the unified launch \<open>i\<close> is a position in a slice, so \<open>i + 1\<close> does not wrap.\<close>

definition issueLaunchReq :: "nat \<Rightarrow> nat \<Rightarrow> LaunchKernelReq \<Rightarrow> 'a Driver \<Rightarrow> 'a Driver" where
  "issueLaunchReq ci qi req d =
     (let d1 = updateQueue ci qi (\<lambda>q. q\<lparr>IsRunning := True\<rparr>) d;
          d2 = updateQueue ci qi
                 (updateHead (\<lambda>cmd. setReqs (GetReqs cmd @ [LaunchKernelReqMsg req]) cmd)) d1;
          d3 = d2\<lparr>requestsToSend := requestsToSend d2 @ [LaunchKernelReqMsg req]\<rparr>;
          d4 = updateContext ci (\<lambda>ctx. ctx\<lparr>l2Dirty := True\<rparr>) d3
      in updateContext ci markAllBuffersDirty d4)"

definition processNoopCommand :: "nat \<Rightarrow> nat \<Rightarrow> 'a Driver \<Rightarrow> bool \<times> 'a Driver" where
  "processNoopCommand ci qi d = (True, updateQueue ci qi Dequeue d)"

definition processLaunchKernelCommand ::
  "nat \<Rightarrow> HsaKernelDispatchPacket \<Rightarrow> 64 word \<Rightarrow> nat \<Rightarrow> nat \<Rightarrow> 'a Driver \<Rightarrow> error + (bool \<times> 'a Driver)" where
  "processLaunchKernelCommand codeObject packet dPacket ci qi d =
     bindE (at (contexts d) ci) (\<lambda>ctx.
     bindE (at (queues ctx) qi) (\<lambda>queue.
     bindE (index (GPUs d) (int64 (GPUID queue - 1))) (\<lambda>dst.
       let (meta, d1) = newMeta (portName (gpuPort d)) dst d;
           req = \<lparr>lk_Meta = meta, lk_PID = pid ctx, HsaCo = codeObject, Packet = packet,
                  PacketAddress = dPacket, WGFilter = None\<rparr>
       in Inr (True, issueLaunchReq ci qi req d1))))"

fun launchOnMembers ::
  "int list \<Rightarrow> nat \<Rightarrow> HsaKernelDispatchPacket list \<Rightarrow> 64 word list \<Rightarrow> nat \<Rightarrow> nat \<Rightarrow>
   nat \<Rightarrow> int list \<Rightarrow> 'a Driver \<Rightarrow> error + 'a Driver" where
  "launchOnMembers wgDist codeObject packetArray dPacketArray ci qi i [] d = Inr d"
| "launchOnMembers wgDist codeObject packetArray dPacketArray ci qi i (gpuID # rest) d =
     bindE (index wgDist (int i + 1)) (\<lambda>hi.
     bindE (index wgDist (int i)) (\<lambda>lo.
       if int64 (hi - lo) = 0
       then launchOnMembers wgDist codeObject packetArray dPacketArray ci qi (Suc i) rest d
       else
         bindE (index (GPUs d) (int64 (gpuID - 1))) (\<lambda>dst.
         bindE (at (contexts d) ci) (\<lambda>ctx.
         bindE (index packetArray (int i)) (\<lambda>pkt.
         bindE (index dPacketArray (int i)) (\<lambda>dpkt.
           let (meta, d1) = newMeta (portName (gpuPort d)) dst d;
               req = \<lparr>lk_Meta = meta, lk_PID = pid ctx, HsaCo = codeObject, Packet = pkt,
                      PacketAddress = dpkt,
                      WGFilter = Some \<lparr>captured_wgDist = wgDist, currentGPUIndex = int i\<rparr>\<rparr>
           in launchOnMembers wgDist codeObject packetArray dPacketArray ci qi (Suc i) rest
                (issueLaunchReq ci qi req d1)))))))"

definition processUnifiedMultiGPULaunchKernelCommand ::
  "nat \<Rightarrow> HsaKernelDispatchPacket list \<Rightarrow> 64 word list \<Rightarrow> nat \<Rightarrow> nat \<Rightarrow> 'a Driver \<Rightarrow>
   error + (bool \<times> 'a Driver)" where
  "processUnifiedMultiGPULaunchKernelCommand codeObject packetArray dPacketArray ci qi d =
     bindE (at (contexts d) ci) (\<lambda>ctx.
     bindE (at (queues ctx) qi) (\<lambda>queue.
     bindE (distributeWGToGPUs (devices d) (GPUID queue) packetArray) (\<lambda>wgDist.
     bindE (index (devices d) (GPUID queue)) (\<lambda>dev.
     bindE (launchOnMembers wgDist codeObject packetArray dPacketArray ci qi 0
              (UnifiedGPUIDs dev) d) (\<lambda>d'.
       Inr (True, d'))))))"

text \<open>The body of the closure stored in \<open>req.WGFilter\<close>.\<close>

definition WGFilter_apply ::
  "WGFilterClosure \<Rightarrow> HsaKernelDispatchPacket \<Rightarrow> WorkGroup \<Rightarrow> error + bool" where
  "WGFilter_apply clo pkt wg =
     bindE (numWG (GridSizeX pkt) (WorkgroupSizeX pkt)) (\<lambda>numWGX.
     bindE (numWG (GridSizeY pkt) (WorkgroupSizeY pkt)) (\<lambda>numWGY.
       let flattenedID =
             int64 (int64 (int64 (int64 (IDZ wg * uint numWGX) * uint numWGY)
                           + int64 (IDY wg * uint numWGX))
                    + IDX wg)
       in
       bindE (index (captured_wgDist clo) (currentGPUIndex clo)) (\<lambda>lo.
         if flattenedID \<ge> lo
         then bindE (index (captured_wgDist clo) (currentGPUIndex clo + 1)) (\<lambda>hi.
                Inr (flattenedID < hi))
         else Inr False)))"

subsection \<open>Admission of new commands\<close>

text \<open>A middleware exposes \<open>ProcessCommand\<close> and \<open>Tick\<close>; both may change the driver
  they are attached to. The middlewares are not among the sources and are parameters.\<close>

record 's Middleware =
  mw_ProcessCommand :: "Command \<Rightarrow> nat \<Rightarrow> nat \<Rightarrow> 's \<Rightarrow> bool \<times> 's"
  mw_Tick :: "'s \<Rightarrow> bool \<times> 's"

fun processCommandWithMiddleware ::
  "'a Driver Middleware list \<Rightarrow> Command \<Rightarrow> nat \<Rightarrow> nat \<Rightarrow> 'a Driver \<Rightarrow> bool \<times> 'a Driver" where
  "processCommandWithMiddleware [] cmd ci qi d = (False, d)"
| "processCommandWithMiddleware (m # ms) cmd ci qi d =
     (let (processed, d') = mw_ProcessCommand m cmd ci qi d
      in if processed then (True, d') else processCommandWithMiddleware ms cmd ci qi d')"

fun processOneCommand ::
  "'a Driver Middleware list \<Rightarrow> Command \<Rightarrow> nat \<Rightarrow> nat \<Rightarrow> 'a Driver \<Rightarrow> error + (bool \<times> 'a Driver)" where
  "processOneCommand mws (LaunchKernelCommand cid codeObject packet dPacket reqs) ci qi d =
     processLaunchKernelCommand codeObject packet dPacket ci qi d"
| "processOneCommand mws (NoopCommand cid) ci qi d = Inr (processNoopCommand ci qi d)"
| "processOneCommand mws (LaunchUnifiedMultiGPUKernelCommand cid codeObject packetArray dPacketArray reqs)
     ci qi d =
     processUnifiedMultiGPULaunchKernelCommand codeObject packetArray dPacketArray ci qi d"
| "processOneCommand mws (OtherCommand cid reqs) ci qi d =
     Inr (processCommandWithMiddleware mws (OtherCommand cid reqs) ci qi d)"

definition processNewCommandFromCmdQueue ::
  "'a Driver Middleware list \<Rightarrow> nat \<Rightarrow> nat \<Rightarrow> 'a Driver \<Rightarrow> error + (bool \<times> 'a Driver)" where
  "processNewCommandFromCmdQueue mws ci qi d =
     bindE (at (contexts d) ci) (\<lambda>ctx.
     bindE (at (queues ctx) qi) (\<lambda>q.
       case commands q of
         [] \<Rightarrow> Inr (False, d)
       | cmd # _ \<Rightarrow> if IsRunning q then Inr (False, d) else processOneCommand mws cmd ci qi d))"

fun processQueues ::
  "'a Driver Middleware list \<Rightarrow> nat \<Rightarrow> nat list \<Rightarrow> 'a Driver \<Rightarrow> error + (bool \<times> 'a Driver)" where
  "processQueues mws ci [] d = Inr (False, d)"
| "processQueues mws ci (qi # qis) d =
     bindE (processNewCommandFromCmdQueue mws ci qi d) (\<lambda>(p, d').
     bindE (processQueues mws ci qis d') (\<lambda>(madeProgress, d'').
       Inr (madeProgress \<or> p, d'')))"

definition processNewCommandFromContext ::
  "'a Driver Middleware list \<Rightarrow> nat \<Rightarrow> 'a Driver \<Rightarrow> error + (bool \<times> 'a Driver)" where
  "processNewCommandFromContext mws ci d =
     bindE (at (contexts d) ci) (\<lambda>ctx. processQueues mws ci [0..<length (queues ctx)] d)"

fun processContexts ::
  "'a Driver Middleware list \<Rightarrow> nat list \<Rightarrow> 'a Driver \<Rightarrow> error + (bool \<times> 'a Driver)" where
  "processContexts mws [] d = Inr (False, d)"
| "processContexts mws (ci # cis) d =
     bindE (processNewCommandFromContext mws ci d) (\<lambda>(p, d').
     bindE (processContexts mws cis d') (\<lambda>(madeProgress, d'').
       Inr (madeProgress \<or> p, d'')))"

definition processNewCommand ::
  "'a Driver Middleware list \<Rightarrow> 'a Driver \<Rightarrow> error + (bool \<times> 'a Driver)" where
  "processNewCommand mws d = processContexts mws [0..<length (contexts d)] d"

subsection \<open>Completion of kernel launches\<close>

fun findInQueues :: "nat \<Rightarrow> CommandQueue list \<Rightarrow> nat \<Rightarrow> (Msg \<times> nat) option" where
  "findInQueues reqID [] qi = None"
| "findInQueues reqID (q # qs) qi =
     (case commands q of
        [] \<Rightarrow> findInQueues reqID qs (Suc qi)
      | cmd # _ \<Rightarrow>
          (case List.find (\<lambda>r. MsgID (Meta r) = reqID) (GetReqs cmd) of
             Some r \<Rightarrow> Some (r, qi)
           | None \<Rightarrow> findInQueues reqID qs (Suc qi)))"

fun findInContexts :: "nat \<Rightarrow> Context list \<Rightarrow> nat \<Rightarrow> (Msg \<times> nat \<times> nat) option" where
  "findInContexts reqID [] ci = None"
| "findInContexts reqID (ctx # ctxs) ci =
     (case findInQueues reqID (queues ctx) 0 of
        Some (r, qi) \<Rightarrow> Some (r, ci, qi)
      | None \<Rightarrow> findInContexts reqID ctxs (Suc ci))"

text \<open>The result is the request found and the place of its command's queue; the
  command is the head of that queue.\<close>

definition findCommandByReqID :: "nat \<Rightarrow> 'a Driver \<Rightarrow> error + (Msg \<times> nat \<times> nat)" where
  "findCommandByReqID reqID d =
     (case findInContexts reqID (contexts d) 0 of
        Some found \<Rightarrow> Inr found
      | None \<Rightarrow> Inl CannotFindCommand)"

definition processLaunchKernelReturn :: "nat \<Rightarrow> 'a Driver \<Rightarrow> error + (bool \<times> 'a Driver)" where
  "processLaunchKernelReturn rspTo d =
     bindE (findCommandByReqID rspTo d) (\<lambda>(req, ci, qi).
       let d1 = updateQueue ci qi (updateHead (RemoveReq req)) d;
           cmdQueue = queues (contexts d1 ! ci) ! qi
       in if length (GetReqs (hd (commands cmdQueue))) = 0
          then Inr (True, updateQueue ci qi (\<lambda>q. Dequeue (q\<lparr>IsRunning := False\<rparr>)) d1)
          else Inr (True, d1))"

subsection \<open>Page migration\<close>

fun rdmaDrainLoop :: "port list \<Rightarrow> 'a Driver \<Rightarrow> 'a Driver" where
  "rdmaDrainLoop [] d = d"
| "rdmaDrainLoop (gpu # rest) d =
     (let (meta, d1) = newMeta (portName (gpuPort d)) gpu d
      in rdmaDrainLoop rest
           (d1\<lparr>requestsToSend := requestsToSend d1 @ [RDMADrainCmdFromDriver meta],
               numRDMADrainACK := numRDMADrainACK d1 + 1\<rparr>))"

definition initiateRDMADrain :: "'a Driver \<Rightarrow> 'a Driver" where
  "initiateRDMADrain d = rdmaDrainLoop (GPUs d) d"

definition parseFromMMU :: "'a Driver \<Rightarrow> error + (bool \<times> 'a Driver)" where
  "parseFromMMU d =
     (if isCurrentlyHandlingMigrationReq d then Inr (False, d)
      else
        case incoming (mmuPort d) of
          [] \<Rightarrow> Inr (False, d)
        | req # _ \<Rightarrow>
            (case req of
               PageMigrationReqToDriverMsg r \<Rightarrow>
                 Inr (True,
                      initiateRDMADrain
                        ((mmuRetrieveIncoming d)\<lparr>currentPageMigrationReq := Some r,
                                                 isCurrentlyHandlingMigrationReq := True\<rparr>))
             | OtherMMUMsg _ \<Rightarrow> Inl CannotHandleRequest))"

text \<open>The v-addresses of the GPUs \<open>1 .. GetNumGPUs\<close> that have an entry in the map.\<close>

definition requestedVAddrs :: "PageMigrationReqToDriver \<Rightarrow> nat \<Rightarrow> 64 word list" where
  "requestedVAddrs cur n =
     concat (map (\<lambda>i. case GPUReqToVAddrMap cur (of_nat i) of None \<Rightarrow> [] | Some pages \<Rightarrow> pages)
                 [1..<n + 1])"

fun shootDownLoop :: "64 word list \<Rightarrow> 64 word list \<Rightarrow> PID \<Rightarrow> 'a Driver \<Rightarrow> error + 'a Driver" where
  "shootDownLoop [] vAddr p d = Inr d"
| "shootDownLoop (gpu # rest) vAddr p d =
     bindE (indexW (GPUs d) (gpu - 1)) (\<lambda>dst.
       let (meta, d1) = newMeta (portName (gpuPort d)) dst d
       in shootDownLoop rest vAddr p
            (d1\<lparr>requestsToSend := requestsToSend d1 @ [ShootDownCommand meta vAddr p]\<rparr>))"

definition sendShootDownReqs :: "'a Driver \<Rightarrow> error + 'a Driver" where
  "sendShootDownReqs d =
     (case currentPageMigrationReq d of
        None \<Rightarrow> Inl NilDereference
      | Some cur \<Rightarrow>
          (let vAddr = requestedVAddrs cur (GetNumGPUs d);
               accessingGPUs = CurrAccessingGPUs cur
           in shootDownLoop accessingGPUs vAddr (mig_PID cur)
                (d\<lparr>numShootDownACK := of_nat (length accessingGPUs)\<rparr>)))"

definition processRDMADrainRsp :: "'a Driver \<Rightarrow> error + (bool \<times> 'a Driver)" where
  "processRDMADrainRsp d =
     (let d1 = d\<lparr>numRDMADrainACK := numRDMADrainACK d - 1\<rparr>
      in if numRDMADrainACK d1 = 0
         then bindE (sendShootDownReqs d1) (\<lambda>d2. Inr (True, d2))
         else Inr (True, d1))"

definition findRequestingGPUs :: "PageMigrationReqToDriver \<Rightarrow> 'a Driver \<Rightarrow> 64 word list" where
  "findRequestingGPUs cur d =
     map (\<lambda>i. of_nat (i - 1))
         (filter (\<lambda>i. GPUReqToVAddrMap cur (of_nat i) \<noteq> None) [1..<GetNumGPUs d + 1])"

text \<open>\<open>context\<close> starts as the address of a fresh \<open>Context{}\<close> and is overwritten by
  every context whose pid is the pid of the current migration request (the parameter
  \<open>pid\<close> is not read); reading that pid dereferences \<open>currentPageMigrationReq\<close>.\<close>

definition emptyContext :: Context where
  "emptyContext = \<lparr>pid = 0, queues = [], l2Dirty = False, buffers = []\<rparr>"

fun findContextLoop ::
  "Context list \<Rightarrow> PageMigrationReqToDriver option \<Rightarrow> Context option \<Rightarrow> error + Context option" where
  "findContextLoop [] cur context = Inr context"
| "findContextLoop (c # cs) cur context =
     (case cur of
        None \<Rightarrow> Inl NilDereference
      | Some r \<Rightarrow> findContextLoop cs cur (if pid c = mig_PID r then Some c else context))"

definition findContext :: "PID \<Rightarrow> 'a Driver \<Rightarrow> error + Context" where
  "findContext p d =
     bindE (findContextLoop (contexts d) (currentPageMigrationReq d) (Some emptyContext))
       (\<lambda>context. case context of None \<Rightarrow> Inl ProcessDoesNotExist | Some c \<Rightarrow> Inr c)"

text \<open>Modelled from the spec: the allocator is not among the sources.
  \<open>allocate_page_with_vaddr(pid, device_id, v_addr, pin)\<close> reserves a physical frame on
  the named device and establishes the mapping. Which frame it reserves, and whether it
  can, is the parameter \<open>allocFrame\<close>. The page table maps \<open>(pid, v_addr)\<close> to the page;
  lookups are exact and an update replaces the record.\<close>

definition AllocatePageWithGivenVAddr ::
  "('a \<Rightarrow> int \<Rightarrow> error + 64 word \<times> 'a) \<Rightarrow> PID \<Rightarrow> int \<Rightarrow> 64 word \<Rightarrow> bool \<Rightarrow> 'a Driver \<Rightarrow>
   error + (Page \<times> 'a Driver)" where
  "AllocatePageWithGivenVAddr allocFrame p deviceID vAddr unified d =
     bindE (allocFrame (memAllocator d) deviceID) (\<lambda>(pAddr, a').
       let page = \<lparr>page_PID = p, VAddr = vAddr, PAddr = pAddr, DeviceID = of_int deviceID,
                   Unified = unified, IsMigrating = False\<rparr>
       in Inr (page, d\<lparr>memAllocator := a',
                        pageTable := (pageTable d)((p, vAddr) \<mapsto> page)\<rparr>))"

definition pageTableUpdate :: "Page \<Rightarrow> 'a Driver \<Rightarrow> 'a Driver" where
  "pageTableUpdate page d = d\<lparr>pageTable := (pageTable d)((page_PID page, VAddr page) \<mapsto> page)\<rparr>"

definition preparePageForMigration ::
  "('a \<Rightarrow> int \<Rightarrow> error + 64 word \<times> 'a) \<Rightarrow> 64 word \<Rightarrow> Context \<Rightarrow> 64 word \<Rightarrow> 'a Driver \<Rightarrow>
   error + ((Page \<times> 64 word) \<times> 'a Driver)" where
  "preparePageForMigration allocFrame vAddr context gpuID d =
     (case pageTable d (pid context, vAddr) of
        None \<Rightarrow> Inl PageNotFound
      | Some page \<Rightarrow>
          (let oldPAddr = PAddr page in
           bindE (AllocatePageWithGivenVAddr allocFrame (pid context) (sint (gpuID + 1)) vAddr True d)
             (\<lambda>(newPage, d1).
                let newPage' = newPage\<lparr>DeviceID := gpuID + 1, IsMigrating := True\<rparr>
                in Inr ((newPage', oldPAddr), pageTableUpdate newPage' d1))))"

text \<open>One iteration of the inner loop of \<open>processShootdownCompleteRsp\<close>.\<close>

definition migrateOnePage ::
  "('a \<Rightarrow> int \<Rightarrow> error + 64 word \<times> 'a) \<Rightarrow> Context \<Rightarrow> port \<Rightarrow> 64 word \<Rightarrow> 64 word \<Rightarrow> 'a Driver \<Rightarrow>
   error + 'a Driver" where
  "migrateOnePage allocFrame context toRequestFromPMCPort gpuID vAddr d =
     bindE (preparePageForMigration allocFrame vAddr context gpuID d) (\<lambda>((page, oldPAddr), d1).
     bindE (indexW (GPUs d1) gpuID) (\<lambda>dst.
       case currentPageMigrationReq d1 of
         None \<Rightarrow> Inl NilDereference
       | Some cur \<Rightarrow>
           (let (meta, d2) = newMeta (portName (gpuPort d1)) dst d1;
                req = \<lparr>cp_Meta = meta, DestinationPMCPort = toRequestFromPMCPort,
                       ToReadFromPhysicalAddress = oldPAddr,
                       ToWriteToPhysicalAddress = PAddr page,
                       cp_PageSize = PageSize cur\<rparr>
            in Inr (d2\<lparr>migrationReqToSendToCP := migrationReqToSendToCP d2 @ [req],
                       numPagesMigratingACK := numPagesMigratingACK d2 + 1\<rparr>))))"

fun migratePages ::
  "('a \<Rightarrow> int \<Rightarrow> error + 64 word \<times> 'a) \<Rightarrow> Context \<Rightarrow> port \<Rightarrow> (64 word \<times> 64 word) list \<Rightarrow>
   'a Driver \<Rightarrow> error + 'a Driver" where
  "migratePages allocFrame context pmcPort [] d = Inr d"
| "migratePages allocFrame context pmcPort ((gpuID, vAddr) # rest) d =
     bindE (migrateOnePage allocFrame context pmcPort gpuID vAddr d)
       (migratePages allocFrame context pmcPort rest)"

text \<open>\<open>pageVaddrs\<close> maps each requesting GPU (0-based) to the list stored under the
  1-based key. Go ranges over a map in an order of its choosing: \<open>mapOrder\<close> turns the
  keys of the map into the order of the visit. The result lists the (gpuID, vAddr) pairs
  in the order in which the two nested loops reach them.\<close>

definition pageVaddrs :: "PageMigrationReqToDriver \<Rightarrow> 64 word \<Rightarrow> 64 word list" where
  "pageVaddrs cur gpuID =
     (case GPUReqToVAddrMap cur (gpuID + 1) of None \<Rightarrow> [] | Some vAddrs \<Rightarrow> vAddrs)"

definition visitPageVaddrs ::
  "(64 word list \<Rightarrow> 64 word list) \<Rightarrow> PageMigrationReqToDriver \<Rightarrow> 64 word list \<Rightarrow>
   (64 word \<times> 64 word) list" where
  "visitPageVaddrs mapOrder cur requestingGPUs =
     concat (map (\<lambda>gpuID. map (\<lambda>vAddr. (gpuID, vAddr)) (pageVaddrs cur gpuID))
                 (mapOrder requestingGPUs))"

definition processShootdownCompleteRsp ::
  "('a \<Rightarrow> int \<Rightarrow> error + 64 word \<times> 'a) \<Rightarrow> (64 word list \<Rightarrow> 64 word list) \<Rightarrow> 'a Driver \<Rightarrow>
   error + (bool \<times> 'a Driver)" where
  "processShootdownCompleteRsp allocFrame mapOrder d =
     (let d1 = d\<lparr>numShootDownACK := numShootDownACK d - 1\<rparr>
      in if numShootDownACK d1 = 0
         then
           (case currentPageMigrationReq d1 of
              None \<Rightarrow> Inl NilDereference
            | Some cur \<Rightarrow>
                bindE (indexW (RemotePMCPorts d1) (CurrPageHostGPU cur - 1)) (\<lambda>toRequestFromPMCPort.
                  let requestingGPUs = findRequestingGPUs cur d1 in
                  bindE (findContext (mig_PID cur) d1) (\<lambda>context.
                  bindE (migratePages allocFrame context toRequestFromPMCPort
                           (visitPageVaddrs mapOrder cur requestingGPUs) d1) (\<lambda>d2.
                    Inr (True, d2)))))
         else Inr (False, d1))"

fun gpuRestartLoop :: "64 word list \<Rightarrow> 'a Driver \<Rightarrow> error + 'a Driver" where
  "gpuRestartLoop [] d = Inr d"
| "gpuRestartLoop (gpu # rest) d =
     bindE (indexW (GPUs d) (gpu - 1)) (\<lambda>dst.
       let (meta, d1) = newMeta (portName (gpuPort d)) dst d
       in gpuRestartLoop rest
            (d1\<lparr>requestsToSend := requestsToSend d1 @ [GPURestartReq meta],
                numRestartACK := numRestartACK d1 + 1\<rparr>))"

definition prepareGPURestartReqs :: "'a Driver \<Rightarrow> error + 'a Driver" where
  "prepareGPURestartReqs d =
     (case currentPageMigrationReq d of
        None \<Rightarrow> Inl NilDereference
      | Some cur \<Rightarrow> gpuRestartLoop (CurrAccessingGPUs cur) d)"

definition preparePageMigrationRspToMMU ::
  "(64 word list \<Rightarrow> 64 word list) \<Rightarrow> 'a Driver \<Rightarrow> error + 'a Driver" where
  "preparePageMigrationRspToMMU mapOrder d =
     (case currentPageMigrationReq d of
        None \<Rightarrow> Inl NilDereference
      | Some cur \<Rightarrow>
          (let requestingGPUs = findRequestingGPUs cur d;
               (meta, d1) = newMeta (portName (mmuPort d)) (Src (mig_Meta cur)) d;
               req = \<lparr>rsp_Meta = meta, OriginalReq = cur,
                      rsp_VAddr = map snd (visitPageVaddrs mapOrder cur requestingGPUs),
                      RspToTop = RespondToTop cur\<rparr>
           in Inr (d1\<lparr>toSendToMMU := Some req\<rparr>)))"

definition processPageMigrationRspFromCP ::
  "(64 word list \<Rightarrow> 64 word list) \<Rightarrow> 'a Driver \<Rightarrow> error + (bool \<times> 'a Driver)" where
  "processPageMigrationRspFromCP mapOrder d =
     (let d1 = d\<lparr>numPagesMigratingACK := numPagesMigratingACK d - 1,
                 isCurrentlyMigratingOnePage := False\<rparr>
      in if numPagesMigratingACK d1 = 0
         then bindE (prepareGPURestartReqs d1) (\<lambda>d2.
              bindE (preparePageMigrationRspToMMU mapOrder d2) (\<lambda>d3. Inr (True, d3)))
         else Inr (True, d1))"

fun rdmaRestartLoop :: "port list \<Rightarrow> 'a Driver \<Rightarrow> 'a Driver" where
  "rdmaRestartLoop [] d = d"
| "rdmaRestartLoop (gpu # rest) d =
     (let (meta, d1) = newMeta (portName (gpuPort d)) gpu d
      in rdmaRestartLoop rest
           (d1\<lparr>requestsToSend := requestsToSend d1 @ [RDMARestartCmdFromDriver meta],
               numRDMARestartACK := numRDMARestartACK d1 + 1\<rparr>))"

definition prepareRDMARestartReqs :: "'a Driver \<Rightarrow> 'a Driver" where
  "prepareRDMARestartReqs d = rdmaRestartLoop (GPUs d) d"

definition handleGPURestartRsp :: "'a Driver \<Rightarrow> bool \<times> 'a Driver" where
  "handleGPURestartRsp d =
     (let d1 = d\<lparr>numRestartACK := numRestartACK d - 1\<rparr>
      in if numRestartACK d1 = 0 then (True, prepareRDMARestartReqs d1) else (True, d1))"

definition processRDMARestartRspToDriver :: "'a Driver \<Rightarrow> bool \<times> 'a Driver" where
  "processRDMARestartRspToDriver d =
     (let d1 = d\<lparr>numRDMARestartACK := numRDMARestartACK d - 1\<rparr>
      in if numRDMARestartACK d1 = 0
         then (True, d1\<lparr>currentPageMigrationReq := None,
                        isCurrentlyHandlingMigrationReq := False\<rparr>)
         else (True, d1))"

subsection \<open>Responses from the GPUs and the tick\<close>

definition processReturnReq ::
  "('a \<Rightarrow> int \<Rightarrow> error + 64 word \<times> 'a) \<Rightarrow> (64 word list \<Rightarrow> 64 word list) \<Rightarrow> 'a Driver \<Rightarrow>
   error + (bool \<times> 'a Driver)" where
  "processReturnReq allocFrame mapOrder d =
     (case incoming (gpuPort d) of
        [] \<Rightarrow> Inr (False, d)
      | req # _ \<Rightarrow>
          (case req of
             LaunchKernelRsp _ rspTo \<Rightarrow> processLaunchKernelReturn rspTo (gpuRetrieveIncoming d)
           | RDMADrainRspToDriver _ \<Rightarrow> processRDMADrainRsp (gpuRetrieveIncoming d)
           | ShootDownCompleteRsp _ \<Rightarrow>
               processShootdownCompleteRsp allocFrame mapOrder (gpuRetrieveIncoming d)
           | PageMigrationRspToDriver _ \<Rightarrow>
               processPageMigrationRspFromCP mapOrder (gpuRetrieveIncoming d)
           | RDMARestartRspToDriver _ \<Rightarrow> Inr (processRDMARestartRspToDriver (gpuRetrieveIncoming d))
           | GPURestartRsp _ \<Rightarrow> Inr (handleGPURestartRsp (gpuRetrieveIncoming d))
           | _ \<Rightarrow> Inr (False, d)))"

fun tickMiddlewares :: "'a Driver Middleware list \<Rightarrow> 'a Driver \<Rightarrow> bool \<times> 'a Driver" where
  "tickMiddlewares [] d = (False, d)"
| "tickMiddlewares (mw # mws) d =
     (let (p, d') = mw_Tick mw d;
          (madeProgress, d'') = tickMiddlewares mws d'
      in (madeProgress \<or> p, d''))"

text \<open>What the surroundings decide during one tick: whether each of the three
  \<open>Send\<close> calls is accepted, and the order of the map visit.\<close>

record TickEnv =
  gpuAccepts :: bool
  mmuAccepts :: bool
  cpAccepts :: bool
  mapOrder :: "64 word list \<Rightarrow> 64 word list"

definition Tick ::
  "TickEnv \<Rightarrow> ('a \<Rightarrow> int \<Rightarrow> error + 64 word \<times> 'a) \<Rightarrow> 'a Driver Middleware list \<Rightarrow> 'a Driver \<Rightarrow>
   error + (bool \<times> 'a Driver)" where
  "Tick env allocFrame middlewares d =
     (let (p1, d1) = sendToGPUs (gpuAccepts env) d;
          (p2, d2) = sendToMMU (mmuAccepts env) d1;
          (p3, d3) = sendMigrationReqToCP (cpAccepts env) d2;
          (p4, d4) = tickMiddlewares middlewares d3
      in bindE (processReturnReq allocFrame (mapOrder env) d4) (\<lambda>(p5, d5).
         bindE (processNewCommand middlewares d5) (\<lambda>(p6, d6).
         bindE (parseFromMMU d6) (\<lambda>(p7, d7).
           Inr (p7 \<or> p6 \<or> p5 \<or> p4 \<or> p3 \<or> p2 \<or> p1, d7)))))"

subsection \<open>The workgroup distribution as the specification words it\<close>

definition ceilDiv :: "nat \<Rightarrow> nat \<Rightarrow> nat" where
  "ceilDiv a b = (a + b - 1) div b"

definition memberCUs :: "Device list \<Rightarrow> int list \<Rightarrow> int list" where
  "memberCUs devs ms = map (\<lambda>m. CUCount (Properties (devs ! nat m))) ms"

definition spec_num_wg :: "HsaKernelDispatchPacket \<Rightarrow> nat" where
  "spec_num_wg pkt =
     ceilDiv (unat (GridSizeX pkt)) (unat (WorkgroupSizeX pkt)) *
     ceilDiv (unat (GridSizeY pkt)) (unat (WorkgroupSizeY pkt)) *
     ceilDiv (unat (GridSizeZ pkt)) (unat (WorkgroupSizeZ pkt))"

fun cumulative :: "int \<Rightarrow> int \<Rightarrow> int list \<Rightarrow> int list" where
  "cumulative a w [] = []"
| "cumulative a w (c # cs) = (a + c * w) # cumulative (a + c * w) w cs"

definition spec_wg_dist :: "int \<Rightarrow> int list \<Rightarrow> int list" where
  "spec_wg_dist w cus = 0 # cumulative 0 w cus"

text \<open>The row-major flattened id of a workgroup, with the numbers of workgroups per
  dimension as the ceilings the specification gives.\<close>

definition spec_flattened_id :: "HsaKernelDispatchPacket \<Rightarrow> WorkGroup \<Rightarrow> int" where
  "spec_flattened_id pkt wg =
     IDZ wg * int (ceilDiv (unat (GridSizeX pkt)) (unat (WorkgroupSizeX pkt)))
            * int (ceilDiv (unat (GridSizeY pkt)) (unat (WorkgroupSizeY pkt)))
     + IDY wg * int (ceilDiv (unat (GridSizeX pkt)) (unat (WorkgroupSizeX pkt)))
     + IDX wg"

text \<open>What a launch request tells the GPU about its share: the destination, the
  packet and the filter.\<close>

definition launchView :: "LaunchKernelReq \<Rightarrow> port \<times> HsaKernelDispatchPacket \<times> WGFilterClosure option" where
  "launchView r = (Dst (lk_Meta r), Packet r, WGFilter r)"

text \<open>The outstanding requests of the command at the head of a queue, and whether one of
  them has the id \<open>r\<close>.\<close>

definition headReqs :: "CommandQueue \<Rightarrow> Msg list" where
  "headReqs q = (case commands q of [] \<Rightarrow> [] | cmd # _ \<Rightarrow> GetReqs cmd)"

definition hasReq :: "nat \<Rightarrow> CommandQueue \<Rightarrow> bool" where
  "hasReq r q = (\<exists>m\<in>set (headReqs q). MsgID (Meta m) = r)"

subsection \<open>Runs of the driver\<close>

text \<open>Between two ticks messages may arrive at the two ports. A run delivers the
  arrivals of each step and then ticks; it stops at the first panic.\<close>

record TickInput =
  tickEnv :: TickEnv
  gpuArrivals :: "Msg list"
  mmuArrivals :: "MMUMsg list"

definition deliver :: "Msg list \<Rightarrow> MMUMsg list \<Rightarrow> 'a Driver \<Rightarrow> 'a Driver" where
  "deliver gpuMsgs mmuMsgs d =
     d\<lparr>gpuPort := (gpuPort d)\<lparr>incoming := incoming (gpuPort d) @ gpuMsgs\<rparr>,
       mmuPort := (mmuPort d)\<lparr>incoming := incoming (mmuPort d) @ mmuMsgs\<rparr>\<rparr>"

fun run ::
  "('a \<Rightarrow> int \<Rightarrow> error + 64 word \<times> 'a) \<Rightarrow> 'a Driver Middleware list \<Rightarrow> TickInput list \<Rightarrow>
   'a Driver \<Rightarrow> error + 'a Driver" where
  "run allocFrame middlewares [] d = Inr d"
| "run allocFrame middlewares (inp # rest) d =
     bindE (Tick (tickEnv inp) allocFrame middlewares
              (deliver (gpuArrivals inp) (mmuArrivals inp) d))
       (\<lambda>(madeProgress, d'). run allocFrame middlewares rest d')"

text \<open>The six kinds of responses that \<open>processReturnReq\<close> knows.\<close>

fun recognisedRsp :: "Msg \<Rightarrow> bool" where
  "recognisedRsp (LaunchKernelRsp _ _) = True"
| "recognisedRsp (RDMADrainRspToDriver _) = True"
| "recognisedRsp (ShootDownCompleteRsp _) = True"
| "recognisedRsp (PageMigrationRspToDriver _) = True"
| "recognisedRsp (RDMARestartRspToDriver _) = True"
| "recognisedRsp (GPURestartRsp _) = True"
| "recognisedRsp _ = False"

subsection \<open>Relations between the states before and after a step\<close>

text \<open>Command admission changes the state only by drawing ids, updating contexts and
  appending launch requests; a relation that contains these steps and is reflexive and
  transitive contains every admission. \<open>middlewaresKeep\<close> says the same of the hooks
  of the middlewares.\<close>

definition launchClosed :: "('a Driver \<Rightarrow> 'a Driver \<Rightarrow> bool) \<Rightarrow> bool" where
  "launchClosed R \<longleftrightarrow>
     (\<forall>d. R d d) \<and> (\<forall>a b c. R a b \<longrightarrow> R b c \<longrightarrow> R a c)
     \<and> (\<forall>d n. R d (d\<lparr>idGenerator := n\<rparr>))
     \<and> (\<forall>ci f d. R d (updateContext ci f d))
     \<and> (\<forall>d req. R d (d\<lparr>requestsToSend := requestsToSend d @ [LaunchKernelReqMsg req]\<rparr>))"

definition middlewaresKeep ::
  "('a Driver \<Rightarrow> 'a Driver \<Rightarrow> bool) \<Rightarrow> 'a Driver Middleware list \<Rightarrow> bool" where
  "middlewaresKeep R mws \<longleftrightarrow>
     (\<forall>m\<in>set mws. (\<forall>cmd ci qi d. R d (snd (mw_ProcessCommand m cmd ci qi d)))
                    \<and> (\<forall>d. R d (snd (mw_Tick m d))))"

definition sameGPUInbox :: "'a Driver \<Rightarrow> 'a Driver \<Rightarrow> bool" where
  "sameGPUInbox d d' \<longleftrightarrow>
     incoming (gpuPort d') = incoming (gpuPort d) \<and> retrieved (gpuPort d') = retrieved (gpuPort d)"

subsection \<open>The acknowledgement counters of the page migration\<close>

text \<open>The five phases, and the kind of request and of response that belongs to each.\<close>

datatype AckKind = RDMADrain | ShootDown | PageMigration | GPURestart | RDMARestart

fun reqKind :: "Msg \<Rightarrow> AckKind option" where
  "reqKind (RDMADrainCmdFromDriver _) = Some RDMADrain"
| "reqKind (ShootDownCommand _ _ _) = Some ShootDown"
| "reqKind (PageMigrationReqToCPMsg _) = Some PageMigration"
| "reqKind (GPURestartReq _) = Some GPURestart"
| "reqKind (RDMARestartCmdFromDriver _) = Some RDMARestart"
| "reqKind _ = None"

fun rspKind :: "Msg \<Rightarrow> AckKind option" where
  "rspKind (RDMADrainRspToDriver _) = Some RDMADrain"
| "rspKind (ShootDownCompleteRsp _) = Some ShootDown"
| "rspKind (PageMigrationRspToDriver _) = Some PageMigration"
| "rspKind (GPURestartRsp _) = Some GPURestart"
| "rspKind (RDMARestartRspToDriver _) = Some RDMARestart"
| "rspKind _ = None"

definition countKind :: "(Msg \<Rightarrow> AckKind option) \<Rightarrow> AckKind \<Rightarrow> Msg list \<Rightarrow> nat" where
  "countKind f k ms = length (filter (\<lambda>m. f m = Some k) ms)"

fun ackCounter :: "AckKind \<Rightarrow> 'a Driver \<Rightarrow> 64 word" where
  "ackCounter RDMADrain d = numRDMADrainACK d"
| "ackCounter ShootDown d = numShootDownACK d"
| "ackCounter PageMigration d = numPagesMigratingACK d"
| "ackCounter GPURestart d = numRestartACK d"
| "ackCounter RDMARestart d = numRDMARestartACK d"

text \<open>The requests of a kind that wait in the driver, those it sent, the responses it
  retrieved, and the responses that wait at the port.\<close>

definition queuedReqs :: "AckKind \<Rightarrow> 'a Driver \<Rightarrow> nat" where
  "queuedReqs k d =
     countKind reqKind k (requestsToSend d)
     + (if k = PageMigration then length (migrationReqToSendToCP d) else 0)"

definition sentReqs :: "AckKind \<Rightarrow> 'a Driver \<Rightarrow> nat" where
  "sentReqs k d = countKind reqKind k (sent (gpuPort d))"

definition retrievedRsps :: "AckKind \<Rightarrow> 'a Driver \<Rightarrow> nat" where
  "retrievedRsps k d = countKind rspKind k (retrieved (gpuPort d))"

definition waitingRsps :: "AckKind \<Rightarrow> 'a Driver \<Rightarrow> nat" where
  "waitingRsps k d = countKind rspKind k (incoming (gpuPort d))"

text \<open>A request is in flight from the successful send until the driver retrieves its
  response.\<close>

definition inFlight :: "AckKind \<Rightarrow> 'a Driver \<Rightarrow> nat" where
  "inFlight k d = sentReqs k d - retrievedRsps k d"

text \<open>The batches of requests that open the phases.\<close>

definition drainCmds :: "nat \<Rightarrow> port \<Rightarrow> port list \<Rightarrow> Msg list" where
  "drainCmds firstID src gs =
     map (\<lambda>(i, g). RDMADrainCmdFromDriver \<lparr>MsgID = firstID + i, Src = src, Dst = g\<rparr>)
         (zip [0..<length gs] gs)"

definition rdmaRestartCmds :: "nat \<Rightarrow> port \<Rightarrow> port list \<Rightarrow> Msg list" where
  "rdmaRestartCmds firstID src gs =
     map (\<lambda>(i, g). RDMARestartCmdFromDriver \<lparr>MsgID = firstID + i, Src = src, Dst = g\<rparr>)
         (zip [0..<length gs] gs)"

definition shootDownCmds ::
  "nat \<Rightarrow> port \<Rightarrow> port list \<Rightarrow> 64 word list \<Rightarrow> PID \<Rightarrow> 64 word list \<Rightarrow> Msg list" where
  "shootDownCmds firstID src gpus vAddr p accs =
     map (\<lambda>(i, gpu). ShootDownCommand
            \<lparr>MsgID = firstID + i, Src = src, Dst = gpus ! unat (gpu - 1)\<rparr> vAddr p)
         (zip [0..<length accs] accs)"

definition gpuRestartCmds :: "nat \<Rightarrow> port \<Rightarrow> port list \<Rightarrow> 64 word list \<Rightarrow> Msg list" where
  "gpuRestartCmds firstID src gpus accs =
     map (\<lambda>(i, gpu). GPURestartReq \<lparr>MsgID = firstID + i, Src = src, Dst = gpus ! unat (gpu - 1)\<rparr>)
         (zip [0..<length accs] accs)"

text \<open>A migration request is well formed when its lists are Go slices whose lengths fit
  the counters.\<close>

definition wfMigrationReq :: "nat \<Rightarrow> PageMigrationReqToDriver \<Rightarrow> bool" where
  "wfMigrationReq n r \<longleftrightarrow>
     length (CurrAccessingGPUs r) < 2 ^ 64 \<and> length (requestedVAddrs r n) < 2 ^ 64"

fun wfMMUMsg :: "nat \<Rightarrow> MMUMsg \<Rightarrow> bool" where
  "wfMMUMsg n (PageMigrationReqToDriverMsg r) = wfMigrationReq n r"
| "wfMMUMsg n (OtherMMUMsg _) = True"

subsection \<open>The states a driver reaches\<close>

text \<open>The protocol invariant of the orchestrator. For every kind: the counter plus the
  responses retrieved equals the requests queued plus the requests sent; no more
  responses have arrived than requests were sent; page-copy requests travel only through
  \<open>migrationReqToSendToCP\<close>, and the page-copy requests sent exceed the responses
  retrieved by one exactly while \<open>isCurrentlyMigratingOnePage\<close> holds; at most one
  counter is not zero, and none while no migration is handled; the lists are slices.\<close>

definition migInv :: "'a Driver \<Rightarrow> bool" where
  "migInv d \<longleftrightarrow>
     (\<forall>k. unat (ackCounter k d) + retrievedRsps k d = queuedReqs k d + sentReqs k d)
   \<and> (\<forall>k. retrievedRsps k d + waitingRsps k d \<le> sentReqs k d)
   \<and> countKind reqKind PageMigration (requestsToSend d) = 0
   \<and> sentReqs PageMigration d =
       retrievedRsps PageMigration d + (if isCurrentlyMigratingOnePage d then 1 else 0)
   \<and> (\<forall>k k'. ackCounter k d \<noteq> 0 \<and> ackCounter k' d \<noteq> 0 \<longrightarrow> k = k')
   \<and> (\<not> isCurrentlyHandlingMigrationReq d \<longrightarrow> (\<forall>k. ackCounter k d = 0))
   \<and> length (GPUs d) < 2 ^ 64
   \<and> (\<forall>cur. currentPageMigrationReq d = Some cur \<longrightarrow> wfMigrationReq (length (GPUs d)) cur)
   \<and> (\<forall>m\<in>set (incoming (mmuPort d)). wfMMUMsg (length (GPUs d)) m)"

definition keepsMigInv :: "'a Driver \<Rightarrow> 'a Driver \<Rightarrow> bool" where
  "keepsMigInv d d' \<longleftrightarrow> (migInv d \<longrightarrow> migInv d')"

text \<open>A driver that has not exchanged any message yet.\<close>

definition freshDriver :: "'a Driver \<Rightarrow> bool" where
  "freshDriver d \<longleftrightarrow>
     (\<forall>k. ackCounter k d = 0)
   \<and> \<not> isCurrentlyHandlingMigrationReq d \<and> \<not> isCurrentlyMigratingOnePage d
   \<and> currentPageMigrationReq d = None \<and> toSendToMMU d = None
   \<and> migrationReqToSendToCP d = []
   \<and> (\<forall>m\<in>set (requestsToSend d). reqKind m = None)
   \<and> incoming (gpuPort d) = [] \<and> retrieved (gpuPort d) = [] \<and> sent (gpuPort d) = []
   \<and> incoming (mmuPort d) = []
   \<and> length (GPUs d) < 2 ^ 64"

text \<open>What is assumed of the surroundings at a step: a map visit reaches every key once;
  the requests of the MMU are well formed; and the GPUs answer requests, so that with
  the arrivals of the step no kind has more responses than requests sent.\<close>

definition wellBehaved :: "TickInput \<Rightarrow> 'a Driver \<Rightarrow> bool" where
  "wellBehaved inp d \<longleftrightarrow>
     (\<forall>ks. mset (mapOrder (tickEnv inp) ks) = mset ks)
   \<and> (\<forall>m\<in>set (mmuArrivals inp). wfMMUMsg (length (GPUs d)) m)
   \<and> (\<forall>k. retrievedRsps k d + waitingRsps k d + countKind rspKind k (gpuArrivals inp)
           \<le> sentReqs k d)"

text \<open>The states the driver passes through: it starts fresh, messages arrive, and the
  sub-steps of \<open>Tick\<close> are taken. The order of the sub-steps is not recorded, so the
  states between the sub-steps of a tick belong to the set as well as the states between
  ticks.\<close>

inductive reachable ::
  "('a \<Rightarrow> int \<Rightarrow> error + 64 word \<times> 'a) \<Rightarrow> 'a Driver Middleware list \<Rightarrow> 'a Driver \<Rightarrow> bool"
  for allocFrame middlewares where
  start: "freshDriver d \<Longrightarrow> reachable allocFrame middlewares d"
| arrive: "reachable allocFrame middlewares d \<Longrightarrow> wellBehaved inp d \<Longrightarrow>
         reachable allocFrame middlewares (deliver (gpuArrivals inp) (mmuArrivals inp) d)"
| toGPUs: "reachable allocFrame middlewares d \<Longrightarrow>
         reachable allocFrame middlewares (snd (sendToGPUs accepted d))"
| toMMU: "reachable allocFrame middlewares d \<Longrightarrow>
         reachable allocFrame middlewares (snd (sendToMMU accepted d))"
| toCP: "reachable allocFrame middlewares d \<Longrightarrow>
         reachable allocFrame middlewares (snd (sendMigrationReqToCP accepted d))"
| hooks: "reachable allocFrame middlewares d \<Longrightarrow>
         reachable allocFrame middlewares (snd (tickMiddlewares middlewares d))"
| fromGPUs: "reachable allocFrame middlewares d \<Longrightarrow> (\<forall>ks. mset (ord ks) = mset ks) \<Longrightarrow>
         processReturnReq allocFrame ord d = Inr (madeProgress, d') \<Longrightarrow>
         reachable allocFrame middlewares d'"
| admit: "reachable allocFrame middlewares d \<Longrightarrow>
         processNewCommand middlewares d = Inr (madeProgress, d') \<Longrightarrow>
         reachable allocFrame middlewares d'"
| fromMMU: "reachable allocFrame middlewares d \<Longrightarrow>
         parseFromMMU d = Inr (madeProgress, d') \<Longrightarrow>
         reachable allocFrame middlewares d'"

text \<open>A step that leaves the five counters as they are.\<close>

definition sameAckCounters :: "'a Driver \<Rightarrow> 'a Driver \<Rightarrow> bool" where
  "sameAckCounters d d' \<longleftrightarrow> (\<forall>k. ackCounter k d' = ackCounter k d)"

text \<open>A run whose surroundings behave well at every step.\<close>

fun wellBehavedRun ::
  "('a \<Rightarrow> int \<Rightarrow> error + 64 word \<times> 'a) \<Rightarrow> 'a Driver Middleware list \<Rightarrow> TickInput list \<Rightarrow>
   'a Driver \<Rightarrow> bool" where
  "wellBehavedRun allocFrame middlewares [] d = True"
| "wellBehavedRun allocFrame middlewares (inp # rest) d =
     (wellBehaved inp d \<and>
      (case Tick (tickEnv inp) allocFrame middlewares
              (deliver (gpuArrivals inp) (mmuArrivals inp) d) of
         Inl e \<Rightarrow> True
       | Inr (madeProgress, d') \<Rightarrow> wellBehavedRun allocFrame middlewares rest d'))"

text \<open>A step that leaves the migration context as it is: the flag and the current request.\<close>

definition sameMigrationContext :: "'a Driver \<Rightarrow> 'a Driver \<Rightarrow> bool" where
  "sameMigrationContext d d' \<longleftrightarrow>
     isCurrentlyHandlingMigrationReq d' = isCurrentlyHandlingMigrationReq d
   \<and> currentPageMigrationReq d' = currentPageMigrationReq d"


subsection \<open>A small platform for concrete runs\<close>

text \<open>Device 0 is the reserved sentinel, devices 1 and 2 are GPUs with one and three
  compute units, device 3 is the unified device over both. The kernel has a grid of
  \<open>8 \<times> 1 \<times> 1\<close> work-items in workgroups of one work-item.\<close>

definition exampleDevices :: "Device list" where
  "exampleDevices =
     [\<lparr>ID = 0, Properties = \<lparr>CUCount = 0, DRAMSize = 0\<rparr>, UnifiedGPUIDs = []\<rparr>,
      \<lparr>ID = 1, Properties = \<lparr>CUCount = 1, DRAMSize = 4294967296\<rparr>, UnifiedGPUIDs = []\<rparr>,
      \<lparr>ID = 2, Properties = \<lparr>CUCount = 3, DRAMSize = 4294967296\<rparr>, UnifiedGPUIDs = []\<rparr>,
      \<lparr>ID = 3, Properties = \<lparr>CUCount = 0, DRAMSize = 0\<rparr>, UnifiedGPUIDs = [1, 2]\<rparr>]"

definition examplePacket :: HsaKernelDispatchPacket where
  "examplePacket =
     \<lparr>WorkgroupSizeX = 1, WorkgroupSizeY = 1, WorkgroupSizeZ = 1,
      GridSizeX = 8, GridSizeY = 1, GridSizeZ = 1\<rparr>"

text \<open>A driver for that platform: two GPUs, one context of process 1 with one queue
  bound to the unified device, a unified launch at its head, and one page of process 1
  at v-address \<open>0x1000\<close> on device 1. The allocator state is the number of frames
  handed out so far.\<close>

definition exampleQueue :: CommandQueue where
  "exampleQueue =
     \<lparr>IsRunning = False, GPUID = 3,
      commands = [LaunchUnifiedMultiGPUKernelCommand 0 0 [examplePacket, examplePacket] [0, 0] []]\<rparr>"

definition exampleContext :: Context where
  "exampleContext = \<lparr>pid = 1, queues = [exampleQueue], l2Dirty = False, buffers = [False]\<rparr>"

definition exampleDriver :: "nat Driver" where
  "exampleDriver =
     \<lparr>memAllocator = 0,
      GPUs = [''GPU1.CP'', ''GPU2.CP''],
      devices = exampleDevices,
      pageTable = [(1, 4096) \<mapsto> \<lparr>page_PID = 1, VAddr = 4096, PAddr = 8192, DeviceID = 1,
                                   Unified = True, IsMigrating = False\<rparr>],
      requestsToSend = [],
      contexts = [exampleContext],
      mmuPort = \<lparr>portName = ''Driver.MMU'', incoming = [], retrieved = [], sent = []\<rparr>,
      gpuPort = \<lparr>portName = ''Driver.GPU'', incoming = [], retrieved = [], sent = []\<rparr>,
      currentPageMigrationReq = None,
      toSendToMMU = None,
      migrationReqToSendToCP = [],
      isCurrentlyHandlingMigrationReq = False,
      numRDMADrainACK = 0,
      numRDMARestartACK = 0,
      numShootDownACK = 0,
      numRestartACK = 0,
      numPagesMigratingACK = 0,
      isCurrentlyMigratingOnePage = False,
      RemotePMCPorts = [''GPU1.PMC'', ''GPU2.PMC''],
      idGenerator = 0\<rparr>"

definition exampleAllocFrame :: "nat \<Rightarrow> int \<Rightarrow> error + 64 word \<times> nat" where
  "exampleAllocFrame a deviceID = Inr (of_nat (65536 + 4096 * a), Suc a)"

text \<open>A migration request of the MMU for process 1: GPUs 1 and 2 access the page at
  \<open>0x1000\<close>, GPU 1 hosts it, GPU 2 asks for it.\<close>

definition exampleMigrationReq :: PageMigrationReqToDriver where
  "exampleMigrationReq =
     \<lparr>mig_Meta = \<lparr>MsgID = 100, Src = ''MMU'', Dst = ''Driver.MMU''\<rparr>,
      GPUReqToVAddrMap = [2 \<mapsto> [4096]],
      CurrAccessingGPUs = [1, 2],
      mig_PID = 1,
      CurrPageHostGPU = 1,
      PageSize = 4096,
      RespondToTop = False\<rparr>"

text \<open>The driver while a single-GPU launch is in flight: the queue runs, the launch at
  its head waits for the response to request 5, a noop is queued behind it.\<close>

definition exampleLaunchReq :: LaunchKernelReq where
  "exampleLaunchReq =
     \<lparr>lk_Meta = \<lparr>MsgID = 5, Src = ''Driver.GPU'', Dst = ''GPU1.CP''\<rparr>, lk_PID = 1, HsaCo = 0,
      Packet = examplePacket, PacketAddress = 0, WGFilter = None\<rparr>"

definition exampleRunningQueue :: CommandQueue where
  "exampleRunningQueue =
     \<lparr>IsRunning = True, GPUID = 1,
      commands = [LaunchKernelCommand 1 0 examplePacket 0 [LaunchKernelReqMsg exampleLaunchReq],
                  NoopCommand 2]\<rparr>"

definition exampleRunningDriver :: "nat Driver" where
  "exampleRunningDriver =
     exampleDriver\<lparr>contexts := [exampleContext\<lparr>queues := [exampleRunningQueue]\<rparr>]\<rparr>"

text \<open>The surroundings accept every send and visit maps in ascending key order.\<close>

definition exampleEnv :: TickEnv where
  "exampleEnv = \<lparr>gpuAccepts = True, mmuAccepts = True, cpAccepts = True, mapOrder = (\<lambda>ks. ks)\<rparr>"

text \<open>A driver without contexts at whose GPU port a message of an unknown type arrived,
  followed by the response to launch request 5.\<close>

definition exampleBlockedDriver :: "nat Driver" where
  "exampleBlockedDriver =
     exampleDriver\<lparr>contexts := [],
       gpuPort := \<lparr>portName = ''Driver.GPU'',
                   incoming = [OtherMsg \<lparr>MsgID = 7, Src = ''GPU1.CP'', Dst = ''Driver.GPU''\<rparr>,
                               LaunchKernelRsp \<lparr>MsgID = 8, Src = ''GPU1.CP'', Dst = ''Driver.GPU''\<rparr> 5],
                   retrieved = [], sent = []\<rparr>\<rparr>"

text \<open>Two middlewares. The first declines every command and draws an id at each tick.
  The second declines every command as well, and at each tick retrieves the message at
  the head of the incoming queue of the GPU port when that message is of the type
  \<open>OtherMsg\<close>.\<close>

definition exampleQuietMiddleware :: "nat Driver Middleware" where
  "exampleQuietMiddleware =
     \<lparr>mw_ProcessCommand = (\<lambda>cmd ci qi d. (False, d)),
      mw_Tick = (\<lambda>d. (True, d\<lparr>idGenerator := Suc (idGenerator d)\<rparr>))\<rparr>"

definition exampleRetrievingMiddleware :: "nat Driver Middleware" where
  "exampleRetrievingMiddleware =
     \<lparr>mw_ProcessCommand = (\<lambda>cmd ci qi d. (False, d)),
      mw_Tick = (\<lambda>d. case incoming (gpuPort d) of
                         OtherMsg meta # rest \<Rightarrow> (True, gpuRetrieveIncoming d)
                       | _ \<Rightarrow> (False, d))\<rparr>"

text \<open>The driver with the launch in flight, at whose GPU port the message of an unknown
  type arrived, followed by the response to launch request 5.\<close>

definition exampleBlockedRunningDriver :: "nat Driver" where
  "exampleBlockedRunningDriver =
     exampleRunningDriver\<lparr>gpuPort := gpuPort exampleBlockedDriver\<rparr>"

text \<open>A page migration from start to end. The driver has no command queued. The MMU
  asks for the migration; the responses of the GPUs arrive one per tick, each after its
  request was sent.\<close>

definition exampleMigDriver :: "nat Driver" where
  "exampleMigDriver = exampleDriver\<lparr>contexts := [exampleContext\<lparr>queues := []\<rparr>]\<rparr>"

definition exampleRspMeta :: "nat \<Rightarrow> MsgMeta" where
  "exampleRspMeta i = \<lparr>MsgID = 200 + i, Src = ''GPU.CP'', Dst = ''Driver.GPU''\<rparr>"

definition exampleQuietInput :: TickInput where
  "exampleQuietInput = \<lparr>tickEnv = exampleEnv, gpuArrivals = [], mmuArrivals = []\<rparr>"

definition exampleInputs :: "TickInput list" where
  "exampleInputs =
    [exampleQuietInput\<lparr>mmuArrivals := [PageMigrationReqToDriverMsg exampleMigrationReq]\<rparr>,
     exampleQuietInput,
     exampleQuietInput\<lparr>gpuArrivals := [RDMADrainRspToDriver (exampleRspMeta 1)]\<rparr>,
     exampleQuietInput\<lparr>gpuArrivals := [RDMADrainRspToDriver (exampleRspMeta 2)]\<rparr>,
     exampleQuietInput,
     exampleQuietInput\<lparr>gpuArrivals := [ShootDownCompleteRsp (exampleRspMeta 3)]\<rparr>,
     exampleQuietInput\<lparr>gpuArrivals := [ShootDownCompleteRsp (exampleRspMeta 4)]\<rparr>,
     exampleQuietInput,
     exampleQuietInput\<lparr>gpuArrivals := [PageMigrationRspToDriver (exampleRspMeta 5)]\<rparr>,
     exampleQuietInput,
     exampleQuietInput\<lparr>gpuArrivals := [GPURestartRsp (exampleRspMeta 6)]\<rparr>,
     exampleQuietInput\<lparr>gpuArrivals := [GPURestartRsp (exampleRspMeta 7)]\<rparr>,
     exampleQuietInput,
     exampleQuietInput\<lparr>gpuArrivals := [RDMARestartRspToDriver (exampleRspMeta 8)]\<rparr>,
     exampleQuietInput\<lparr>gpuArrivals := [RDMARestartRspToDriver (exampleRspMeta 9)]\<rparr>]"

text \<open>A middleware that copies a page of its own: at the first tick at which one page-copy
  request has been sent over the GPU port it sends a second one.\<close>

definition exampleCopyingMiddleware :: "nat Driver Middleware" where
  "exampleCopyingMiddleware =
     \<lparr>mw_ProcessCommand = (\<lambda>cmd ci qi d. (False, d)),
      mw_Tick = (\<lambda>d. if countKind reqKind PageMigration (sent (gpuPort d)) = 1
                       then gpuSend True
                              (PageMigrationReqToCPMsg
                                 \<lparr>cp_Meta = \<lparr>MsgID = 300, Src = ''Driver.GPU'', Dst = ''GPU1.CP''\<rparr>,
                                  DestinationPMCPort = ''GPU2.PMC'',
                                  ToReadFromPhysicalAddress = 0,
                                  ToWriteToPhysicalAddress = 4096,
                                  cp_PageSize = 4096\<rparr>) d
                       else (False, d))\<rparr>"

text \<open>A middleware that drains the RDMA engines for a purpose of its own: at the tick at
  which no id has been drawn yet it calls \<open>initiateRDMADrain\<close>.\<close>

definition exampleDrainingMiddleware :: "nat Driver Middleware" where
  "exampleDrainingMiddleware =
     \<lparr>mw_ProcessCommand = (\<lambda>cmd ci qi d. (False, d)),
      mw_Tick = (\<lambda>d. if idGenerator d = 0 then (True, initiateRDMADrain d) else (False, d))\<rparr>"


section \<open>Properties\<close>

subsection \<open>Basic facts\<close>

lemma int64_id: "- (2^63) \<le> x \<Longrightarrow> x < 2^63 \<Longrightarrow> int64 x = x"
  unfolding int64_def
  by (simp add: signed_take_bit_int_eq_self sint_sbintrunc')

lemma bindE_Inr [simp]: "bindE (Inr x) f = f x"
  by (simp add: bindE_def)

lemma bindE_Inl [simp]: "bindE (Inl e) f = Inl e"
  by (simp add: bindE_def)

lemma index_ok: "0 \<le> i \<Longrightarrow> i < int (length xs) \<Longrightarrow> index xs i = Inr (xs ! nat i)"
  by (simp add: index_def)

lemma ceilDiv_pos: "0 < a \<Longrightarrow> 0 < b \<Longrightarrow> ceilDiv a b = (a - 1) div b + 1"
  unfolding ceilDiv_def
  by (metis Suc_diff_1 add.commute add_Suc_right div_add_self1 less_numeral_extra(3) plus_1_eq_Suc Nat.add_diff_assoc2 Suc_leI One_nat_def)

lemma numWG_ok:
  assumes "grid \<noteq> 0" "wg \<noteq> 0"
  shows "\<exists>q. numWG grid wg = Inr q \<and> unat q = ceilDiv (unat grid) (unat wg)"
proof -
  have g: "0 < unat grid" using assms(1) by (simp add: unat_gt_0)
  have w: "0 < unat wg" using assms(2) by (simp add: unat_gt_0)
  have "unat wg < 2 ^ 16" using unsigned_less [of wg, where ?'a = nat] by simp
  then have "unat wg < 2 ^ 32" by simp
  then have uw: "unat (ucast wg :: 32 word) = unat wg"
    by (simp add: unsigned_ucast_eq take_bit_nat_eq_self)
  have s: "unat (grid - 1) = unat grid - 1"
    using g by (simp add: unat_minus_one assms(1))
  have d: "unat ((grid - 1) div ucast wg) = (unat grid - 1) div unat wg"
    by (simp add: unat_div uw s)
  have le: "(unat grid - 1) div unat wg + 1 < 2 ^ 32"
  proof -
    have "(unat grid - 1) div unat wg \<le> unat grid - 1" by simp
    moreover have "unat grid < 2 ^ 32" using unsigned_less [of grid, where ?'a = nat] by simp
    ultimately show ?thesis using g by linarith
  qed
  have "unat ((grid - 1) div ucast wg + 1) = (unat grid - 1) div unat wg + 1"
    using le d by (simp add: unat_add_lem [THEN iffD1])
  then show ?thesis
    using assms(2) g w by (simp add: numWG_def ceilDiv_pos)
qed

lemma totalWGCountOf_ok:
  assumes "GridSizeX pkt \<noteq> 0" "GridSizeY pkt \<noteq> 0" "GridSizeZ pkt \<noteq> 0"
    and "WorkgroupSizeX pkt \<noteq> 0" "WorkgroupSizeY pkt \<noteq> 0" "WorkgroupSizeZ pkt \<noteq> 0"
    and "spec_num_wg pkt < 2 ^ 32"
  shows "totalWGCountOf pkt = Inr (int (spec_num_wg pkt))"
proof -
  obtain qx where qx: "numWG (GridSizeX pkt) (WorkgroupSizeX pkt) = Inr qx"
    "unat qx = ceilDiv (unat (GridSizeX pkt)) (unat (WorkgroupSizeX pkt))"
    using numWG_ok assms by blast
  obtain qy where qy: "numWG (GridSizeY pkt) (WorkgroupSizeY pkt) = Inr qy"
    "unat qy = ceilDiv (unat (GridSizeY pkt)) (unat (WorkgroupSizeY pkt))"
    using numWG_ok assms by blast
  obtain qz where qz: "numWG (GridSizeZ pkt) (WorkgroupSizeZ pkt) = Inr qz"
    "unat qz = ceilDiv (unat (GridSizeZ pkt)) (unat (WorkgroupSizeZ pkt))"
    using numWG_ok assms by blast
  have bound: "unat qx * unat qy * unat qz < 2 ^ 32"
    using assms(7) by (simp add: spec_num_wg_def qx qy qz)
  have "0 < unat qz"
    using assms(3,6) by (simp add: qz ceilDiv_pos unat_gt_0)
  then have "unat qx * unat qy \<le> unat qx * unat qy * unat qz" by simp
  then have xy: "unat qx * unat qy < 2 ^ 32" using bound by linarith
  have 1: "unat (qx * qy) = unat qx * unat qy"
    using xy by (simp add: unat_mult_lem [THEN iffD1])
  have 2: "unat (qx * qy * qz) = unat qx * unat qy * unat qz"
    using bound 1 by (simp add: unat_mult_lem [THEN iffD1])
  have "uint (qx * qy * qz) = int (spec_num_wg pkt)"
    using 2 by (simp add: spec_num_wg_def qx(2) qy(2) qz(2) uint_nat)
  then show ?thesis
    by (simp add: totalWGCountOf_def qx qy qz)
qed

lemma memberCUs_Cons [simp]:
  "memberCUs devs (m # ms) = CUCount (Properties (devs ! nat m)) # memberCUs devs ms"
  by (simp add: memberCUs_def)

lemma memberCUs_Nil [simp]: "memberCUs devs [] = []"
  by (simp add: memberCUs_def)

lemma sumCUCount_ok:
  assumes "\<forall>m\<in>set ms. 0 \<le> m \<and> m < int (length devs)"
    and "\<forall>c\<in>set (memberCUs devs ms). 0 \<le> c"
    and "0 \<le> acc" and "acc + sum_list (memberCUs devs ms) < 2 ^ 63"
  shows "sumCUCount devs ms acc = Inr (acc + sum_list (memberCUs devs ms))"
  using assms
proof (induction ms arbitrary: acc)
  case Nil
  then show ?case by simp
next
  case (Cons m ms)
  let ?c = "CUCount (Properties (devs ! nat m))"
  have c: "0 \<le> ?c" using Cons.prems(2) by simp
  have rest: "0 \<le> sum_list (memberCUs devs ms)"
    using Cons.prems(2) by (intro sum_list_nonneg) simp
  have lt: "acc + ?c < 2 ^ 63"
    using Cons.prems(4) rest by simp
  have w: "int64 (acc + ?c) = acc + ?c"
    using c Cons.prems(3) lt by (intro int64_id) auto
  have "sumCUCount devs ms (acc + ?c) = Inr (acc + ?c + sum_list (memberCUs devs ms))"
    using Cons.prems c by (intro Cons.IH) auto
  then show ?case
    using Cons.prems(1) by (simp add: index_ok w)
qed

lemma allocateWGs_ok:
  assumes "\<forall>m\<in>set ms. 0 \<le> m \<and> m < int (length devs)"
    and "\<forall>c\<in>set (memberCUs devs ms). 0 \<le> c"
    and "0 \<le> w" and "0 \<le> a" and "a + sum_list (memberCUs devs ms) * w < 2 ^ 63"
    and "length dist = Suc i + length ms"
  shows "allocateWGs devs w ms i a dist =
           Inr (a + sum_list (memberCUs devs ms) * w,
                take (Suc i) dist @ cumulative a w (memberCUs devs ms))"
  using assms
proof (induction ms arbitrary: a i dist)
  case Nil
  then show ?case by simp
next
  case (Cons m ms)
  let ?c = "CUCount (Properties (devs ! nat m))"
  let ?a' = "a + ?c * w"
  have c: "0 \<le> ?c" using Cons.prems(2) by simp
  have cw: "0 \<le> ?c * w" using c Cons.prems(3) by simp
  have "0 \<le> sum_list (memberCUs devs ms)"
    using Cons.prems(2) by (intro sum_list_nonneg) simp
  then have rest: "0 \<le> sum_list (memberCUs devs ms) * w"
    using Cons.prems(3) by simp
  have total: "?a' + sum_list (memberCUs devs ms) * w < 2 ^ 63"
    using Cons.prems(5) by (simp add: algebra_simps)
  have lt: "?a' < 2 ^ 63" using total rest by linarith
  have w1: "int64 (?c * w) = ?c * w"
    using cw lt Cons.prems(4) by (intro int64_id) auto
  have w2: "int64 ?a' = ?a'"
    using cw lt Cons.prems(4) by (intro int64_id) auto
  have len: "Suc i < length dist" using Cons.prems(6) by simp
  have tk: "take (Suc (Suc i)) (dist[Suc i := ?a']) = take (Suc i) dist @ [?a']"
    using len by (simp add: take_Suc_conv_app_nth)
  have "allocateWGs devs w ms (Suc i) ?a' (dist[Suc i := ?a']) =
          Inr (?a' + sum_list (memberCUs devs ms) * w,
               take (Suc (Suc i)) (dist[Suc i := ?a']) @ cumulative ?a' w (memberCUs devs ms))"
    using Cons.prems cw total by (intro Cons.IH) auto
  moreover have "?a' + sum_list (memberCUs devs ms) * w =
      a + sum_list (memberCUs devs (m # ms)) * w"
    by (simp add: algebra_simps)
  ultimately show ?case
    using Cons.prems(1) by (simp add: index_ok w1 w2 tk Let_def)
qed

lemma last_cumulative: "last (a # cumulative a w cs) = a + sum_list cs * w"
  by (induction cs arbitrary: a) (auto simp: algebra_simps)

lemma length_cumulative [simp]: "length (cumulative a w cs) = length cs"
  by (induction cs arbitrary: a) auto

lemma bindE_eq_Inr: "bindE m f = Inr y \<longleftrightarrow> (\<exists>x. m = Inr x \<and> f x = Inr y)"
  by (cases m) (simp_all add: bindE_def)

lemma allocateWGs_last:
  assumes "allocateWGs devs w ms i a dist = Inr (a', dist')"
    and "length dist = Suc i + length ms" and "ms \<noteq> []"
  shows "last dist' = a'"
  using assms
proof (induction ms arbitrary: i a dist)
  case Nil
  then show ?case by simp
next
  case (Cons m ms)
  from Cons.prems(1) obtain dev where dev: "index devs m = Inr dev"
    and run: "allocateWGs devs w ms (Suc i)
        (int64 (a + int64 (CUCount (Properties dev) * w)))
        (dist[Suc i := int64 (a + int64 (CUCount (Properties dev) * w))]) = Inr (a', dist')"
    by (auto simp: bindE_eq_Inr Let_def)
  show ?case
  proof (cases ms)
    case Nil
    have "dist \<noteq> []" using Cons.prems(2) by auto
    with Nil run Cons.prems(2) show ?thesis
      by (auto simp: last_list_update)
  next
    case (Cons m' ms')
    with run Cons.prems(2) show ?thesis
      by (intro Cons.IH [OF run]) auto
  qed
qed

lemma distributeWGToGPUs_checked:
  assumes "distributeWGToGPUs devs g packetArray = Inr wgDist"
  shows "\<exists>pkt0 n. index packetArray 0 = Inr pkt0 \<and> totalWGCountOf pkt0 = Inr n \<and> n \<le> last wgDist"
proof -
  from assms obtain dev total pkt0 n a where
    dev: "index devs g = Inr dev"
    and total: "sumCUCount devs (UnifiedGPUIDs dev) 0 = Inr total"
    and pkt0: "index packetArray 0 = Inr pkt0"
    and n: "totalWGCountOf pkt0 = Inr n"
    and nz: "total \<noteq> 0"
    and run: "allocateWGs devs (int64 (int64 (quo (int64 (n - 1)) total) + 1))
               (UnifiedGPUIDs dev) 0 0 (replicate (length (UnifiedGPUIDs dev) + 1) 0) = Inr (a, wgDist)"
    and ge: "\<not> a < n"
    by (auto simp: distributeWGToGPUs_def bindE_eq_Inr Let_def split: if_splits)
  have "UnifiedGPUIDs dev \<noteq> []"
    using total nz by auto
  then have "last wgDist = a"
    using allocateWGs_last [OF run] by simp
  then show ?thesis using pkt0 n ge by auto
qed

lemma quo_nonneg: "0 \<le> a \<Longrightarrow> 0 < b \<Longrightarrow> quo a b = a div b"
  by (cases "a = 0") (simp_all add: quo_def)

lemma wgPerCU_eq:
  assumes "0 < n" "int n < 2 ^ 32" "0 < T" "T < 2 ^ 62"
  shows "int64 (int64 (quo (int64 (int n - 1)) T) + 1) = int (ceilDiv n (nat T))"
proof -
  have 1: "int64 (int n - 1) = int n - 1"
    using assms by (intro int64_id) auto
  have q: "quo (int n - 1) T = (int n - 1) div T"
    using assms by (intro quo_nonneg) auto
  have qb: "0 \<le> (int n - 1) div T" "(int n - 1) div T \<le> int n - 1"
    using assms zdiv_mono2 [of "int n - 1" 1 T] by (auto simp: pos_imp_zdiv_nonneg_iff)
  then have 2: "int64 ((int n - 1) div T) = (int n - 1) div T"
    using assms by (intro int64_id) auto
  have 3: "int64 ((int n - 1) div T + 1) = (int n - 1) div T + 1"
    using assms qb by (intro int64_id) auto
  have "int (ceilDiv n (nat T)) = int ((n - 1) div nat T + 1)"
    using assms by (simp add: ceilDiv_pos)
  also have "\<dots> = (int n - 1) div T + 1"
    using assms by (simp add: zdiv_int of_nat_diff)
  finally show ?thesis by (simp add: 1 q 2 3)
qed

lemma ceil_covers:
  assumes "0 < (T::int)" "0 \<le> n"
  shows "n \<le> T * ((n - 1) div T + 1)" "T * ((n - 1) div T + 1) \<le> n - 1 + T"
proof -
  have e: "T * ((n - 1) div T) + (n - 1) mod T = n - 1" by simp
  have d: "T * ((n - 1) div T + 1) = T * ((n - 1) div T) + T" by (simp add: algebra_simps)
  have m: "0 \<le> (n - 1) mod T" "(n - 1) mod T < T" using assms by simp_all
  show "n \<le> T * ((n - 1) div T + 1)" using e d m by linarith
  show "T * ((n - 1) div T + 1) \<le> n - 1 + T" using e d m by linarith
qed

lemma distributeWGToGPUs_ok:
  assumes "0 \<le> g" and "g < int (length devs)"
    and "members = UnifiedGPUIDs (devs ! nat g)"
    and "\<forall>m\<in>set members. 0 \<le> m \<and> m < int (length devs)"
    and "cus = memberCUs devs members"
    and "\<forall>c\<in>set cus. 0 \<le> c" and "0 < sum_list cus" and "sum_list cus < 2 ^ 62"
    and "packetArray = pkt0 # pkts"
    and "GridSizeX pkt0 \<noteq> 0" and "GridSizeY pkt0 \<noteq> 0" and "GridSizeZ pkt0 \<noteq> 0"
    and "WorkgroupSizeX pkt0 \<noteq> 0" and "WorkgroupSizeY pkt0 \<noteq> 0"
    and "WorkgroupSizeZ pkt0 \<noteq> 0"
    and "num_wg = spec_num_wg pkt0" and "num_wg < 2 ^ 32"
    and "wg_per_cu = int (ceilDiv num_wg (nat (sum_list cus)))"
  shows "distributeWGToGPUs devs g packetArray = Inr (spec_wg_dist wg_per_cu cus)"
    and "int num_wg \<le> last (spec_wg_dist wg_per_cu cus)"
    and "0 \<le> wg_per_cu"
    and "sum_list cus * wg_per_cu < 2 ^ 63"
proof -
  let ?T = "sum_list cus"
  have n: "totalWGCountOf pkt0 = Inr (int num_wg)"
    using assms by (simp add: totalWGCountOf_ok)
  have npos: "0 < num_wg"
    using assms(10-16) by (simp add: spec_num_wg_def ceilDiv_pos unat_gt_0)
  have nlt: "int num_wg < 2 ^ 32"
    using assms(17) by (metis of_nat_less_iff of_nat_numeral of_nat_power)
  have w: "int64 (int64 (quo (int64 (int num_wg - 1)) ?T) + 1) = wg_per_cu"
    using wgPerCU_eq [OF npos nlt assms(7,8)] assms(18) by simp
  have w': "wg_per_cu = (int num_wg - 1) div ?T + 1"
    using npos assms(7,18) by (simp add: ceilDiv_pos zdiv_int of_nat_diff)
  show wnn: "0 \<le> wg_per_cu" using assms(18) by simp
  have cov: "int num_wg \<le> ?T * wg_per_cu" "?T * wg_per_cu \<le> int num_wg - 1 + ?T"
    using ceil_covers [of ?T "int num_wg"] assms(7) by (simp_all add: w')
  show "?T * wg_per_cu < 2 ^ 63"
    using cov nlt assms(8) by simp
  have total: "sumCUCount devs members 0 = Inr ?T"
    using sumCUCount_ok [of members devs 0] assms(4,5,6,8) by simp
  have run: "allocateWGs devs wg_per_cu members 0 0 (replicate (length members + 1) 0) =
      Inr (?T * wg_per_cu, spec_wg_dist wg_per_cu cus)"
    using allocateWGs_ok [of members devs wg_per_cu 0 "replicate (length members + 1) 0" 0]
      assms(4,5,6,8) wnn cov nlt
    by (simp add: spec_wg_dist_def mult.commute)
  show "distributeWGToGPUs devs g packetArray = Inr (spec_wg_dist wg_per_cu cus)"
    using assms(1,2,3,7,9) total n run cov
    by (simp add: distributeWGToGPUs_def index_ok Let_def w)
  show "int num_wg \<le> last (spec_wg_dist wg_per_cu cus)"
    using cov by (simp add: spec_wg_dist_def last_cumulative mult.commute del: last.simps)
qed

subsection \<open>Ranges and the workgroup filter\<close>

lemma int64_diff_zero:
  assumes "- (2 ^ 63) \<le> a" "a < 2 ^ 63" "- (2 ^ 63) \<le> b" "b < 2 ^ 63"
  shows "int64 (a - b) = 0 \<longleftrightarrow> a = b"
proof -
  have "int64 (a - b) = 0 \<longleftrightarrow> (word_of_int (a - b) :: 64 word) = 0"
    by (simp only: int64_def signed_eq_0_iff)
  also have "\<dots> \<longleftrightarrow> (2 ^ 64 :: int) dvd a - b"
    using word_of_int_eq_0_iff [of "a - b", where ?'a = 64] by simp
  also have "\<dots> \<longleftrightarrow> a = b"
  proof
    assume "(2 ^ 64 :: int) dvd a - b"
    then obtain k where k: "a - b = 2 ^ 64 * k" by (auto simp: dvd_def)
    have "\<bar>a - b\<bar> < 2 ^ 64" using assms by auto
    then have "k = 0" using k by (cases "k = 0") (auto simp: abs_mult)
    then show "a = b" using k by simp
  qed simp
  finally show ?thesis .
qed

lemma sorted_cumulative:
  "0 \<le> w \<Longrightarrow> \<forall>c\<in>set cs. 0 \<le> c \<Longrightarrow> sorted (a # cumulative a w cs)"
proof (induction cs arbitrary: a)
  case Nil
  then show ?case by simp
next
  case (Cons c cs)
  have "sorted ((a + c * w) # cumulative (a + c * w) w cs)"
    using Cons.prems by (intro Cons.IH) auto
  moreover have "a \<le> a + c * w" using Cons.prems by simp
  ultimately show ?case by (simp del: sorted_wrt.simps add: sorted2)
qed

lemma sorted_interval_unique:
  fixes xs :: "int list"
  assumes "sorted xs" and "length xs = Suc k" and "xs ! 0 \<le> v" and "v < xs ! k"
  shows "\<exists>!i. i < k \<and> xs ! i \<le> v \<and> v < xs ! Suc i"
proof (rule ex_ex1I)
  define j where "j = (LEAST j. v < xs ! j)"
  have ex: "v < xs ! k" by fact
  have j: "v < xs ! j" unfolding j_def using ex by (rule LeastI)
  have jk: "j \<le> k" unfolding j_def using ex by (rule Least_le)
  have "j \<noteq> 0" using j assms(3) by (cases j) auto
  then obtain i where i: "j = Suc i" by (cases j) auto
  have "\<not> v < xs ! i"
    using not_less_Least [of i "\<lambda>j. v < xs ! j"] i by (simp add: j_def)
  then show "\<exists>i. i < k \<and> xs ! i \<le> v \<and> v < xs ! Suc i"
    using i j jk by (intro exI [of _ i]) auto
next
  fix i j
  assume a: "i < k \<and> xs ! i \<le> v \<and> v < xs ! Suc i" and b: "j < k \<and> xs ! j \<le> v \<and> v < xs ! Suc j"
  show "i = j"
  proof (rule ccontr)
    assume "i \<noteq> j"
    then consider "Suc i \<le> j" | "Suc j \<le> i" by linarith
    then show False
    proof cases
      case 1
      then have "xs ! Suc i \<le> xs ! j"
        using assms(1,2) b by (intro sorted_nth_mono) auto
      then show False using a b by linarith
    next
      case 2
      then have "xs ! Suc j \<le> xs ! i"
        using assms(1,2) a by (intro sorted_nth_mono) auto
      then show False using a b by linarith
    qed
  qed
qed

lemma WGFilter_apply_spec:
  assumes "GridSizeX pkt \<noteq> 0" "GridSizeY pkt \<noteq> 0"
    and "WorkgroupSizeX pkt \<noteq> 0" "WorkgroupSizeY pkt \<noteq> 0"
    and "0 \<le> IDX wg" "0 \<le> IDY wg" "0 \<le> IDZ wg"
    and "spec_flattened_id pkt wg < 2 ^ 63"
    and "Suc i < length wgDist"
  shows "WGFilter_apply \<lparr>captured_wgDist = wgDist, currentGPUIndex = int i\<rparr> pkt wg =
           Inr (wgDist ! i \<le> spec_flattened_id pkt wg \<and> spec_flattened_id pkt wg < wgDist ! Suc i)"
proof -
  let ?nx = "int (ceilDiv (unat (GridSizeX pkt)) (unat (WorkgroupSizeX pkt)))"
  let ?ny = "int (ceilDiv (unat (GridSizeY pkt)) (unat (WorkgroupSizeY pkt)))"
  obtain qx where qx: "numWG (GridSizeX pkt) (WorkgroupSizeX pkt) = Inr qx"
    "unat qx = ceilDiv (unat (GridSizeX pkt)) (unat (WorkgroupSizeX pkt))"
    using numWG_ok assms by blast
  obtain qy where qy: "numWG (GridSizeY pkt) (WorkgroupSizeY pkt) = Inr qy"
    "unat qy = ceilDiv (unat (GridSizeY pkt)) (unat (WorkgroupSizeY pkt))"
    using numWG_ok assms by blast
  have ux: "uint qx = ?nx" and uy: "uint qy = ?ny"
    by (simp_all add: uint_nat qx(2) qy(2))
  have nx: "1 \<le> ?nx" and ny: "1 \<le> ?ny"
    using assms(1-4) by (simp_all add: ceilDiv_pos unat_gt_0)
  let ?a = "IDZ wg * ?nx" let ?b = "?a * ?ny" let ?c = "IDY wg * ?nx"
  have a0: "0 \<le> ?a" and c0: "0 \<le> ?c" using assms(6,7) nx by simp_all
  have b0: "0 \<le> ?b" using a0 ny by simp
  have ab: "?a \<le> ?b" using a0 ny by (simp add: mult_le_cancel_left1)
  have fl: "spec_flattened_id pkt wg = ?b + ?c + IDX wg"
    by (simp add: spec_flattened_id_def)
  have lt: "?b + ?c + IDX wg < 2 ^ 63" using assms(8) fl by simp
  have 1: "int64 ?a = ?a" using a0 ab b0 c0 lt assms(5) by (intro int64_id) linarith+
  have 2: "int64 ?b = ?b" using b0 c0 lt assms(5) by (intro int64_id) linarith+
  have 3: "int64 ?c = ?c" using b0 c0 lt assms(5) by (intro int64_id) linarith+
  have 4: "int64 (?b + ?c) = ?b + ?c" using b0 c0 lt assms(5) by (intro int64_id) linarith+
  have 5: "int64 (?b + ?c + IDX wg) = ?b + ?c + IDX wg"
    using b0 c0 lt assms(5) by (intro int64_id) linarith+
  have i1: "index wgDist (int i) = Inr (wgDist ! i)"
    using assms(9) by (simp add: index_def)
  have i2: "index wgDist (int i + 1) = Inr (wgDist ! Suc i)"
    using assms(9) by (simp add: index_def nat_add_distrib)
  show ?thesis
    unfolding WGFilter_apply_def
    by (simp add: qx(1) qy(1) ux uy 1 2 3 4 5 i1 i2 fl Let_def)
qed

subsection \<open>The unified launch\<close>

lemma updateContext_simps [simp]:
  "GPUs (updateContext ci f d) = GPUs d"
  "devices (updateContext ci f d) = devices d"
  "requestsToSend (updateContext ci f d) = requestsToSend d"
  "gpuPort (updateContext ci f d) = gpuPort d"
  "mmuPort (updateContext ci f d) = mmuPort d"
  "idGenerator (updateContext ci f d) = idGenerator d"
  "length (contexts (updateContext ci f d)) = length (contexts d)"
  by (simp_all add: updateContext_def)

lemma updateQueue_simps [simp]:
  "GPUs (updateQueue ci qi f d) = GPUs d"
  "devices (updateQueue ci qi f d) = devices d"
  "requestsToSend (updateQueue ci qi f d) = requestsToSend d"
  "gpuPort (updateQueue ci qi f d) = gpuPort d"
  "mmuPort (updateQueue ci qi f d) = mmuPort d"
  "idGenerator (updateQueue ci qi f d) = idGenerator d"
  "length (contexts (updateQueue ci qi f d)) = length (contexts d)"
  by (simp_all add: updateQueue_def)

lemma issueLaunchReq_simps [simp]:
  "GPUs (issueLaunchReq ci qi req d) = GPUs d"
  "devices (issueLaunchReq ci qi req d) = devices d"
  "requestsToSend (issueLaunchReq ci qi req d) = requestsToSend d @ [LaunchKernelReqMsg req]"
  "gpuPort (issueLaunchReq ci qi req d) = gpuPort d"
  "mmuPort (issueLaunchReq ci qi req d) = mmuPort d"
  "idGenerator (issueLaunchReq ci qi req d) = idGenerator d"
  "length (contexts (issueLaunchReq ci qi req d)) = length (contexts d)"
  by (simp_all add: issueLaunchReq_def Let_def)

lemma newMeta_simps [simp]:
  "fst (newMeta s t d) = \<lparr>MsgID = idGenerator d, Src = s, Dst = t\<rparr>"
  "snd (newMeta s t d) = d\<lparr>idGenerator := Suc (idGenerator d)\<rparr>"
  by (simp_all add: newMeta_def)

lemma at_ok: "i < length xs \<Longrightarrow> at xs i = Inr (xs ! i)"
  by (simp add: at_def)

lemma launchOnMembers_ok:
  assumes "length wgDist = Suc (i + length ms)"
    and "\<forall>m\<in>set ms. 1 \<le> m \<and> m \<le> int (length (GPUs d))"
    and "i + length ms \<le> length pkts" and "i + length ms \<le> length dpkts"
    and "ci < length (contexts d)"
    and "\<forall>x\<in>set wgDist. - (2 ^ 63) \<le> x \<and> x < 2 ^ 63"
    and "length (GPUs d) < 2 ^ 63"
  shows "\<exists>d' newReqs.
      launchOnMembers wgDist co pkts dpkts ci qi i ms d = Inr d'
    \<and> requestsToSend d' = requestsToSend d @ map LaunchKernelReqMsg newReqs
    \<and> map launchView newReqs =
        map (\<lambda>(j, m). (GPUs d ! nat (m - 1), pkts ! j,
                        Some \<lparr>captured_wgDist = wgDist, currentGPUIndex = int j\<rparr>))
            (filter (\<lambda>(j, m). wgDist ! Suc j \<noteq> wgDist ! j) (zip [i..<i + length ms] ms))"
  using assms
proof (induction ms arbitrary: i d)
  case Nil
  show ?case by (intro exI [of _ d] exI [of _ "[]"]) simp
next
  case (Cons m ms)
  have len: "Suc i < length wgDist" using Cons.prems(1) by simp
  have hi: "index wgDist (int i + 1) = Inr (wgDist ! Suc i)"
    using len by (simp add: index_def nat_add_distrib)
  have lo: "index wgDist (int i) = Inr (wgDist ! i)"
    using len by (simp add: index_def)
  have rng: "- (2 ^ 63) \<le> wgDist ! Suc i" "wgDist ! Suc i < 2 ^ 63"
    "- (2 ^ 63) \<le> wgDist ! i" "wgDist ! i < 2 ^ 63"
    using Cons.prems(6) len by (auto simp: all_set_conv_all_nth)
  have z: "int64 (wgDist ! Suc i - wgDist ! i) = 0 \<longleftrightarrow> wgDist ! Suc i = wgDist ! i"
    using rng by (intro int64_diff_zero)
  have zp: "zip [i..<Suc (i + length ms)] (m # ms) = (i, m) # zip [Suc i..<Suc (i + length ms)] ms"
    by (subst upt_conv_Cons) simp_all
  show ?case
  proof (cases "wgDist ! Suc i = wgDist ! i")
    case True
    obtain d' newReqs where r:
      "launchOnMembers wgDist co pkts dpkts ci qi (Suc i) ms d = Inr d'"
      "requestsToSend d' = requestsToSend d @ map LaunchKernelReqMsg newReqs"
      "map launchView newReqs =
        map (\<lambda>(j, m). (GPUs d ! nat (m - 1), pkts ! j,
                        Some \<lparr>captured_wgDist = wgDist, currentGPUIndex = int j\<rparr>))
            (filter (\<lambda>(j, m). wgDist ! Suc j \<noteq> wgDist ! j) (zip [Suc i..<Suc i + length ms] ms))"
      using Cons.IH [of "Suc i" d] Cons.prems by auto
    have step: "launchOnMembers wgDist co pkts dpkts ci qi i (m # ms) d =
        launchOnMembers wgDist co pkts dpkts ci qi (Suc i) ms d"
      using True z by (simp add: hi lo)
    show ?thesis
      unfolding step
      using r True
      by (intro exI [of _ d'] exI [of _ newReqs])
         (simp add: zp del: upt_Suc launchOnMembers.simps)
  next
    case False
    have m: "1 \<le> m" "m \<le> int (length (GPUs d))" using Cons.prems(2) by auto
    moreover have "int (length (GPUs d)) < 2 ^ 63"
      using Cons.prems(7) by (metis of_nat_less_iff of_nat_numeral of_nat_power)
    ultimately have w: "int64 (m - 1) = m - 1"
      by (intro int64_id) auto
    have dst: "index (GPUs d) (m - 1) = Inr (GPUs d ! nat (m - 1))"
      using m by (simp add: index_def)
    have ctx: "at (contexts d) ci = Inr (contexts d ! ci)"
      using Cons.prems(5) by (simp add: at_ok)
    have pk: "index pkts (int i) = Inr (pkts ! i)" "index dpkts (int i) = Inr (dpkts ! i)"
      using Cons.prems(3,4) by (simp_all add: index_def)
    let ?req = "\<lparr>lk_Meta = \<lparr>MsgID = idGenerator d, Src = portName (gpuPort d),
                              Dst = GPUs d ! nat (m - 1)\<rparr>,
                  lk_PID = pid (contexts d ! ci), HsaCo = co, Packet = pkts ! i,
                  PacketAddress = dpkts ! i,
                  WGFilter = Some \<lparr>captured_wgDist = wgDist, currentGPUIndex = int i\<rparr>\<rparr>"
    let ?d2 = "issueLaunchReq ci qi ?req (d\<lparr>idGenerator := Suc (idGenerator d)\<rparr>)"
    have step: "launchOnMembers wgDist co pkts dpkts ci qi i (m # ms) d =
        launchOnMembers wgDist co pkts dpkts ci qi (Suc i) ms ?d2"
      using False z by (simp add: hi lo w dst ctx pk newMeta_def)
    obtain d' newReqs where r:
      "launchOnMembers wgDist co pkts dpkts ci qi (Suc i) ms ?d2 = Inr d'"
      "requestsToSend d' = requestsToSend ?d2 @ map LaunchKernelReqMsg newReqs"
      "map launchView newReqs =
        map (\<lambda>(j, m). (GPUs ?d2 ! nat (m - 1), pkts ! j,
                        Some \<lparr>captured_wgDist = wgDist, currentGPUIndex = int j\<rparr>))
            (filter (\<lambda>(j, m). wgDist ! Suc j \<noteq> wgDist ! j) (zip [Suc i..<Suc i + length ms] ms))"
      using Cons.IH [of "Suc i" ?d2] Cons.prems by auto
    have lv: "launchView ?req = (GPUs d ! nat (m - 1), pkts ! i,
        Some \<lparr>captured_wgDist = wgDist, currentGPUIndex = int i\<rparr>)"
      by (simp add: launchView_def)
    show ?thesis
      unfolding step
      using r False
      by (intro exI [of _ d'] exI [of _ "?req # newReqs"])
         (simp add: zp lv del: upt_Suc launchOnMembers.simps)
  qed
qed

lemma cumulative_bounds:
  assumes "0 \<le> w" and "\<forall>c\<in>set cs. 0 \<le> c"
  shows "\<forall>x\<in>set (a # cumulative a w cs). a \<le> x \<and> x \<le> a + sum_list cs * w"
  using assms
proof (induction cs arbitrary: a)
  case Nil
  then show ?case by simp
next
  case (Cons c cs)
  have cw: "0 \<le> c * w" using Cons.prems by simp
  have "0 \<le> sum_list cs" using Cons.prems(2) by (intro sum_list_nonneg) simp
  then have sw: "0 \<le> sum_list cs * w" using Cons.prems(1) by simp
  have ih: "\<forall>x\<in>set ((a + c * w) # cumulative (a + c * w) w cs).
      a + c * w \<le> x \<and> x \<le> a + c * w + sum_list cs * w"
    using Cons.prems by (intro Cons.IH) auto
  show ?case
  proof
    fix x assume "x \<in> set (a # cumulative a w (c # cs))"
    then consider "x = a" | "x \<in> set ((a + c * w) # cumulative (a + c * w) w cs)" by auto
    then show "a \<le> x \<and> x \<le> a + sum_list (c # cs) * w"
    proof cases
      case 1
      then show ?thesis using cw sw by (simp add: algebra_simps)
    next
      case 2
      then have "a + c * w \<le> x \<and> x \<le> a + c * w + sum_list cs * w" using ih by blast
      then show ?thesis using cw by (simp add: algebra_simps)
    qed
  qed
qed

lemma unified_launch_ok:
  assumes "at (contexts d) ci = Inr ctx" and "at (queues ctx) qi = Inr queue"
    and "0 \<le> GPUID queue" and "GPUID queue < int (length (devices d))"
    and "members = UnifiedGPUIDs (devices d ! nat (GPUID queue))"
    and "\<forall>m\<in>set members. 0 \<le> m \<and> m < int (length (devices d))"
    and "cus = memberCUs (devices d) members"
    and "\<forall>c\<in>set cus. 0 \<le> c" and "0 < sum_list cus" and "sum_list cus < 2 ^ 62"
    and "packetArray = pkt0 # pkts"
    and "GridSizeX pkt0 \<noteq> 0" and "GridSizeY pkt0 \<noteq> 0" and "GridSizeZ pkt0 \<noteq> 0"
    and "WorkgroupSizeX pkt0 \<noteq> 0" and "WorkgroupSizeY pkt0 \<noteq> 0"
    and "WorkgroupSizeZ pkt0 \<noteq> 0"
    and "num_wg = spec_num_wg pkt0" and "num_wg < 2 ^ 32"
    and "wg_per_cu = int (ceilDiv num_wg (nat (sum_list cus)))"
    and "\<forall>m\<in>set members. 1 \<le> m \<and> m \<le> int (length (GPUs d))"
    and "length (GPUs d) < 2 ^ 63"
    and "length members \<le> length packetArray" and "length members \<le> length dPacketArray"
    and "wgDist = spec_wg_dist wg_per_cu cus"
  shows "distributeWGToGPUs (devices d) (GPUID queue) packetArray = Inr wgDist"
    and "length wgDist = Suc (length members)" and "wgDist ! 0 = 0" and "sorted wgDist"
    and "int num_wg \<le> wgDist ! length members"
    and "\<exists>d' newReqs.
          processUnifiedMultiGPULaunchKernelCommand co packetArray dPacketArray ci qi d = Inr (True, d')
        \<and> requestsToSend d' = requestsToSend d @ map LaunchKernelReqMsg newReqs
        \<and> map launchView newReqs =
            map (\<lambda>(i, m). (GPUs d ! nat (m - 1), packetArray ! i,
                            Some \<lparr>captured_wgDist = wgDist, currentGPUIndex = int i\<rparr>))
                (filter (\<lambda>(i, m). wgDist ! Suc i \<noteq> wgDist ! i)
                   (zip [0..<length members] members))"
proof -
  note ok = distributeWGToGPUs_ok [OF assms(3-20)]
  show dist: "distributeWGToGPUs (devices d) (GPUID queue) packetArray = Inr wgDist"
    using ok(1) assms(25) by simp
  have lc: "length cus = length members" using assms(7) by (simp add: memberCUs_def)
  show len: "length wgDist = Suc (length members)"
    using assms(25) lc by (simp add: spec_wg_dist_def)
  show "wgDist ! 0 = 0" using assms(25) by (simp add: spec_wg_dist_def)
  show "sorted wgDist"
    using sorted_cumulative [OF ok(3) assms(8), of 0] assms(25) by (simp add: spec_wg_dist_def)
  have "wgDist \<noteq> []" using len by auto
  then have "last wgDist = wgDist ! length members"
    using len last_conv_nth [of wgDist] by simp
  then show "int num_wg \<le> wgDist ! length members"
    using ok(2) assms(25) by simp
  have bnd: "\<forall>x\<in>set wgDist. - (2 ^ 63) \<le> x \<and> x < 2 ^ 63"
  proof
    fix x assume "x \<in> set wgDist"
    then have "0 \<le> x \<and> x \<le> 0 + sum_list cus * wg_per_cu"
      using cumulative_bounds [OF ok(3) assms(8), of 0] assms(25)
      by (simp only: spec_wg_dist_def)
    then show "- (2 ^ 63) \<le> x \<and> x < 2 ^ 63" using ok(4) by auto
  qed
  have ci: "ci < length (contexts d)"
    using assms(1) by (auto simp: at_def split: if_splits)
  have "length members \<le> length pkts + 1" using assms(11,23) by simp
  obtain d' newReqs where r:
    "launchOnMembers wgDist co packetArray dPacketArray ci qi 0 members d = Inr d'"
    "requestsToSend d' = requestsToSend d @ map LaunchKernelReqMsg newReqs"
    "map launchView newReqs =
        map (\<lambda>(j, m). (GPUs d ! nat (m - 1), packetArray ! j,
                        Some \<lparr>captured_wgDist = wgDist, currentGPUIndex = int j\<rparr>))
            (filter (\<lambda>(j, m). wgDist ! Suc j \<noteq> wgDist ! j) (zip [0..<0 + length members] members))"
    using launchOnMembers_ok [of wgDist 0 members d packetArray dPacketArray ci co qi]
      len assms(21-24) ci bnd by auto
  have dev: "index (devices d) (GPUID queue) = Inr (devices d ! nat (GPUID queue))"
    using assms(3,4) by (simp add: index_def)
  have "processUnifiedMultiGPULaunchKernelCommand co packetArray dPacketArray ci qi d = Inr (True, d')"
    using assms(1,2,5) dist dev r(1)
    by (simp add: processUnifiedMultiGPULaunchKernelCommand_def)
  then show "\<exists>d' newReqs.
          processUnifiedMultiGPULaunchKernelCommand co packetArray dPacketArray ci qi d = Inr (True, d')
        \<and> requestsToSend d' = requestsToSend d @ map LaunchKernelReqMsg newReqs
        \<and> map launchView newReqs =
            map (\<lambda>(i, m). (GPUs d ! nat (m - 1), packetArray ! i,
                            Some \<lparr>captured_wgDist = wgDist, currentGPUIndex = int i\<rparr>))
                (filter (\<lambda>(i, m). wgDist ! Suc i \<noteq> wgDist ! i)
                   (zip [0..<length members] members))"
    using r(2,3) by auto
qed

subsection \<open>findContext\<close>

lemma findContextLoop_Some:
  "\<exists>c'. findContextLoop cs (Some r) (Some c) = Inr (Some c')
     \<and> (if \<exists>x\<in>set cs. pid x = mig_PID r then c' \<in> set cs \<and> pid c' = mig_PID r else c' = c)"
proof (induction cs arbitrary: c)
  case Nil
  show ?case by simp
next
  case (Cons x xs)
  show ?case
  proof (cases "pid x = mig_PID r")
    case True
    obtain c' where "findContextLoop xs (Some r) (Some x) = Inr (Some c')"
      "if \<exists>y\<in>set xs. pid y = mig_PID r then c' \<in> set xs \<and> pid c' = mig_PID r else c' = x"
      using Cons.IH [of x] by blast
    then show ?thesis using True by (intro exI [of _ c']) (auto split: if_splits)
  next
    case False
    obtain c' where "findContextLoop xs (Some r) (Some c) = Inr (Some c')"
      "if \<exists>y\<in>set xs. pid y = mig_PID r then c' \<in> set xs \<and> pid c' = mig_PID r else c' = c"
      using Cons.IH [of c] by blast
    then show ?thesis using False by (intro exI [of _ c']) (auto split: if_splits)
  qed
qed

lemma findContextLoop_not_None:
  "findContextLoop cs cur (Some c) \<noteq> Inr None"
proof (induction cs arbitrary: c)
  case Nil
  show ?case by simp
next
  case (Cons x xs)
  then show ?case by (cases cur) auto
qed

lemma findContextLoop_Inl:
  "findContextLoop cs cur c = Inl e \<Longrightarrow> e = NilDereference"
proof (induction cs arbitrary: c)
  case Nil
  then show ?case by simp
next
  case (Cons x xs)
  then show ?case by (cases cur) auto
qed

subsection \<open>Completion of a launch\<close>

lemma find_id_None: "List.find (\<lambda>m. MsgID (Meta m) = r) ms = None \<longleftrightarrow> \<not> (\<exists>m\<in>set ms. MsgID (Meta m) = r)"
  by (auto simp: find_None_iff)

lemma findInQueues_step:
  "findInQueues r (q # qs) k =
     (case List.find (\<lambda>m. MsgID (Meta m) = r) (headReqs q) of
        Some m \<Rightarrow> Some (m, k) | None \<Rightarrow> findInQueues r qs (Suc k))"
  by (cases "commands q") (simp_all add: headReqs_def)

lemma findInQueues_None:
  "findInQueues r qs k = None \<longleftrightarrow> (\<forall>q\<in>set qs. \<not> hasReq r q)"
proof (induction qs arbitrary: k)
  case Nil
  show ?case by simp
next
  case (Cons q qs)
  show ?case
  proof (cases "List.find (\<lambda>m. MsgID (Meta m) = r) (headReqs q)")
    case None
    then have "\<not> hasReq r q" by (simp add: hasReq_def find_id_None)
    then show ?thesis using None Cons.IH by (simp add: findInQueues_step del: findInQueues.simps)
  next
    case (Some m)
    then have "hasReq r q" using find_id_None [of r "headReqs q"] by (auto simp: hasReq_def)
    then show ?thesis using Some by (simp add: findInQueues_step del: findInQueues.simps)
  qed
qed

lemma findInQueues_at:
  assumes "j < length qs" and "\<forall>j'<j. \<not> hasReq r (qs ! j')"
    and "List.find (\<lambda>m. MsgID (Meta m) = r) (headReqs (qs ! j)) = Some m"
  shows "findInQueues r qs k = Some (m, k + j)"
  using assms
proof (induction qs arbitrary: j k)
  case Nil
  then show ?case by simp
next
  case (Cons q qs)
  show ?case
  proof (cases j)
    case 0
    then show ?thesis using Cons.prems by (simp add: findInQueues_step del: findInQueues.simps)
  next
    case (Suc j0)
    have "\<not> hasReq r q" using Cons.prems(2) Suc by auto
    then have n: "List.find (\<lambda>m. MsgID (Meta m) = r) (headReqs q) = None"
      by (simp add: hasReq_def find_id_None)
    have "findInQueues r qs (Suc k) = Some (m, Suc k + j0)"
      using Cons.prems Suc by (intro Cons.IH) auto
    then show ?thesis using n Suc by (simp add: findInQueues_step del: findInQueues.simps)
  qed
qed

lemma findInContexts_None:
  "findInContexts r cs k = None \<longleftrightarrow> (\<forall>c\<in>set cs. \<forall>q\<in>set (queues c). \<not> hasReq r q)"
proof (induction cs arbitrary: k)
  case Nil
  show ?case by simp
next
  case (Cons c cs)
  show ?case
  proof (cases "findInQueues r (queues c) 0")
    case None
    then show ?thesis using Cons.IH findInQueues_None [of r "queues c" 0] by simp
  next
    case (Some a)
    then show ?thesis using findInQueues_None [of r "queues c" 0] by (cases a) auto
  qed
qed

lemma findInContexts_at:
  assumes "i < length cs" and "\<forall>i'<i. \<forall>q\<in>set (queues (cs ! i')). \<not> hasReq r q"
    and "findInQueues r (queues (cs ! i)) 0 = Some (m, j)"
  shows "findInContexts r cs k = Some (m, k + i, j)"
  using assms
proof (induction cs arbitrary: i k)
  case Nil
  then show ?case by simp
next
  case (Cons c cs)
  show ?case
  proof (cases i)
    case 0
    then show ?thesis using Cons.prems by simp
  next
    case (Suc i0)
    have "\<forall>q\<in>set (queues c). \<not> hasReq r q" using Cons.prems(2) Suc by auto
    then have n: "findInQueues r (queues c) 0 = None" by (simp add: findInQueues_None)
    have "findInContexts r cs (Suc k) = Some (m, Suc k + i0, j)"
      using Cons.prems Suc by (intro Cons.IH) auto
    then show ?thesis using n Suc by simp
  qed
qed

lemma GetReqs_setReqs: "GetReqs cmd \<noteq> [] \<Longrightarrow> GetReqs (setReqs rs cmd) = rs"
  by (cases cmd) simp_all

lemma find_unique_id:
  assumes "req \<in> set ms" and "distinct (map (\<lambda>m. MsgID (Meta m)) ms)"
  shows "List.find (\<lambda>m. MsgID (Meta m) = MsgID (Meta req)) ms = Some req"
proof (cases "List.find (\<lambda>m. MsgID (Meta m) = MsgID (Meta req)) ms")
  case None
  then show ?thesis using assms(1) by (auto simp: find_None_iff)
next
  case (Some m)
  then have "m \<in> set ms" "MsgID (Meta m) = MsgID (Meta req)"
    by (auto simp: find_Some_iff)
  then have "m = req"
    using assms by (meson distinct_map inj_onD)
  then show ?thesis using Some by simp
qed

lemma updateQueue_twice:
  assumes "ci < length (contexts d)" and "qi < length (queues (contexts d ! ci))"
  shows "updateQueue ci qi f (updateQueue ci qi g d) = updateQueue ci qi (\<lambda>q. f (g q)) d"
  using assms by (simp add: updateQueue_def updateContext_def)

lemma updateQueue_get:
  assumes "ci < length (contexts d)" and "qi < length (queues (contexts d ! ci))"
  shows "queues (contexts (updateQueue ci qi f d) ! ci) ! qi = f (queues (contexts d ! ci) ! qi)"
  using assms by (simp add: updateQueue_def updateContext_def)

lemma updateQueue_cong:
  assumes "f (queues (contexts d ! ci) ! qi) = g (queues (contexts d ! ci) ! qi)"
  shows "updateQueue ci qi f d = updateQueue ci qi g d"
  using assms by (simp add: updateQueue_def updateContext_def)

subsection \<open>Command admission stays within a closed relation\<close>

lemma issueLaunchReq_rel:
  assumes trans: "\<And>a b c. R a b \<Longrightarrow> R b c \<Longrightarrow> R a c"
    and idg: "\<And>d n. R d (d\<lparr>idGenerator := n\<rparr>)"
    and upd: "\<And>ci f d. R d (updateContext ci f d)"
    and app: "\<And>d req. R d (d\<lparr>requestsToSend := requestsToSend d @ [LaunchKernelReqMsg req]\<rparr>)"
  shows "R d (issueLaunchReq ci qi req (d\<lparr>idGenerator := n\<rparr>))"
proof -
  let ?d0 = "d\<lparr>idGenerator := n\<rparr>"
  let ?d1 = "updateQueue ci qi (\<lambda>q. q\<lparr>IsRunning := True\<rparr>) ?d0"
  let ?d2 = "updateQueue ci qi
                 (updateHead (\<lambda>cmd. setReqs (GetReqs cmd @ [LaunchKernelReqMsg req]) cmd)) ?d1"
  let ?d3 = "?d2\<lparr>requestsToSend := requestsToSend ?d2 @ [LaunchKernelReqMsg req]\<rparr>"
  let ?d4 = "updateContext ci (\<lambda>ctx. ctx\<lparr>l2Dirty := True\<rparr>) ?d3"
  let ?d5 = "updateContext ci markAllBuffersDirty ?d4"
  have 0: "R d ?d0" by (rule idg)
  have 1: "R ?d0 ?d1" unfolding updateQueue_def by (rule upd)
  have 2: "R ?d1 ?d2" unfolding updateQueue_def by (rule upd)
  have 3: "R ?d2 ?d3" by (rule app)
  have 4: "R ?d3 ?d4" by (rule upd)
  have 5: "R ?d4 ?d5" by (rule upd)
  have "R d ?d5" using 0 1 2 3 4 5 trans by blast
  then show ?thesis by (simp only: issueLaunchReq_def Let_def)
qed

lemma launchOnMembers_rel:
  assumes refl: "\<And>d. R d d" and trans: "\<And>a b c. R a b \<Longrightarrow> R b c \<Longrightarrow> R a c"
    and idg: "\<And>d n. R d (d\<lparr>idGenerator := n\<rparr>)"
    and upd: "\<And>ci f d. R d (updateContext ci f d)"
    and app: "\<And>d req. R d (d\<lparr>requestsToSend := requestsToSend d @ [LaunchKernelReqMsg req]\<rparr>)"
  shows "launchOnMembers wgDist co pkts dpkts ci qi i ms d = Inr d' \<Longrightarrow> R d d'"
proof (induction ms arbitrary: i d)
  case Nil
  then show ?case using refl by simp
next
  case (Cons m ms)
  obtain hi lo where hl: "index wgDist (int i + 1) = Inr hi" "index wgDist (int i) = Inr lo"
    using Cons.prems by (auto simp: bindE_eq_Inr)
  show ?case
  proof (cases "int64 (hi - lo) = 0")
    case True
    then have "launchOnMembers wgDist co pkts dpkts ci qi (Suc i) ms d = Inr d'"
      using Cons.prems hl by simp
    then show ?thesis by (rule Cons.IH)
  next
    case False
    have step: "\<And>req n. R d (issueLaunchReq ci qi req (d\<lparr>idGenerator := n\<rparr>))"
      using trans idg upd app by (rule issueLaunchReq_rel)
    show ?thesis
      using Cons.prems hl False
      apply (simp add: newMeta_def bindE_eq_Inr)
      apply (elim exE conjE)
      apply (rule trans)
       apply (rule step)
      apply (rule Cons.IH)
      apply assumption
      done
  qed
qed

lemma launchClosedD:
  assumes "launchClosed R"
  shows "R d d" and "R a b \<Longrightarrow> R b c \<Longrightarrow> R a c" and "R d (d\<lparr>idGenerator := n\<rparr>)"
    and "R d (updateContext ci f d)"
    and "R d (d\<lparr>requestsToSend := requestsToSend d @ [LaunchKernelReqMsg req]\<rparr>)"
proof -
  have all: "(\<forall>d. R d d) \<and> (\<forall>a b c. R a b \<longrightarrow> R b c \<longrightarrow> R a c)
     \<and> (\<forall>d n. R d (d\<lparr>idGenerator := n\<rparr>))
     \<and> (\<forall>ci f d. R d (updateContext ci f d))
     \<and> (\<forall>d req. R d (d\<lparr>requestsToSend := requestsToSend d @ [LaunchKernelReqMsg req]\<rparr>))"
    by (rule assms [unfolded launchClosed_def])
  have 1: "\<forall>d. R d d" using all by (elim conjE)
  have 2: "\<forall>a b c. R a b \<longrightarrow> R b c \<longrightarrow> R a c" using all by (elim conjE)
  have 3: "\<forall>d n. R d (d\<lparr>idGenerator := n\<rparr>)" using all by (elim conjE)
  have 4: "\<forall>ci f d. R d (updateContext ci f d)" using all by (elim conjE)
  have 5: "\<forall>d req. R d (d\<lparr>requestsToSend := requestsToSend d @ [LaunchKernelReqMsg req]\<rparr>)"
    using all by (elim conjE)
  show "R d d" using 1 by (rule spec)
  show "R a b \<Longrightarrow> R b c \<Longrightarrow> R a c" using 2 by (elim allE impE)
  show "R d (d\<lparr>idGenerator := n\<rparr>)" using 3 by (elim allE)
  show "R d (updateContext ci f d)" using 4 by (elim allE)
  show "R d (d\<lparr>requestsToSend := requestsToSend d @ [LaunchKernelReqMsg req]\<rparr>)"
    using 5 by (elim allE)
qed

lemma launchClosed_issue:
  assumes "launchClosed R"
  shows "R d (issueLaunchReq ci qi req (d\<lparr>idGenerator := n\<rparr>))"
proof (rule issueLaunchReq_rel [of R])
  show "\<And>a b c. R a b \<Longrightarrow> R b c \<Longrightarrow> R a c" by (rule launchClosedD(2) [OF assms])
  show "\<And>d n. R d (d\<lparr>idGenerator := n\<rparr>)" by (rule launchClosedD(3) [OF assms])
  show "\<And>ci f d. R d (updateContext ci f d)" by (rule launchClosedD(4) [OF assms])
  show "\<And>d req. R d (d\<lparr>requestsToSend := requestsToSend d @ [LaunchKernelReqMsg req]\<rparr>)"
    by (rule launchClosedD(5) [OF assms])
qed

lemma launchClosed_members:
  assumes "launchClosed R" and "launchOnMembers wgDist co pkts dpkts ci qi i ms d = Inr d'"
  shows "R d d'"
proof (rule launchOnMembers_rel [of R, OF _ _ _ _ _ assms(2)])
  show "\<And>d. R d d" by (rule launchClosedD(1) [OF assms(1)])
  show "\<And>a b c. R a b \<Longrightarrow> R b c \<Longrightarrow> R a c" by (rule launchClosedD(2) [OF assms(1)])
  show "\<And>d n. R d (d\<lparr>idGenerator := n\<rparr>)" by (rule launchClosedD(3) [OF assms(1)])
  show "\<And>ci f d. R d (updateContext ci f d)" by (rule launchClosedD(4) [OF assms(1)])
  show "\<And>d req. R d (d\<lparr>requestsToSend := requestsToSend d @ [LaunchKernelReqMsg req]\<rparr>)"
    by (rule launchClosedD(5) [OF assms(1)])
qed

lemma processCommandWithMiddleware_rel:
  assumes "launchClosed R" and "middlewaresKeep R ms"
  shows "R d (snd (processCommandWithMiddleware ms cmd ci qi d))"
  using assms(2)
proof (induction ms arbitrary: d)
  case Nil
  show ?case using launchClosedD(1) [OF assms(1)] by simp
next
  case (Cons m ms)
  have 1: "R d (snd (mw_ProcessCommand m cmd ci qi d))"
    using Cons.prems by (simp add: middlewaresKeep_def)
  have 2: "R (snd (mw_ProcessCommand m cmd ci qi d))
      (snd (processCommandWithMiddleware ms cmd ci qi (snd (mw_ProcessCommand m cmd ci qi d))))"
    using Cons.prems by (intro Cons.IH) (simp add: middlewaresKeep_def)
  show ?case
    using 1 launchClosedD(2) [OF assms(1) 1 2]
    by (simp add: case_prod_unfold Let_def)
qed

lemma processOneCommand_rel:
  assumes "launchClosed R" and "middlewaresKeep R mws"
    and "processOneCommand mws cmd ci qi d = Inr (p, d')"
  shows "R d d'"
proof (cases cmd)
  case (LaunchKernelCommand cid co pkt dpkt reqs)
  then have "processLaunchKernelCommand co pkt dpkt ci qi d = Inr (p, d')"
    using assms(3) by simp
  then obtain req where "d' = issueLaunchReq ci qi req (d\<lparr>idGenerator := Suc (idGenerator d)\<rparr>)"
    unfolding processLaunchKernelCommand_def bindE_eq_Inr newMeta_def
    by (clarsimp simp: Let_def)
  then show ?thesis
    using launchClosed_issue [OF assms(1)] by simp
next
  case (NoopCommand cid)
  then have "d' = updateQueue ci qi Dequeue d"
    using assms(3) by (simp add: processNoopCommand_def)
  then show ?thesis
    using launchClosedD(4) [OF assms(1)] by (simp add: updateQueue_def)
next
  case (LaunchUnifiedMultiGPUKernelCommand cid co pkts dpkts reqs)
  then have "processUnifiedMultiGPULaunchKernelCommand co pkts dpkts ci qi d = Inr (p, d')"
    using assms(3) by simp
  then obtain wgDist ms where "launchOnMembers wgDist co pkts dpkts ci qi 0 ms d = Inr d'"
    unfolding processUnifiedMultiGPULaunchKernelCommand_def bindE_eq_Inr
    by clarsimp
  then show ?thesis
    by (rule launchClosed_members [OF assms(1)])
next
  case (OtherCommand cid reqs)
  then have "d' = snd (processCommandWithMiddleware mws (OtherCommand cid reqs) ci qi d)"
    using assms(3) by (simp add: snd_def split: prod.splits)
  then show ?thesis
    using processCommandWithMiddleware_rel [OF assms(1,2), of d "OtherCommand cid reqs" ci qi]
    by simp
qed

lemma processNewCommandFromCmdQueue_rel:
  assumes "launchClosed R" and "middlewaresKeep R mws"
    and "processNewCommandFromCmdQueue mws ci qi d = Inr (p, d')"
  shows "R d d'"
proof -
  obtain q :: CommandQueue where
    r: "(case commands q of [] \<Rightarrow> Inr (False, d)
         | cmd # _ \<Rightarrow> if IsRunning q then Inr (False, d) else processOneCommand mws cmd ci qi d)
        = Inr (p, d')"
    using assms(3) unfolding processNewCommandFromCmdQueue_def bindE_eq_Inr by auto
  show ?thesis
  proof (cases "commands q")
    case Nil
    then show ?thesis using r launchClosedD(1) [OF assms(1)] by simp
  next
    case (Cons cmd rest)
    show ?thesis
    proof (cases "IsRunning q")
      case True
      then show ?thesis using r Cons launchClosedD(1) [OF assms(1)] by simp
    next
      case False
      then have "processOneCommand mws cmd ci qi d = Inr (p, d')" using r Cons by simp
      then show ?thesis by (rule processOneCommand_rel [OF assms(1,2)])
    qed
  qed
qed

lemma processQueues_rel:
  assumes "launchClosed R" and "middlewaresKeep R mws"
  shows "processQueues mws ci qis d = Inr (p, d') \<Longrightarrow> R d d'"
proof (induction qis arbitrary: d p)
  case Nil
  then show ?case using launchClosedD(1) [OF assms(1)] by simp
next
  case (Cons qi qis)
  from Cons.prems obtain p1 d1 p2 where
    1: "processNewCommandFromCmdQueue mws ci qi d = Inr (p1, d1)"
    and 2: "processQueues mws ci qis d1 = Inr (p2, d')"
    by (auto simp: bindE_eq_Inr)
  show ?case
    using launchClosedD(2) [OF assms(1) processNewCommandFromCmdQueue_rel [OF assms 1] Cons.IH [OF 2]] .
qed

lemma processContexts_rel:
  assumes "launchClosed R" and "middlewaresKeep R mws"
  shows "processContexts mws cis d = Inr (p, d') \<Longrightarrow> R d d'"
proof (induction cis arbitrary: d p)
  case Nil
  then show ?case using launchClosedD(1) [OF assms(1)] by simp
next
  case (Cons ci cis)
  from Cons.prems obtain p1 d1 p2 where
    1: "processNewCommandFromContext mws ci d = Inr (p1, d1)"
    and 2: "processContexts mws cis d1 = Inr (p2, d')"
    by (auto simp: bindE_eq_Inr)
  obtain qis where "processQueues mws ci qis d = Inr (p1, d1)"
    using 1 unfolding processNewCommandFromContext_def bindE_eq_Inr by blast
  then have "R d d1"
    by (rule processQueues_rel [OF assms])
  then show ?case
    using launchClosedD(2) [OF assms(1) _ Cons.IH [OF 2]] by blast
qed

lemma processNewCommand_rel:
  assumes "launchClosed R" and "middlewaresKeep R mws"
    and "processNewCommand mws d = Inr (p, d')"
  shows "R d d'"
  using assms(3) processContexts_rel [OF assms(1,2)] by (simp add: processNewCommand_def)

lemma tickMiddlewares_rel:
  assumes "launchClosed R" and "middlewaresKeep R ms"
  shows "R d (snd (tickMiddlewares ms d))"
  using assms(2)
proof (induction ms arbitrary: d)
  case Nil
  show ?case using launchClosedD(1) [OF assms(1)] by simp
next
  case (Cons m ms)
  have 1: "R d (snd (mw_Tick m d))"
    using Cons.prems by (simp add: middlewaresKeep_def)
  have 2: "R (snd (mw_Tick m d)) (snd (tickMiddlewares ms (snd (mw_Tick m d))))"
    using Cons.prems by (intro Cons.IH) (simp add: middlewaresKeep_def)
  show ?case
    using launchClosedD(2) [OF assms(1) 1 2]
    by (simp add: case_prod_unfold Let_def)
qed

subsection \<open>An unrecognised response stays at the head\<close>

lemma launchClosed_sameGPUInbox: "launchClosed (sameGPUInbox :: 'a Driver \<Rightarrow> 'a Driver \<Rightarrow> bool)"
  unfolding launchClosed_def sameGPUInbox_def by simp

lemma sendToGPUs_inbox: "sameGPUInbox d (snd (sendToGPUs a d))"
  by (simp add: sendToGPUs_def gpuSend_def sameGPUInbox_def split: list.splits)

lemma sendToMMU_inbox: "sameGPUInbox d (snd (sendToMMU a d))"
  by (simp add: sendToMMU_def mmuSend_def sameGPUInbox_def split: option.splits)

lemma sendMigrationReqToCP_inbox: "sameGPUInbox d (snd (sendMigrationReqToCP a d))"
  by (simp add: sendMigrationReqToCP_def gpuSend_def sameGPUInbox_def split: list.splits)

lemma rdmaDrainLoop_gpuPort [simp]: "gpuPort (rdmaDrainLoop gs d) = gpuPort d"
  by (induction gs arbitrary: d) (simp_all add: newMeta_def)

lemma parseFromMMU_inbox: "parseFromMMU d = Inr (p, d') \<Longrightarrow> sameGPUInbox d d'"
  by (auto simp: parseFromMMU_def sameGPUInbox_def initiateRDMADrain_def mmuRetrieveIncoming_def
      split: if_splits list.splits MMUMsg.splits)

lemma processReturnReq_blocked:
  assumes "incoming (gpuPort d) = m # rest" and "\<not> recognisedRsp m"
  shows "processReturnReq allocFrame ord d = Inr (False, d)"
  using assms by (cases m) (simp_all add: processReturnReq_def)

lemma sameGPUInbox_trans: "sameGPUInbox a b \<Longrightarrow> sameGPUInbox b c \<Longrightarrow> sameGPUInbox a c"
  by (simp add: sameGPUInbox_def)

lemma Tick_blocked:
  assumes "incoming (gpuPort d) = m # rest" and "\<not> recognisedRsp m"
    and "middlewaresKeep sameGPUInbox mws"
    and "Tick env allocFrame mws d = Inr (p, d')"
  shows "sameGPUInbox d d'"
proof -
  let ?d1 = "snd (sendToGPUs (gpuAccepts env) d)"
  let ?d2 = "snd (sendToMMU (mmuAccepts env) ?d1)"
  let ?d3 = "snd (sendMigrationReqToCP (cpAccepts env) ?d2)"
  let ?d4 = "snd (tickMiddlewares mws ?d3)"
  have 4: "sameGPUInbox d ?d4"
    using sendToGPUs_inbox [of d] sendToMMU_inbox [of ?d1] sendMigrationReqToCP_inbox [of ?d2]
      tickMiddlewares_rel [OF launchClosed_sameGPUInbox assms(3), of ?d3]
    by (simp add: sameGPUInbox_def)
  then have "incoming (gpuPort ?d4) = m # rest" using assms(1) by (simp add: sameGPUInbox_def)
  then have 5: "processReturnReq allocFrame (mapOrder env) ?d4 = Inr (False, ?d4)"
    using assms(2) by (rule processReturnReq_blocked)
  from assms(4) obtain p6 d6 p7 where
    6: "processNewCommand mws ?d4 = Inr (p6, d6)" and 7: "parseFromMMU d6 = Inr (p7, d')"
    unfolding Tick_def by (auto simp: 5 case_prod_unfold Let_def bindE_eq_Inr)
  have "sameGPUInbox ?d4 d6"
    using processNewCommand_rel [OF launchClosed_sameGPUInbox assms(3) 6] .
  moreover have "sameGPUInbox d6 d'" using 7 by (rule parseFromMMU_inbox)
  ultimately show ?thesis using 4 sameGPUInbox_trans by blast
qed

lemma run_blocked:
  assumes "\<not> recognisedRsp m" and "middlewaresKeep sameGPUInbox mws"
  shows "incoming (gpuPort d) = m # rest \<Longrightarrow> run allocFrame mws inputs d = Inr d' \<Longrightarrow>
         incoming (gpuPort d') = m # rest @ concat (map gpuArrivals inputs)
         \<and> retrieved (gpuPort d') = retrieved (gpuPort d)"
proof (induction inputs arbitrary: d rest)
  case Nil
  then show ?case by simp
next
  case (Cons inp inputs)
  let ?d0 = "deliver (gpuArrivals inp) (mmuArrivals inp) d"
  from Cons.prems(2) obtain p d1 where
    t: "Tick (tickEnv inp) allocFrame mws ?d0 = Inr (p, d1)"
    and r: "run allocFrame mws inputs d1 = Inr d'"
    by (auto simp: bindE_eq_Inr)
  have h0: "incoming (gpuPort ?d0) = m # (rest @ gpuArrivals inp)"
    "retrieved (gpuPort ?d0) = retrieved (gpuPort d)"
    using Cons.prems(1) by (simp_all add: deliver_def)
  have s: "sameGPUInbox ?d0 d1"
    using Tick_blocked [OF h0(1) assms t] .
  then have h1: "incoming (gpuPort d1) = m # (rest @ gpuArrivals inp)"
    using h0 by (simp add: sameGPUInbox_def)
  show ?case
    using Cons.IH [OF h1 r] s h0 by (simp add: sameGPUInbox_def)
qed

subsection \<open>The loops that build requests\<close>

lemma zip_upt_Cons:
  "zip [0..<Suc (length gs)] (g # gs) = (0, g) # map (\<lambda>(i, g). (Suc i, g)) (zip [0..<length gs] gs)"
  by (simp add: upt_conv_Cons map_Suc_upt [symmetric] zip_map1 del: upt_Suc)

lemma rdmaDrainLoop_eq:
  "rdmaDrainLoop gs d =
     d\<lparr>requestsToSend := requestsToSend d @
           map (\<lambda>(i, g). RDMADrainCmdFromDriver
                  \<lparr>MsgID = idGenerator d + i, Src = portName (gpuPort d), Dst = g\<rparr>)
               (zip [0..<length gs] gs),
       numRDMADrainACK := numRDMADrainACK d + of_nat (length gs),
       idGenerator := idGenerator d + length gs\<rparr>"
proof (induction gs arbitrary: d)
  case Nil
  show ?case by simp
next
  case (Cons g gs)
  show ?case
    by (simp add: newMeta_def Cons.IH zip_upt_Cons comp_def case_prod_unfold del: upt_Suc)
qed

lemma rdmaRestartLoop_eq:
  "rdmaRestartLoop gs d =
     d\<lparr>requestsToSend := requestsToSend d @
           map (\<lambda>(i, g). RDMARestartCmdFromDriver
                  \<lparr>MsgID = idGenerator d + i, Src = portName (gpuPort d), Dst = g\<rparr>)
               (zip [0..<length gs] gs),
       numRDMARestartACK := numRDMARestartACK d + of_nat (length gs),
       idGenerator := idGenerator d + length gs\<rparr>"
proof (induction gs arbitrary: d)
  case Nil
  show ?case by simp
next
  case (Cons g gs)
  show ?case
    by (simp add: newMeta_def Cons.IH zip_upt_Cons comp_def case_prod_unfold del: upt_Suc)
qed

lemma indexW_ok: "unat w < length xs \<Longrightarrow> indexW xs w = Inr (xs ! unat w)"
  by (simp add: indexW_def)

lemma indexW_eq_Inr: "indexW xs w = Inr x \<longleftrightarrow> unat w < length xs \<and> x = xs ! unat w"
  by (auto simp: indexW_def)

lemma shootDownLoop_eq:
  assumes "\<forall>gpu\<in>set accs. unat (gpu - 1) < length (GPUs d)"
  shows "shootDownLoop accs vAddr p d =
     Inr (d\<lparr>requestsToSend := requestsToSend d @
           map (\<lambda>(i, gpu). ShootDownCommand
                  \<lparr>MsgID = idGenerator d + i, Src = portName (gpuPort d),
                    Dst = GPUs d ! unat (gpu - 1)\<rparr> vAddr p)
               (zip [0..<length accs] accs),
       idGenerator := idGenerator d + length accs\<rparr>)"
  using assms
proof (induction accs arbitrary: d)
  case Nil
  show ?case by simp
next
  case (Cons g gs)
  show ?case
    using Cons.prems
    by (simp add: newMeta_def Cons.IH zip_upt_Cons comp_def case_prod_unfold indexW_ok
        del: upt_Suc)
qed

lemma shootDownLoop_Inr:
  "shootDownLoop accs vAddr p d = Inr d' \<Longrightarrow> \<forall>gpu\<in>set accs. unat (gpu - 1) < length (GPUs d)"
proof (induction accs arbitrary: d)
  case Nil
  show ?case by simp
next
  case (Cons g gs)
  from Cons.prems obtain dst where dst: "indexW (GPUs d) (g - 1) = Inr dst"
    and r: "shootDownLoop gs vAddr p
       ((snd (newMeta (portName (gpuPort d)) dst d))
          \<lparr>requestsToSend := requestsToSend (snd (newMeta (portName (gpuPort d)) dst d)) @
              [ShootDownCommand (fst (newMeta (portName (gpuPort d)) dst d)) vAddr p]\<rparr>) = Inr d'"
    by (auto simp: bindE_eq_Inr case_prod_unfold Let_def)
  have "\<forall>gpu\<in>set gs. unat (gpu - 1) < length (GPUs d)"
    using Cons.IH [OF r] by (simp add: newMeta_def)
  then show ?case using dst by (simp add: indexW_eq_Inr)
qed

lemma gpuRestartLoop_eq:
  assumes "\<forall>gpu\<in>set accs. unat (gpu - 1) < length (GPUs d)"
  shows "gpuRestartLoop accs d =
     Inr (d\<lparr>requestsToSend := requestsToSend d @
           map (\<lambda>(i, gpu). GPURestartReq
                  \<lparr>MsgID = idGenerator d + i, Src = portName (gpuPort d),
                    Dst = GPUs d ! unat (gpu - 1)\<rparr>)
               (zip [0..<length accs] accs),
       numRestartACK := numRestartACK d + of_nat (length accs),
       idGenerator := idGenerator d + length accs\<rparr>)"
  using assms
proof (induction accs arbitrary: d)
  case Nil
  show ?case by simp
next
  case (Cons g gs)
  show ?case
    using Cons.prems
    by (simp add: newMeta_def Cons.IH zip_upt_Cons comp_def case_prod_unfold indexW_ok
        del: upt_Suc)
qed

lemma gpuRestartLoop_Inr:
  "gpuRestartLoop accs d = Inr d' \<Longrightarrow> \<forall>gpu\<in>set accs. unat (gpu - 1) < length (GPUs d)"
proof (induction accs arbitrary: d)
  case Nil
  show ?case by simp
next
  case (Cons g gs)
  from Cons.prems obtain dst where dst: "indexW (GPUs d) (g - 1) = Inr dst"
    and r: "gpuRestartLoop gs
       ((snd (newMeta (portName (gpuPort d)) dst d))
          \<lparr>requestsToSend := requestsToSend (snd (newMeta (portName (gpuPort d)) dst d)) @
              [GPURestartReq (fst (newMeta (portName (gpuPort d)) dst d))],
           numRestartACK := numRestartACK (snd (newMeta (portName (gpuPort d)) dst d)) + 1\<rparr>) = Inr d'"
    by (auto simp: bindE_eq_Inr case_prod_unfold Let_def)
  have "\<forall>gpu\<in>set gs. unat (gpu - 1) < length (GPUs d)"
    using Cons.IH [OF r] by (simp add: newMeta_def)
  then show ?case using dst by (simp add: indexW_eq_Inr)
qed

subsection \<open>One page of the copy phase\<close>

lemma migrateOnePage_eq:
  fixes ctx :: Context
  assumes "pageTable d (pid ctx, vAddr) = Some old"
    and "allocFrame (memAllocator d) (sint (gpuID + 1)) = Inr (pAddr, a')"
    and "unat gpuID < length (GPUs d)"
    and "currentPageMigrationReq d = Some cur"
  shows "migrateOnePage allocFrame ctx pmc gpuID vAddr d =
     Inr (d\<lparr>memAllocator := a',
            pageTable := (pageTable d)((pid ctx, vAddr) \<mapsto>
               \<lparr>page_PID = pid ctx, VAddr = vAddr, PAddr = pAddr, DeviceID = gpuID + 1,
                 Unified = True, IsMigrating = True\<rparr>),
            migrationReqToSendToCP := migrationReqToSendToCP d @
               [\<lparr>cp_Meta = \<lparr>MsgID = idGenerator d, Src = portName (gpuPort d),
                              Dst = GPUs d ! unat gpuID\<rparr>,
                  DestinationPMCPort = pmc,
                  ToReadFromPhysicalAddress = PAddr old,
                  ToWriteToPhysicalAddress = pAddr,
                  cp_PageSize = PageSize cur\<rparr>],
            numPagesMigratingACK := numPagesMigratingACK d + 1,
            idGenerator := Suc (idGenerator d)\<rparr>)"
  using assms
  by (simp add: migrateOnePage_def preparePageForMigration_def AllocatePageWithGivenVAddr_def
      pageTableUpdate_def newMeta_def indexW_ok Let_def)

lemma migrateOnePage_Inr:
  fixes ctx :: Context
  assumes "migrateOnePage allocFrame ctx pmc gpuID vAddr d = Inr d'"
  shows "\<exists>old pAddr a' cur. pageTable d (pid ctx, vAddr) = Some old
     \<and> allocFrame (memAllocator d) (sint (gpuID + 1)) = Inr (pAddr, a')
     \<and> unat gpuID < length (GPUs d) \<and> currentPageMigrationReq d = Some cur"
proof -
  obtain old where old: "pageTable d (pid ctx, vAddr) = Some old"
    using assms by (cases "pageTable d (pid ctx, vAddr)")
      (simp_all add: migrateOnePage_def preparePageForMigration_def)
  obtain pAddr a' where al: "allocFrame (memAllocator d) (sint (gpuID + 1)) = Inr (pAddr, a')"
    using assms old by (cases "allocFrame (memAllocator d) (sint (gpuID + 1))")
      (auto simp: migrateOnePage_def preparePageForMigration_def AllocatePageWithGivenVAddr_def)
  have g: "unat gpuID < length (GPUs d)"
    using assms old al
    by (simp add: migrateOnePage_def preparePageForMigration_def AllocatePageWithGivenVAddr_def
        pageTableUpdate_def Let_def indexW_def split: if_splits)
  obtain cur where "currentPageMigrationReq d = Some cur"
    using assms old al g
    by (cases "currentPageMigrationReq d")
       (simp_all add: migrateOnePage_def preparePageForMigration_def AllocatePageWithGivenVAddr_def
        pageTableUpdate_def Let_def indexW_def)
  then show ?thesis using old al g by blast
qed

lemma migratePages_frame:
  "migratePages allocFrame ctx pmc ps d = Inr d' \<Longrightarrow>
     \<exists>a pt reqs n. d' = d\<lparr>memAllocator := a, pageTable := pt,
          migrationReqToSendToCP := migrationReqToSendToCP d @ reqs,
          numPagesMigratingACK := numPagesMigratingACK d + of_nat (length ps),
          idGenerator := n\<rparr> \<and> length reqs = length ps"
proof (induction ps arbitrary: d)
  case Nil
  then have "d' = d" by simp
  then show ?case
    by (intro exI [of _ "memAllocator d"] exI [of _ "pageTable d"] exI [of _ "[]"]
        exI [of _ "idGenerator d"]) simp
next
  case (Cons x ps)
  obtain gpuID vAddr where x: "x = (gpuID, vAddr)" by (cases x)
  from Cons.prems x obtain d1 where
    1: "migrateOnePage allocFrame ctx pmc gpuID vAddr d = Inr d1"
    and 2: "migratePages allocFrame ctx pmc ps d1 = Inr d'"
    by (auto simp: bindE_eq_Inr)
  obtain old pAddr a' cur where c: "pageTable d (pid ctx, vAddr) = Some old"
    "allocFrame (memAllocator d) (sint (gpuID + 1)) = Inr (pAddr, a')"
    "unat gpuID < length (GPUs d)" "currentPageMigrationReq d = Some cur"
    using migrateOnePage_Inr [OF 1] by blast
  have e1: "Inr d1 = Inr (d\<lparr>memAllocator := a',
            pageTable := (pageTable d)((pid ctx, vAddr) \<mapsto>
               \<lparr>page_PID = pid ctx, VAddr = vAddr, PAddr = pAddr, DeviceID = gpuID + 1,
                 Unified = True, IsMigrating = True\<rparr>),
            migrationReqToSendToCP := migrationReqToSendToCP d @
               [\<lparr>cp_Meta = \<lparr>MsgID = idGenerator d, Src = portName (gpuPort d),
                              Dst = GPUs d ! unat gpuID\<rparr>,
                  DestinationPMCPort = pmc,
                  ToReadFromPhysicalAddress = PAddr old,
                  ToWriteToPhysicalAddress = pAddr,
                  cp_PageSize = PageSize cur\<rparr>],
            numPagesMigratingACK := numPagesMigratingACK d + 1,
            idGenerator := Suc (idGenerator d)\<rparr>)"
    using migrateOnePage_eq [where allocFrame = allocFrame and d = d and ctx = ctx
        and vAddr = vAddr and gpuID = gpuID and pmc = pmc, OF c] 1 by simp
  obtain a pt reqs n where r: "d' = d1\<lparr>memAllocator := a, pageTable := pt,
          migrationReqToSendToCP := migrationReqToSendToCP d1 @ reqs,
          numPagesMigratingACK := numPagesMigratingACK d1 + of_nat (length ps),
          idGenerator := n\<rparr>" "length reqs = length ps"
    using Cons.IH [OF 2] by blast
  let ?req = "\<lparr>cp_Meta = \<lparr>MsgID = idGenerator d, Src = portName (gpuPort d),
                              Dst = GPUs d ! unat gpuID\<rparr>,
                  DestinationPMCPort = pmc,
                  ToReadFromPhysicalAddress = PAddr old,
                  ToWriteToPhysicalAddress = pAddr,
                  cp_PageSize = PageSize cur\<rparr>"
  show ?case
    apply (intro exI [of _ a] exI [of _ pt] exI [of _ "?req # reqs"] exI [of _ n])
    using r e1 by (simp add: algebra_simps)
qed

subsection \<open>The handlers of the migration responses\<close>

lemma countKind_simps [simp]:
  "countKind f k [] = 0"
  "countKind f k (m # ms) = (if f m = Some k then 1 else 0) + countKind f k ms"
  "countKind f k (xs @ ys) = countKind f k xs + countKind f k ys"
  by (simp_all add: countKind_def)

lemma countKind_drainCmds [simp]:
  "countKind reqKind k (drainCmds n src gs) = (if k = RDMADrain then length gs else 0)"
  by (auto simp: countKind_def drainCmds_def filter_map comp_def case_prod_unfold)

lemma countKind_rdmaRestartCmds [simp]:
  "countKind reqKind k (rdmaRestartCmds n src gs) = (if k = RDMARestart then length gs else 0)"
  by (auto simp: countKind_def rdmaRestartCmds_def filter_map comp_def case_prod_unfold)

lemma countKind_shootDownCmds [simp]:
  "countKind reqKind k (shootDownCmds n src gpus v p accs) = (if k = ShootDown then length accs else 0)"
  by (auto simp: countKind_def shootDownCmds_def filter_map comp_def case_prod_unfold)

lemma countKind_gpuRestartCmds [simp]:
  "countKind reqKind k (gpuRestartCmds n src gpus accs) = (if k = GPURestart then length accs else 0)"
  by (auto simp: countKind_def gpuRestartCmds_def filter_map comp_def case_prod_unfold)

lemma initiateRDMADrain_eq:
  "initiateRDMADrain d =
     d\<lparr>requestsToSend := requestsToSend d @ drainCmds (idGenerator d) (portName (gpuPort d)) (GPUs d),
       numRDMADrainACK := numRDMADrainACK d + of_nat (length (GPUs d)),
       idGenerator := idGenerator d + length (GPUs d)\<rparr>"
  by (simp add: initiateRDMADrain_def rdmaDrainLoop_eq drainCmds_def)

lemma prepareRDMARestartReqs_eq:
  "prepareRDMARestartReqs d =
     d\<lparr>requestsToSend := requestsToSend d @ rdmaRestartCmds (idGenerator d) (portName (gpuPort d)) (GPUs d),
       numRDMARestartACK := numRDMARestartACK d + of_nat (length (GPUs d)),
       idGenerator := idGenerator d + length (GPUs d)\<rparr>"
  by (simp add: prepareRDMARestartReqs_def rdmaRestartLoop_eq rdmaRestartCmds_def)

lemma sendShootDownReqs_Inr:
  assumes "sendShootDownReqs d = Inr d'"
  shows "\<exists>cur. currentPageMigrationReq d = Some cur
     \<and> (\<forall>gpu\<in>set (CurrAccessingGPUs cur). unat (gpu - 1) < length (GPUs d))
     \<and> d' = d\<lparr>requestsToSend := requestsToSend d @
                 shootDownCmds (idGenerator d) (portName (gpuPort d)) (GPUs d)
                   (requestedVAddrs cur (GetNumGPUs d)) (mig_PID cur) (CurrAccessingGPUs cur),
               numShootDownACK := of_nat (length (CurrAccessingGPUs cur)),
               idGenerator := idGenerator d + length (CurrAccessingGPUs cur)\<rparr>"
proof -
  obtain cur where cur: "currentPageMigrationReq d = Some cur"
    using assms by (cases "currentPageMigrationReq d") (simp_all add: sendShootDownReqs_def)
  let ?d0 = "d\<lparr>numShootDownACK := of_nat (length (CurrAccessingGPUs cur))\<rparr>"
  have run: "shootDownLoop (CurrAccessingGPUs cur) (requestedVAddrs cur (GetNumGPUs d)) (mig_PID cur) ?d0
      = Inr d'"
    using assms cur by (simp add: sendShootDownReqs_def Let_def)
  have ok: "\<forall>gpu\<in>set (CurrAccessingGPUs cur). unat (gpu - 1) < length (GPUs d)"
    using shootDownLoop_Inr [OF run] by simp
  then have ok0: "\<forall>gpu\<in>set (CurrAccessingGPUs cur). unat (gpu - 1) < length (GPUs ?d0)" by simp
  show ?thesis
    using run cur ok unfolding shootDownLoop_eq [OF ok0]
    by (intro exI [of _ cur]) (auto simp: shootDownCmds_def)
qed

lemma prepareGPURestartReqs_Inr:
  assumes "prepareGPURestartReqs d = Inr d'"
  shows "\<exists>cur. currentPageMigrationReq d = Some cur
     \<and> (\<forall>gpu\<in>set (CurrAccessingGPUs cur). unat (gpu - 1) < length (GPUs d))
     \<and> d' = d\<lparr>requestsToSend := requestsToSend d @
                 gpuRestartCmds (idGenerator d) (portName (gpuPort d)) (GPUs d) (CurrAccessingGPUs cur),
               numRestartACK := numRestartACK d + of_nat (length (CurrAccessingGPUs cur)),
               idGenerator := idGenerator d + length (CurrAccessingGPUs cur)\<rparr>"
proof -
  obtain cur where cur: "currentPageMigrationReq d = Some cur"
    using assms by (cases "currentPageMigrationReq d") (simp_all add: prepareGPURestartReqs_def)
  have run: "gpuRestartLoop (CurrAccessingGPUs cur) d = Inr d'"
    using assms cur by (simp add: prepareGPURestartReqs_def)
  have ok: "\<forall>gpu\<in>set (CurrAccessingGPUs cur). unat (gpu - 1) < length (GPUs d)"
    using gpuRestartLoop_Inr [OF run] by simp
  show ?thesis
    using run cur ok unfolding gpuRestartLoop_eq [OF ok]
    by (intro exI [of _ cur]) (auto simp: gpuRestartCmds_def)
qed

lemma preparePageMigrationRspToMMU_Inr:
  assumes "preparePageMigrationRspToMMU ord d = Inr d'"
  shows "\<exists>cur. currentPageMigrationReq d = Some cur
     \<and> d' = d\<lparr>toSendToMMU := Some
                 \<lparr>rsp_Meta = \<lparr>MsgID = idGenerator d, Src = portName (mmuPort d),
                               Dst = Src (mig_Meta cur)\<rparr>,
                   OriginalReq = cur,
                   rsp_VAddr = map snd (visitPageVaddrs ord cur (findRequestingGPUs cur d)),
                   RspToTop = RespondToTop cur\<rparr>,
               idGenerator := Suc (idGenerator d)\<rparr>"
proof -
  obtain cur where cur: "currentPageMigrationReq d = Some cur"
    using assms by (cases "currentPageMigrationReq d") (simp_all add: preparePageMigrationRspToMMU_def)
  show ?thesis
    using assms cur
    by (intro exI [of _ cur]) (auto simp: preparePageMigrationRspToMMU_def newMeta_def Let_def)
qed

lemma word_dec_zero: "(w :: 64 word) - 1 = 0 \<longleftrightarrow> w = 1"
  by (metis diff_add_cancel add.left_neutral diff_self)

lemma processRDMADrainRsp_Inr:
  assumes "processRDMADrainRsp d = Inr (p, d')"
  shows "p \<and> (if numRDMADrainACK d = 1
     then \<exists>cur. currentPageMigrationReq d = Some cur
       \<and> (\<forall>gpu\<in>set (CurrAccessingGPUs cur). unat (gpu - 1) < length (GPUs d))
       \<and> d' = d\<lparr>requestsToSend := requestsToSend d @
                 shootDownCmds (idGenerator d) (portName (gpuPort d)) (GPUs d)
                   (requestedVAddrs cur (GetNumGPUs d)) (mig_PID cur) (CurrAccessingGPUs cur),
               numRDMADrainACK := 0,
               numShootDownACK := of_nat (length (CurrAccessingGPUs cur)),
               idGenerator := idGenerator d + length (CurrAccessingGPUs cur)\<rparr>
     else d' = d\<lparr>numRDMADrainACK := numRDMADrainACK d - 1\<rparr>)"
proof (cases "numRDMADrainACK d = 1")
  case True
  let ?d1 = "d\<lparr>numRDMADrainACK := numRDMADrainACK d - 1\<rparr>"
  have "sendShootDownReqs ?d1 = Inr d'" and p: p
    using assms True by (auto simp: processRDMADrainRsp_def Let_def bindE_eq_Inr)
  from sendShootDownReqs_Inr [OF this(1)] True p show ?thesis
    by (auto simp: GetNumGPUs_def)
next
  case False
  then show ?thesis
    using assms by (auto simp: processRDMADrainRsp_def Let_def word_dec_zero)
qed

lemma processShootdownCompleteRsp_Inr:
  assumes "processShootdownCompleteRsp allocFrame ord d = Inr (p, d')"
  shows "if numShootDownACK d = 1
     then p \<and> (\<exists>cur pmc ctx. currentPageMigrationReq d = Some cur
       \<and> indexW (RemotePMCPorts d) (CurrPageHostGPU cur - 1) = Inr pmc
       \<and> findContext (mig_PID cur) d = Inr ctx
       \<and> migratePages allocFrame ctx pmc (visitPageVaddrs ord cur (findRequestingGPUs cur d))
            (d\<lparr>numShootDownACK := 0\<rparr>) = Inr d')
     else \<not> p \<and> d' = d\<lparr>numShootDownACK := numShootDownACK d - 1\<rparr>"
proof (cases "numShootDownACK d = 1")
  case True
  obtain cur where cur: "currentPageMigrationReq d = Some cur"
    using assms True
    by (cases "currentPageMigrationReq d") (simp_all add: processShootdownCompleteRsp_def Let_def)
  have fr: "findRequestingGPUs cur (d\<lparr>numShootDownACK := 0\<rparr>) = findRequestingGPUs cur d"
    by (simp add: findRequestingGPUs_def GetNumGPUs_def)
  have fc: "findContext (mig_PID cur) (d\<lparr>numShootDownACK := 0\<rparr>) = findContext (mig_PID cur) d"
    by (simp add: findContext_def)
  show ?thesis
    using assms True cur
    by (auto simp: processShootdownCompleteRsp_def Let_def bindE_eq_Inr fr fc)
next
  case False
  then show ?thesis
    using assms by (auto simp: processShootdownCompleteRsp_def Let_def word_dec_zero)
qed

lemma processPageMigrationRspFromCP_Inr:
  assumes "processPageMigrationRspFromCP ord d = Inr (p, d')"
  shows "p \<and> (if numPagesMigratingACK d = 1
     then \<exists>cur. currentPageMigrationReq d = Some cur
       \<and> (\<forall>gpu\<in>set (CurrAccessingGPUs cur). unat (gpu - 1) < length (GPUs d))
       \<and> d' = d\<lparr>requestsToSend := requestsToSend d @
                 gpuRestartCmds (idGenerator d) (portName (gpuPort d)) (GPUs d) (CurrAccessingGPUs cur),
               toSendToMMU := Some
                 \<lparr>rsp_Meta = \<lparr>MsgID = idGenerator d + length (CurrAccessingGPUs cur),
                               Src = portName (mmuPort d), Dst = Src (mig_Meta cur)\<rparr>,
                   OriginalReq = cur,
                   rsp_VAddr = map snd (visitPageVaddrs ord cur (findRequestingGPUs cur d)),
                   RspToTop = RespondToTop cur\<rparr>,
               numRestartACK := numRestartACK d + of_nat (length (CurrAccessingGPUs cur)),
               numPagesMigratingACK := 0,
               isCurrentlyMigratingOnePage := False,
               idGenerator := Suc (idGenerator d + length (CurrAccessingGPUs cur))\<rparr>
     else d' = d\<lparr>numPagesMigratingACK := numPagesMigratingACK d - 1,
                 isCurrentlyMigratingOnePage := False\<rparr>)"
proof (cases "numPagesMigratingACK d = 1")
  case True
  let ?d1 = "d\<lparr>numPagesMigratingACK := numPagesMigratingACK d - 1,
                 isCurrentlyMigratingOnePage := False\<rparr>"
  obtain d2 where 2: "prepareGPURestartReqs ?d1 = Inr d2"
    and 3: "preparePageMigrationRspToMMU ord d2 = Inr d'" and p: p
    using assms True by (auto simp: processPageMigrationRspFromCP_def Let_def bindE_eq_Inr)
  obtain cur where cur: "currentPageMigrationReq ?d1 = Some cur"
    and ok: "\<forall>gpu\<in>set (CurrAccessingGPUs cur). unat (gpu - 1) < length (GPUs ?d1)"
    and d2: "d2 = ?d1\<lparr>requestsToSend := requestsToSend ?d1 @
                 gpuRestartCmds (idGenerator ?d1) (portName (gpuPort ?d1)) (GPUs ?d1) (CurrAccessingGPUs cur),
               numRestartACK := numRestartACK ?d1 + of_nat (length (CurrAccessingGPUs cur)),
               idGenerator := idGenerator ?d1 + length (CurrAccessingGPUs cur)\<rparr>"
    using prepareGPURestartReqs_Inr [OF 2] by blast
  obtain cur' where cur': "currentPageMigrationReq d2 = Some cur'"
    and d3: "d' = d2\<lparr>toSendToMMU := Some
                 \<lparr>rsp_Meta = \<lparr>MsgID = idGenerator d2, Src = portName (mmuPort d2),
                               Dst = Src (mig_Meta cur')\<rparr>,
                   OriginalReq = cur',
                   rsp_VAddr = map snd (visitPageVaddrs ord cur' (findRequestingGPUs cur' d2)),
                   RspToTop = RespondToTop cur'\<rparr>,
               idGenerator := Suc (idGenerator d2)\<rparr>"
    using preparePageMigrationRspToMMU_Inr [OF 3] by blast
  have same: "cur' = cur" using cur cur' d2 by simp
  have fr: "findRequestingGPUs cur d2 = findRequestingGPUs cur d"
    using d2 by (simp add: findRequestingGPUs_def GetNumGPUs_def)
  show ?thesis
    using True p cur ok d2 d3 same fr
    by (auto simp: )
next
  case False
  then show ?thesis
    using assms by (auto simp: processPageMigrationRspFromCP_def Let_def word_dec_zero)
qed

lemma handleGPURestartRsp_eq:
  "handleGPURestartRsp d =
     (True, if numRestartACK d = 1
            then d\<lparr>requestsToSend := requestsToSend d @
                     rdmaRestartCmds (idGenerator d) (portName (gpuPort d)) (GPUs d),
                   numRDMARestartACK := numRDMARestartACK d + of_nat (length (GPUs d)),
                   numRestartACK := 0,
                   idGenerator := idGenerator d + length (GPUs d)\<rparr>
            else d\<lparr>numRestartACK := numRestartACK d - 1\<rparr>)"
  by (auto simp: handleGPURestartRsp_def Let_def word_dec_zero prepareRDMARestartReqs_eq)

lemma processRDMARestartRspToDriver_eq:
  "processRDMARestartRspToDriver d =
     (True, if numRDMARestartACK d = 1
            then d\<lparr>currentPageMigrationReq := None, isCurrentlyHandlingMigrationReq := False,
                   numRDMARestartACK := 0\<rparr>
            else d\<lparr>numRDMARestartACK := numRDMARestartACK d - 1\<rparr>)"
  by (auto simp: processRDMARestartRspToDriver_def Let_def word_dec_zero)

lemma parseFromMMU_Inr:
  assumes "parseFromMMU d = Inr (p, d')"
  shows "if isCurrentlyHandlingMigrationReq d \<or> incoming (mmuPort d) = []
     then \<not> p \<and> d' = d
     else p \<and> (\<exists>r rest. incoming (mmuPort d) = PageMigrationReqToDriverMsg r # rest
       \<and> d' = d\<lparr>requestsToSend := requestsToSend d @
                   drainCmds (idGenerator d) (portName (gpuPort d)) (GPUs d),
                 mmuPort := RetrieveIncoming (mmuPort d),
                 currentPageMigrationReq := Some r,
                 isCurrentlyHandlingMigrationReq := True,
                 numRDMADrainACK := numRDMADrainACK d + of_nat (length (GPUs d)),
                 idGenerator := idGenerator d + length (GPUs d)\<rparr>)"
  using assms
  by (auto simp: parseFromMMU_def initiateRDMADrain_eq mmuRetrieveIncoming_def
      split: if_splits list.splits MMUMsg.splits)

subsection \<open>The protocol invariant\<close>

lemma ackCounter_upd [simp]:
  "ackCounter k (d\<lparr>numRDMADrainACK := v\<rparr>) = (if k = RDMADrain then v else ackCounter k d)"
  "ackCounter k (d\<lparr>numShootDownACK := v\<rparr>) = (if k = ShootDown then v else ackCounter k d)"
  "ackCounter k (d\<lparr>numPagesMigratingACK := v\<rparr>) = (if k = PageMigration then v else ackCounter k d)"
  "ackCounter k (d\<lparr>numRestartACK := v\<rparr>) = (if k = GPURestart then v else ackCounter k d)"
  "ackCounter k (d\<lparr>numRDMARestartACK := v\<rparr>) = (if k = RDMARestart then v else ackCounter k d)"
  by (cases k; simp)+

lemma ackCounter_frame [simp]:
  "ackCounter k (d\<lparr>memAllocator := a\<rparr>) = ackCounter k d"
  "ackCounter k (d\<lparr>GPUs := g\<rparr>) = ackCounter k d"
  "ackCounter k (d\<lparr>devices := dv\<rparr>) = ackCounter k d"
  "ackCounter k (d\<lparr>pageTable := pt\<rparr>) = ackCounter k d"
  "ackCounter k (d\<lparr>requestsToSend := rs\<rparr>) = ackCounter k d"
  "ackCounter k (d\<lparr>contexts := cs\<rparr>) = ackCounter k d"
  "ackCounter k (d\<lparr>mmuPort := mp\<rparr>) = ackCounter k d"
  "ackCounter k (d\<lparr>gpuPort := gp\<rparr>) = ackCounter k d"
  "ackCounter k (d\<lparr>currentPageMigrationReq := c\<rparr>) = ackCounter k d"
  "ackCounter k (d\<lparr>toSendToMMU := t\<rparr>) = ackCounter k d"
  "ackCounter k (d\<lparr>migrationReqToSendToCP := ms\<rparr>) = ackCounter k d"
  "ackCounter k (d\<lparr>isCurrentlyHandlingMigrationReq := b\<rparr>) = ackCounter k d"
  "ackCounter k (d\<lparr>isCurrentlyMigratingOnePage := b\<rparr>) = ackCounter k d"
  "ackCounter k (d\<lparr>RemotePMCPorts := ps\<rparr>) = ackCounter k d"
  "ackCounter k (d\<lparr>idGenerator := n\<rparr>) = ackCounter k d"
  by (cases k; simp)+

lemma ackCounter_updateContext [simp]: "ackCounter k (updateContext ci f d) = ackCounter k d"
  by (simp add: updateContext_def)

lemma migInv_idGenerator [simp]: "migInv (d\<lparr>idGenerator := n\<rparr>) = migInv d"
  by (simp add: migInv_def queuedReqs_def sentReqs_def retrievedRsps_def waitingRsps_def)

lemma migInv_contexts [simp]: "migInv (d\<lparr>contexts := cs\<rparr>) = migInv d"
  by (simp add: migInv_def queuedReqs_def sentReqs_def retrievedRsps_def waitingRsps_def)

lemma migInv_launch [simp]:
  "migInv (d\<lparr>requestsToSend := requestsToSend d @ [LaunchKernelReqMsg req]\<rparr>) = migInv d"
  by (simp add: migInv_def queuedReqs_def sentReqs_def retrievedRsps_def waitingRsps_def)

subsection \<open>The protocol invariant: entry and exit\<close>

lemma launchClosed_keepsMigInv: "launchClosed (keepsMigInv :: 'a Driver \<Rightarrow> 'a Driver \<Rightarrow> bool)"
  unfolding launchClosed_def keepsMigInv_def
  by (simp add: updateContext_def)

lemma freshDriver_migInv:
  assumes "freshDriver d"
  shows "migInv d"
proof -
  have c: "\<And>k. ackCounter k d = 0" and f: "\<not> isCurrentlyMigratingOnePage d"
    and m: "migrationReqToSendToCP d = []" and r: "\<forall>m\<in>set (requestsToSend d). reqKind m = None"
    and g: "incoming (gpuPort d) = []" "retrieved (gpuPort d) = []" "sent (gpuPort d) = []"
    and mm: "incoming (mmuPort d) = []" and cur: "currentPageMigrationReq d = None"
    and len: "length (GPUs d) < 2 ^ 64"
    using assms unfolding freshDriver_def by blast+
  have q: "\<And>k. countKind reqKind k (requestsToSend d) = 0"
    using r by (simp add: countKind_def filter_empty_conv)
  show ?thesis
    unfolding migInv_def queuedReqs_def sentReqs_def retrievedRsps_def waitingRsps_def
    using len by (simp add: c f m q g mm cur)
qed

lemma migInvI:
  assumes "\<And>k. unat (ackCounter k d) + retrievedRsps k d = queuedReqs k d + sentReqs k d"
    and "\<And>k. retrievedRsps k d + waitingRsps k d \<le> sentReqs k d"
    and "countKind reqKind PageMigration (requestsToSend d) = 0"
    and "sentReqs PageMigration d =
       retrievedRsps PageMigration d + (if isCurrentlyMigratingOnePage d then 1 else 0)"
    and "\<And>k k'. ackCounter k d \<noteq> 0 \<Longrightarrow> ackCounter k' d \<noteq> 0 \<Longrightarrow> k = k'"
    and "\<And>k. \<not> isCurrentlyHandlingMigrationReq d \<Longrightarrow> ackCounter k d = 0"
    and "length (GPUs d) < 2 ^ 64"
    and "\<And>cur. currentPageMigrationReq d = Some cur \<Longrightarrow> wfMigrationReq (length (GPUs d)) cur"
    and "\<And>m. m \<in> set (incoming (mmuPort d)) \<Longrightarrow> wfMMUMsg (length (GPUs d)) m"
  shows "migInv d"
  unfolding migInv_def
  apply (intro conjI allI impI ballI)
  using assms(1) apply simp
  using assms(2) apply simp
  using assms(3) apply simp
  using assms(4) apply simp
  using assms(5) apply simp
  using assms(6) apply simp
  using assms(7) apply simp
  using assms(8) apply simp
  using assms(9) apply simp
  done

lemma migInvD:
  assumes "migInv d"
  shows "unat (ackCounter k d) + retrievedRsps k d = queuedReqs k d + sentReqs k d"
    and "retrievedRsps k d + waitingRsps k d \<le> sentReqs k d"
    and "countKind reqKind PageMigration (requestsToSend d) = 0"
    and "sentReqs PageMigration d =
       retrievedRsps PageMigration d + (if isCurrentlyMigratingOnePage d then 1 else 0)"
    and "ackCounter k d \<noteq> 0 \<Longrightarrow> ackCounter k' d \<noteq> 0 \<Longrightarrow> k = k'"
    and "\<not> isCurrentlyHandlingMigrationReq d \<Longrightarrow> ackCounter k d = 0"
    and "length (GPUs d) < 2 ^ 64"
    and "currentPageMigrationReq d = Some cur \<Longrightarrow> wfMigrationReq (length (GPUs d)) cur"
    and "m \<in> set (incoming (mmuPort d)) \<Longrightarrow> wfMMUMsg (length (GPUs d)) m"
  using assms unfolding migInv_def by blast+

lemma waiting_counter:
  assumes "migInv d" and "incoming (gpuPort d) = m # rest" and "rspKind m = Some k"
  shows "ackCounter k d \<noteq> 0" and "k = PageMigration \<Longrightarrow> isCurrentlyMigratingOnePage d"
proof -
  have w: "waitingRsps k d \<ge> 1" using assms(2,3) by (simp add: waitingRsps_def)
  have "retrievedRsps k d < sentReqs k d" using migInvD(2) [OF assms(1), of k] w by simp
  moreover have "queuedReqs k d \<ge> 0" by simp
  ultimately have "unat (ackCounter k d) > 0" using migInvD(1) [OF assms(1), of k] by simp
  then show "ackCounter k d \<noteq> 0" by (simp add: unat_gt_0)
  show "isCurrentlyMigratingOnePage d" if "k = PageMigration"
    using migInvD(4) [OF assms(1)] \<open>retrievedRsps k d < sentReqs k d\<close> that
    by (simp split: if_splits)
qed

lemma waiting_others:
  assumes "migInv d" and "incoming (gpuPort d) = m # rest" and "rspKind m = Some k0"
  shows "k \<noteq> k0 \<Longrightarrow> ackCounter k d = 0" and "isCurrentlyHandlingMigrationReq d"
proof -
  have nz: "ackCounter k0 d \<noteq> 0" using waiting_counter(1) [OF assms] .
  show "ackCounter k d = 0" if "k \<noteq> k0" using migInvD(5) [OF assms(1), of k k0] nz that by blast
  show "isCurrentlyHandlingMigrationReq d" using migInvD(6) [OF assms(1), of k0] nz by blast
qed

lemma unat_dec: "(w :: 64 word) \<noteq> 0 \<Longrightarrow> unat (w - 1) = unat w - 1"
  by (simp add: unat_minus_one)

lemma unat_of_nat64: "n < 2 ^ 64 \<Longrightarrow> unat (of_nat n :: 64 word) = n"
  by (simp add: unat_of_nat)

lemma migInv_response:
  assumes inv: "migInv d" and inc: "incoming (gpuPort d) = m # rest" and kind: "rspKind m = Some k0"
    and port: "gpuPort d' = RetrieveIncoming (gpuPort d)"
    and mmu: "incoming (mmuPort d') = incoming (mmuPort d)"
    and gpus: "GPUs d' = GPUs d"
    and cur: "currentPageMigrationReq d' = currentPageMigrationReq d \<or> currentPageMigrationReq d' = None"
    and flag: "isCurrentlyMigratingOnePage d' \<longleftrightarrow> isCurrentlyMigratingOnePage d \<and> k0 \<noteq> PageMigration"
    and cnt: "\<And>k. ackCounter k d' =
                (if k = k0 then ackCounter k d - 1
                 else if k = k1 \<and> ackCounter k0 d = 1 then of_nat n else 0)"
    and q: "\<And>k. queuedReqs k d' = queuedReqs k d + (if k = k1 \<and> ackCounter k0 d = 1 then n else 0)"
    and pm: "countKind reqKind PageMigration (requestsToSend d') = 0"
    and n: "ackCounter k0 d = 1 \<Longrightarrow> n < 2 ^ 64" and k1: "k1 \<noteq> k0"
    and handling: "\<not> isCurrentlyHandlingMigrationReq d' \<Longrightarrow> ackCounter k0 d = 1 \<and> n = 0"
  shows "migInv d'"
proof (rule migInvI)
  note D = migInvD [OF inv]
  have nz: "ackCounter k0 d \<noteq> 0" using waiting_counter(1) [OF inv inc kind] .
  have z: "\<And>k. k \<noteq> k0 \<Longrightarrow> ackCounter k d = 0" using waiting_others(1) [OF inv inc kind] .
  have gp: "gpuPort d' = (gpuPort d)\<lparr>incoming := rest, retrieved := retrieved (gpuPort d) @ [m]\<rparr>"
    using port inc by (simp add: RetrieveIncoming_def)
  have s: "\<And>k. sentReqs k d' = sentReqs k d" by (simp add: sentReqs_def gp)
  have r: "\<And>k. retrievedRsps k d' = retrievedRsps k d + (if k = k0 then 1 else 0)"
    using kind by (simp add: retrievedRsps_def gp)
  have w: "\<And>k. waitingRsps k d = waitingRsps k d' + (if k = k0 then 1 else 0)"
    using kind inc by (simp add: waitingRsps_def gp)
  have pos: "unat (ackCounter k0 d) > 0" using nz by (simp add: unat_gt_0)
  show "unat (ackCounter k d') + retrievedRsps k d' = queuedReqs k d' + sentReqs k d'" for k
  proof (cases "k = k0")
    case True
    then show ?thesis using D(1) [of k0] pos k1 by (simp add: cnt q s r unat_dec [OF nz])
  next
    case False
    show ?thesis
    proof (cases "ackCounter k0 d = 1")
      case True
      then show ?thesis using D(1) [of k] z [OF False] False n
        by (cases "k = k1") (simp_all add: cnt q s r unat_of_nat64)
    next
      case f: False
      then show ?thesis using D(1) [of k] z [OF False] False
        by (simp add: cnt q s r)
    qed
  qed
  show "retrievedRsps k d' + waitingRsps k d' \<le> sentReqs k d'" for k
    using D(2) [of k] w [of k] by (simp add: s r)
  show "countKind reqKind PageMigration (requestsToSend d') = 0" by (rule pm)
  show "sentReqs PageMigration d' =
      retrievedRsps PageMigration d' + (if isCurrentlyMigratingOnePage d' then 1 else 0)"
    using D(4) waiting_counter(2) [OF inv inc kind] by (simp add: s r flag)
  show "k = k'" if "ackCounter k d' \<noteq> 0" "ackCounter k' d' \<noteq> 0" for k k'
    using that by (simp add: cnt split: if_splits)
  show "ackCounter k d' = 0" if "\<not> isCurrentlyHandlingMigrationReq d'" for k
    using handling [OF that] by (simp add: cnt)
  show "length (GPUs d') < 2 ^ 64" using D(7) by (simp add: gpus)
  show "wfMigrationReq (length (GPUs d')) c" if "currentPageMigrationReq d' = Some c" for c
    using cur that D(8) [of c] by (auto simp: gpus)
  show "wfMMUMsg (length (GPUs d')) x" if "x \<in> set (incoming (mmuPort d'))" for x
    using that D(9) [of x] by (simp add: gpus mmu)
qed

subsection \<open>The protocol invariant: responses\<close>

lemma sum_list_perm:
  assumes "mset xs = mset ys"
  shows "sum_list (map f xs) = (sum_list (map f ys) :: nat)"
proof -
  have "sum_list (map f xs) = sum_mset (image_mset f (mset xs))"
    by (simp add: sum_mset_sum_list [symmetric])
  also have "\<dots> = sum_mset (image_mset f (mset ys))" by (simp add: assms)
  also have "\<dots> = sum_list (map f ys)" by (simp add: sum_mset_sum_list [symmetric])
  finally show ?thesis .
qed

lemma length_visitPageVaddrs:
  assumes "mset (ord (findRequestingGPUs cur d)) = mset (findRequestingGPUs cur d)"
  shows "length (visitPageVaddrs ord cur (findRequestingGPUs cur d))
         = length (requestedVAddrs cur (GetNumGPUs d))"
proof -
  let ?f = "\<lambda>gpuID. length (pageVaddrs cur gpuID)"
  let ?F = "\<lambda>i. length (case GPUReqToVAddrMap cur (of_nat i) of None \<Rightarrow> [] | Some pages \<Rightarrow> pages)"
  have "length (visitPageVaddrs ord cur (findRequestingGPUs cur d))
        = sum_list (map ?f (ord (findRequestingGPUs cur d)))"
    by (simp add: visitPageVaddrs_def length_concat comp_def)
  also have "\<dots> = sum_list (map ?f (findRequestingGPUs cur d))"
    using assms by (rule sum_list_perm)
  also have "\<dots> = sum_list (map ?F (filter (\<lambda>i. GPUReqToVAddrMap cur (of_nat i) \<noteq> None)
                                  [1..<GetNumGPUs d + 1]))"
    unfolding findRequestingGPUs_def map_map comp_def
    by (rule arg_cong [where f = sum_list], rule map_cong) (auto simp: pageVaddrs_def)
  also have "\<dots> = sum_list (map ?F [1..<GetNumGPUs d + 1])"
    by (rule sum_list_map_filter) auto
  also have "\<dots> = length (requestedVAddrs cur (GetNumGPUs d))"
    by (simp add: requestedVAddrs_def length_concat comp_def)
  finally show ?thesis .
qed

lemma gpuRetrieveIncoming_fields [simp]:
  "gpuPort (gpuRetrieveIncoming d) = RetrieveIncoming (gpuPort d)"
  "mmuPort (gpuRetrieveIncoming d) = mmuPort d"
  "GPUs (gpuRetrieveIncoming d) = GPUs d"
  "currentPageMigrationReq (gpuRetrieveIncoming d) = currentPageMigrationReq d"
  "isCurrentlyMigratingOnePage (gpuRetrieveIncoming d) = isCurrentlyMigratingOnePage d"
  "isCurrentlyHandlingMigrationReq (gpuRetrieveIncoming d) = isCurrentlyHandlingMigrationReq d"
  "requestsToSend (gpuRetrieveIncoming d) = requestsToSend d"
  "migrationReqToSendToCP (gpuRetrieveIncoming d) = migrationReqToSendToCP d"
  "ackCounter k (gpuRetrieveIncoming d) = ackCounter k d"
  "queuedReqs k (gpuRetrieveIncoming d) = queuedReqs k d"
  "numRDMADrainACK (gpuRetrieveIncoming d) = numRDMADrainACK d"
  "numShootDownACK (gpuRetrieveIncoming d) = numShootDownACK d"
  "numPagesMigratingACK (gpuRetrieveIncoming d) = numPagesMigratingACK d"
  "numRestartACK (gpuRetrieveIncoming d) = numRestartACK d"
  "numRDMARestartACK (gpuRetrieveIncoming d) = numRDMARestartACK d"
  "idGenerator (gpuRetrieveIncoming d) = idGenerator d"
  "toSendToMMU (gpuRetrieveIncoming d) = toSendToMMU d"
  "contexts (gpuRetrieveIncoming d) = contexts d"
  "pageTable (gpuRetrieveIncoming d) = pageTable d"
  "memAllocator (gpuRetrieveIncoming d) = memAllocator d"
  "RemotePMCPorts (gpuRetrieveIncoming d) = RemotePMCPorts d"
  "devices (gpuRetrieveIncoming d) = devices d"
  by (simp_all add: gpuRetrieveIncoming_def queuedReqs_def)

lemma migInv_RDMADrainRsp:
  assumes inv: "migInv d" and inc: "incoming (gpuPort d) = RDMADrainRspToDriver mt # rest"
    and r: "processRDMADrainRsp (gpuRetrieveIncoming d) = Inr (p, d')"
  shows "migInv d'"
proof -
  have kind: "rspKind (RDMADrainRspToDriver mt) = Some RDMADrain" by simp
  note z = waiting_others [OF inv inc kind]
  show ?thesis
  proof (cases "numRDMADrainACK d = 1")
    case True
    from processRDMADrainRsp_Inr [OF r] True obtain cur where
      cur: "currentPageMigrationReq d = Some cur"
      and d': "d' = (gpuRetrieveIncoming d)\<lparr>requestsToSend := requestsToSend d @
                 shootDownCmds (idGenerator d) (portName (gpuPort (gpuRetrieveIncoming d))) (GPUs d)
                   (requestedVAddrs cur (GetNumGPUs (gpuRetrieveIncoming d))) (mig_PID cur) (CurrAccessingGPUs cur),
               numRDMADrainACK := 0,
               numShootDownACK := of_nat (length (CurrAccessingGPUs cur)),
               idGenerator := idGenerator d + length (CurrAccessingGPUs cur)\<rparr>"
      by auto
    have wf: "length (CurrAccessingGPUs cur) < 2 ^ 64"
      using migInvD(8) [OF inv cur] by (simp add: wfMigrationReq_def)
    show ?thesis
    proof (rule migInv_response [OF inv inc kind, where ?k1.0 = ShootDown
          and n = "length (CurrAccessingGPUs cur)"])
      show "ackCounter k d' =
           (if k = RDMADrain then ackCounter k d - 1
            else if k = ShootDown \<and> ackCounter RDMADrain d = 1
                 then of_nat (length (CurrAccessingGPUs cur)) else 0)" for k
        using True z(1) [of k] by (cases k) (simp_all add: d')
      show "queuedReqs k d' = queuedReqs k d +
           (if k = ShootDown \<and> ackCounter RDMADrain d = 1 then length (CurrAccessingGPUs cur) else 0)" for k
        using True by (simp add: d' queuedReqs_def)
      show "countKind reqKind PageMigration (requestsToSend d') = 0"
        using migInvD(3) [OF inv] by (simp add: d')
      show "ackCounter RDMADrain d = 1 \<and> length (CurrAccessingGPUs cur) = 0"
        if "\<not> isCurrentlyHandlingMigrationReq d'" using that z(2) by (simp add: d')
    qed (insert wf, simp_all add: d')
  next
    case False
    from processRDMADrainRsp_Inr [OF r] False have
      d': "d' = (gpuRetrieveIncoming d)\<lparr>numRDMADrainACK := numRDMADrainACK d - 1\<rparr>"
      by auto
    show ?thesis
    proof (rule migInv_response [OF inv inc kind, where ?k1.0 = ShootDown and n = 0])
      show "ackCounter k d' =
           (if k = RDMADrain then ackCounter k d - 1
            else if k = ShootDown \<and> ackCounter RDMADrain d = 1 then of_nat 0 else 0)" for k
        using False z(1) [of k] by (cases k) (simp_all add: d')
      show "queuedReqs k d' = queuedReqs k d +
           (if k = ShootDown \<and> ackCounter RDMADrain d = 1 then 0 else 0)" for k
        by (simp add: d' queuedReqs_def)
      show "countKind reqKind PageMigration (requestsToSend d') = 0"
        using migInvD(3) [OF inv] by (simp add: d')
      show "ackCounter RDMADrain d = 1 \<and> (0::nat) = 0"
        if "\<not> isCurrentlyHandlingMigrationReq d'" using that z(2) by (simp add: d')
    qed (simp_all add: d')
  qed
qed

lemma migInv_ShootDownCompleteRsp:
  assumes inv: "migInv d" and inc: "incoming (gpuPort d) = ShootDownCompleteRsp mt # rest"
    and perm: "\<And>ks. mset (ord ks) = mset ks"
    and r: "processShootdownCompleteRsp allocFrame ord (gpuRetrieveIncoming d) = Inr (p, d')"
  shows "migInv d'"
proof -
  have kind: "rspKind (ShootDownCompleteRsp mt) = Some ShootDown" by simp
  note z = waiting_others [OF inv inc kind]
  let ?g = "gpuRetrieveIncoming d"
  show ?thesis
  proof (cases "numShootDownACK d = 1")
    case True
    from processShootdownCompleteRsp_Inr [OF r] True obtain cur pmc ctx where
      cur: "currentPageMigrationReq d = Some cur"
      and mp: "migratePages allocFrame ctx pmc (visitPageVaddrs ord cur (findRequestingGPUs cur ?g))
            (?g\<lparr>numShootDownACK := 0\<rparr>) = Inr d'"
      by auto
    let ?ps = "visitPageVaddrs ord cur (findRequestingGPUs cur ?g)"
    from migratePages_frame [OF mp] obtain a pt reqs n where
      d': "d' = ?g\<lparr>numShootDownACK := 0, memAllocator := a, pageTable := pt,
          migrationReqToSendToCP := migrationReqToSendToCP d @ reqs,
          numPagesMigratingACK := numPagesMigratingACK d + of_nat (length ?ps),
          idGenerator := n\<rparr>" and len: "length reqs = length ?ps"
      by auto
    have "length ?ps = length (requestedVAddrs cur (GetNumGPUs ?g))"
      by (rule length_visitPageVaddrs) (rule perm)
    then have wf: "length ?ps < 2 ^ 64"
      using migInvD(8) [OF inv cur] by (simp add: wfMigrationReq_def GetNumGPUs_def)
    show ?thesis
    proof (rule migInv_response [OF inv inc kind, where ?k1.0 = PageMigration
          and n = "length ?ps"])
      show "ackCounter k d' =
           (if k = ShootDown then ackCounter k d - 1
            else if k = PageMigration \<and> ackCounter ShootDown d = 1
                 then of_nat (length ?ps) else 0)" for k
        using True z(1) [of k] by (cases k) (simp_all add: d')
      show "queuedReqs k d' = queuedReqs k d +
           (if k = PageMigration \<and> ackCounter ShootDown d = 1 then length ?ps else 0)" for k
        using True by (simp add: d' queuedReqs_def len)
      show "countKind reqKind PageMigration (requestsToSend d') = 0"
        using migInvD(3) [OF inv] by (simp add: d')
      show "ackCounter ShootDown d = 1 \<and> length ?ps = 0"
        if "\<not> isCurrentlyHandlingMigrationReq d'" using that z(2) by (simp add: d')
    qed (insert wf, simp_all add: d')
  next
    case False
    from processShootdownCompleteRsp_Inr [OF r] False have
      d': "d' = ?g\<lparr>numShootDownACK := numShootDownACK d - 1\<rparr>"
      by auto
    show ?thesis
    proof (rule migInv_response [OF inv inc kind, where ?k1.0 = PageMigration and n = 0])
      show "ackCounter k d' =
           (if k = ShootDown then ackCounter k d - 1
            else if k = PageMigration \<and> ackCounter ShootDown d = 1 then of_nat 0 else 0)" for k
        using False z(1) [of k] by (cases k) (simp_all add: d')
      show "queuedReqs k d' = queuedReqs k d +
           (if k = PageMigration \<and> ackCounter ShootDown d = 1 then 0 else 0)" for k
        by (simp add: d' queuedReqs_def)
      show "countKind reqKind PageMigration (requestsToSend d') = 0"
        using migInvD(3) [OF inv] by (simp add: d')
      show "ackCounter ShootDown d = 1 \<and> (0::nat) = 0"
        if "\<not> isCurrentlyHandlingMigrationReq d'" using that z(2) by (simp add: d')
    qed (simp_all add: d')
  qed
qed

lemma migInv_PageMigrationRsp:
  assumes inv: "migInv d" and inc: "incoming (gpuPort d) = PageMigrationRspToDriver mt # rest"
    and r: "processPageMigrationRspFromCP ord (gpuRetrieveIncoming d) = Inr (p, d')"
  shows "migInv d'"
proof -
  have kind: "rspKind (PageMigrationRspToDriver mt) = Some PageMigration" by simp
  note z = waiting_others [OF inv inc kind]
  let ?g = "gpuRetrieveIncoming d"
  show ?thesis
  proof (cases "numPagesMigratingACK d = 1")
    case True
    from processPageMigrationRspFromCP_Inr [OF r] True obtain cur rsp where
      cur: "currentPageMigrationReq d = Some cur"
      and d': "d' = ?g\<lparr>requestsToSend := requestsToSend d @
                 gpuRestartCmds (idGenerator d) (portName (gpuPort ?g)) (GPUs d) (CurrAccessingGPUs cur),
               toSendToMMU := Some rsp,
               numRestartACK := numRestartACK d + of_nat (length (CurrAccessingGPUs cur)),
               numPagesMigratingACK := 0,
               isCurrentlyMigratingOnePage := False,
               idGenerator := Suc (idGenerator d + length (CurrAccessingGPUs cur))\<rparr>"
      by auto
    have wf: "length (CurrAccessingGPUs cur) < 2 ^ 64"
      using migInvD(8) [OF inv cur] by (simp add: wfMigrationReq_def)
    show ?thesis
    proof (rule migInv_response [OF inv inc kind, where ?k1.0 = GPURestart
          and n = "length (CurrAccessingGPUs cur)"])
      show "ackCounter k d' =
           (if k = PageMigration then ackCounter k d - 1
            else if k = GPURestart \<and> ackCounter PageMigration d = 1
                 then of_nat (length (CurrAccessingGPUs cur)) else 0)" for k
        using True z(1) [of k] by (cases k) (simp_all add: d')
      show "queuedReqs k d' = queuedReqs k d +
           (if k = GPURestart \<and> ackCounter PageMigration d = 1 then length (CurrAccessingGPUs cur) else 0)" for k
        using True by (simp add: d' queuedReqs_def)
      show "countKind reqKind PageMigration (requestsToSend d') = 0"
        using migInvD(3) [OF inv] by (simp add: d')
      show "ackCounter PageMigration d = 1 \<and> length (CurrAccessingGPUs cur) = 0"
        if "\<not> isCurrentlyHandlingMigrationReq d'" using that z(2) by (simp add: d')
    qed (insert wf, simp_all add: d')
  next
    case False
    from processPageMigrationRspFromCP_Inr [OF r] False have
      d': "d' = ?g\<lparr>numPagesMigratingACK := numPagesMigratingACK d - 1,
                 isCurrentlyMigratingOnePage := False\<rparr>"
      by auto
    show ?thesis
    proof (rule migInv_response [OF inv inc kind, where ?k1.0 = GPURestart and n = 0])
      show "ackCounter k d' =
           (if k = PageMigration then ackCounter k d - 1
            else if k = GPURestart \<and> ackCounter PageMigration d = 1 then of_nat 0 else 0)" for k
        using False z(1) [of k] by (cases k) (simp_all add: d')
      show "queuedReqs k d' = queuedReqs k d +
           (if k = GPURestart \<and> ackCounter PageMigration d = 1 then 0 else 0)" for k
        by (simp add: d' queuedReqs_def)
      show "countKind reqKind PageMigration (requestsToSend d') = 0"
        using migInvD(3) [OF inv] by (simp add: d')
      show "ackCounter PageMigration d = 1 \<and> (0::nat) = 0"
        if "\<not> isCurrentlyHandlingMigrationReq d'" using that z(2) by (simp add: d')
    qed (simp_all add: d')
  qed
qed

lemma migInv_GPURestartRsp:
  assumes inv: "migInv d" and inc: "incoming (gpuPort d) = GPURestartRsp mt # rest"
    and r: "handleGPURestartRsp (gpuRetrieveIncoming d) = (p, d')"
  shows "migInv d'"
proof -
  have kind: "rspKind (GPURestartRsp mt) = Some GPURestart" by simp
  note z = waiting_others [OF inv inc kind]
  let ?g = "gpuRetrieveIncoming d"
  have len: "length (GPUs d) < 2 ^ 64" using migInvD(7) [OF inv] .
  show ?thesis
  proof (cases "numRestartACK d = 1")
    case True
    have d': "d' = ?g\<lparr>requestsToSend := requestsToSend d @
                     rdmaRestartCmds (idGenerator d) (portName (gpuPort ?g)) (GPUs d),
                   numRDMARestartACK := numRDMARestartACK d + of_nat (length (GPUs d)),
                   numRestartACK := 0,
                   idGenerator := idGenerator d + length (GPUs d)\<rparr>"
      using r True by (simp add: handleGPURestartRsp_eq)
    show ?thesis
    proof (rule migInv_response [OF inv inc kind, where ?k1.0 = RDMARestart
          and n = "length (GPUs d)"])
      show "ackCounter k d' =
           (if k = GPURestart then ackCounter k d - 1
            else if k = RDMARestart \<and> ackCounter GPURestart d = 1
                 then of_nat (length (GPUs d)) else 0)" for k
        using True z(1) [of k] by (cases k) (simp_all add: d')
      show "queuedReqs k d' = queuedReqs k d +
           (if k = RDMARestart \<and> ackCounter GPURestart d = 1 then length (GPUs d) else 0)" for k
        using True by (simp add: d' queuedReqs_def)
      show "countKind reqKind PageMigration (requestsToSend d') = 0"
        using migInvD(3) [OF inv] by (simp add: d')
      show "ackCounter GPURestart d = 1 \<and> length (GPUs d) = 0"
        if "\<not> isCurrentlyHandlingMigrationReq d'" using that z(2) by (simp add: d')
    qed (insert len, simp_all add: d')
  next
    case False
    have d': "d' = ?g\<lparr>numRestartACK := numRestartACK d - 1\<rparr>"
      using r False by (simp add: handleGPURestartRsp_eq)
    show ?thesis
    proof (rule migInv_response [OF inv inc kind, where ?k1.0 = RDMARestart and n = 0])
      show "ackCounter k d' =
           (if k = GPURestart then ackCounter k d - 1
            else if k = RDMARestart \<and> ackCounter GPURestart d = 1 then of_nat 0 else 0)" for k
        using False z(1) [of k] by (cases k) (simp_all add: d')
      show "queuedReqs k d' = queuedReqs k d +
           (if k = RDMARestart \<and> ackCounter GPURestart d = 1 then 0 else 0)" for k
        by (simp add: d' queuedReqs_def)
      show "countKind reqKind PageMigration (requestsToSend d') = 0"
        using migInvD(3) [OF inv] by (simp add: d')
      show "ackCounter GPURestart d = 1 \<and> (0::nat) = 0"
        if "\<not> isCurrentlyHandlingMigrationReq d'" using that z(2) by (simp add: d')
    qed (simp_all add: d')
  qed
qed

lemma migInv_RDMARestartRsp:
  assumes inv: "migInv d" and inc: "incoming (gpuPort d) = RDMARestartRspToDriver mt # rest"
    and r: "processRDMARestartRspToDriver (gpuRetrieveIncoming d) = (p, d')"
  shows "migInv d'"
proof -
  have kind: "rspKind (RDMARestartRspToDriver mt) = Some RDMARestart" by simp
  note z = waiting_others [OF inv inc kind]
  let ?g = "gpuRetrieveIncoming d"
  have d': "d' = (if numRDMARestartACK d = 1
            then ?g\<lparr>currentPageMigrationReq := None, isCurrentlyHandlingMigrationReq := False,
                   numRDMARestartACK := 0\<rparr>
            else ?g\<lparr>numRDMARestartACK := numRDMARestartACK d - 1\<rparr>)"
    using r by (auto simp: processRDMARestartRspToDriver_eq)
  show ?thesis
  proof (rule migInv_response [OF inv inc kind, where ?k1.0 = RDMADrain and n = 0])
    show "ackCounter k d' =
         (if k = RDMARestart then ackCounter k d - 1
          else if k = RDMADrain \<and> ackCounter RDMARestart d = 1 then of_nat 0 else 0)" for k
      using z(1) [of k] by (cases k) (simp_all add: d')
    show "queuedReqs k d' = queuedReqs k d +
         (if k = RDMADrain \<and> ackCounter RDMARestart d = 1 then 0 else 0)" for k
      by (simp add: d' queuedReqs_def)
    show "countKind reqKind PageMigration (requestsToSend d') = 0"
      using migInvD(3) [OF inv] by (simp add: d')
    show "ackCounter RDMARestart d = 1 \<and> (0::nat) = 0"
      if "\<not> isCurrentlyHandlingMigrationReq d'" using that z(2) by (simp add: d' split: if_splits)
  qed (simp_all add: d')
qed

subsection \<open>The protocol invariant: the other steps of a tick\<close>

lemma migInv_cong:
  assumes "\<And>k. ackCounter k d' = ackCounter k d" and "\<And>k. queuedReqs k d' = queuedReqs k d"
    and "\<And>k. sentReqs k d' = sentReqs k d" and "\<And>k. retrievedRsps k d' = retrievedRsps k d"
    and "\<And>k. waitingRsps k d' = waitingRsps k d"
    and "countKind reqKind PageMigration (requestsToSend d')
         = countKind reqKind PageMigration (requestsToSend d)"
    and "isCurrentlyMigratingOnePage d' = isCurrentlyMigratingOnePage d"
    and "isCurrentlyHandlingMigrationReq d' = isCurrentlyHandlingMigrationReq d"
    and "GPUs d' = GPUs d" and "currentPageMigrationReq d' = currentPageMigrationReq d"
    and "incoming (mmuPort d') = incoming (mmuPort d)"
  shows "migInv d' = migInv d"
  unfolding migInv_def by (simp add: assms)

lemma processLaunchKernelReturn_frame:
  assumes "processLaunchKernelReturn rspTo d = Inr (p, d')"
  shows "\<exists>cs. d' = d\<lparr>contexts := cs\<rparr>"
proof -
  from assms obtain req ci qi where
    "d' = updateQueue ci qi (updateHead (RemoveReq req)) d
     \<or> d' = updateQueue ci qi (\<lambda>q. Dequeue (q\<lparr>IsRunning := False\<rparr>))
              (updateQueue ci qi (updateHead (RemoveReq req)) d)"
    by (auto simp: processLaunchKernelReturn_def bindE_eq_Inr Let_def split: if_splits)
  then show ?thesis
    by (auto simp: updateQueue_def updateContext_def)
qed

lemma migInv_LaunchKernelRsp:
  assumes inv: "migInv d" and inc: "incoming (gpuPort d) = LaunchKernelRsp mt rspTo # rest"
    and r: "processLaunchKernelReturn rspTo (gpuRetrieveIncoming d) = Inr (p, d')"
  shows "migInv d'"
proof -
  let ?g = "gpuRetrieveIncoming d"
  have gp: "gpuPort ?g = (gpuPort d)\<lparr>incoming := rest,
      retrieved := retrieved (gpuPort d) @ [LaunchKernelRsp mt rspTo]\<rparr>"
    using inc by (simp add: RetrieveIncoming_def)
  have "migInv ?g = migInv d"
    by (rule migInv_cong) (simp_all add: sentReqs_def retrievedRsps_def waitingRsps_def RetrieveIncoming_def inc)
  moreover obtain cs where "d' = ?g\<lparr>contexts := cs\<rparr>"
    using processLaunchKernelReturn_frame [OF r] by blast
  ultimately show ?thesis using inv by simp
qed

lemma migInv_processReturnReq:
  assumes inv: "migInv d" and perm: "\<And>ks. mset (ord ks) = mset ks"
    and r: "processReturnReq allocFrame ord d = Inr (p, d')"
  shows "migInv d'"
proof (cases "incoming (gpuPort d)")
  case Nil
  then show ?thesis using r inv by (simp add: processReturnReq_def)
next
  case (Cons m rest)
  show ?thesis
  proof (cases m)
    case (LaunchKernelRsp mt rspTo)
    then show ?thesis using r Cons migInv_LaunchKernelRsp [OF inv, of mt rspTo rest p d']
      by (simp add: processReturnReq_def)
  next
    case (RDMADrainRspToDriver mt)
    then show ?thesis using r Cons migInv_RDMADrainRsp [OF inv, of mt rest p d']
      by (simp add: processReturnReq_def)
  next
    case (ShootDownCompleteRsp mt)
    then show ?thesis
      using r Cons migInv_ShootDownCompleteRsp [OF inv _ perm, of mt rest allocFrame p d']
      by (simp add: processReturnReq_def)
  next
    case (PageMigrationRspToDriver mt)
    then show ?thesis using r Cons migInv_PageMigrationRsp [OF inv, of mt rest ord p d']
      by (simp add: processReturnReq_def)
  next
    case (GPURestartRsp mt)
    then show ?thesis using r Cons migInv_GPURestartRsp [OF inv, of mt rest p d']
      by (simp add: processReturnReq_def)
  next
    case (RDMARestartRspToDriver mt)
    then show ?thesis using r Cons migInv_RDMARestartRsp [OF inv, of mt rest p d']
      by (simp add: processReturnReq_def)
  qed (insert r Cons inv, simp_all add: processReturnReq_def)
qed

lemma migInv_sendToGPUs:
  assumes inv: "migInv d"
  shows "migInv (snd (sendToGPUs accepted d))"
proof (cases "requestsToSend d")
  case Nil
  then show ?thesis using inv by (simp add: sendToGPUs_def)
next
  case (Cons req rest)
  show ?thesis
  proof (cases accepted)
    case False
    then show ?thesis using inv Cons by (simp add: sendToGPUs_def gpuSend_def)
  next
    case True
    let ?d' = "d\<lparr>gpuPort := (gpuPort d)\<lparr>sent := sent (gpuPort d) @ [req]\<rparr>, requestsToSend := rest\<rparr>"
    have d': "snd (sendToGPUs accepted d) = ?d'"
      using True Cons by (simp add: sendToGPUs_def gpuSend_def)
    note D = migInvD [OF inv]
    have npm: "reqKind req \<noteq> Some PageMigration"
      and rest0: "countKind reqKind PageMigration rest = 0"
      using D(3) Cons by (auto split: if_splits)
    have "migInv ?d'"
    proof (rule migInvI)
      show "unat (ackCounter k ?d') + retrievedRsps k ?d' = queuedReqs k ?d' + sentReqs k ?d'" for k
        using D(1) [of k] Cons by (simp add: queuedReqs_def sentReqs_def retrievedRsps_def)
      show "retrievedRsps k ?d' + waitingRsps k ?d' \<le> sentReqs k ?d'" for k
        using D(2) [of k] by (simp add: sentReqs_def retrievedRsps_def waitingRsps_def)
      show "countKind reqKind PageMigration (requestsToSend ?d') = 0" using rest0 by simp
      show "sentReqs PageMigration ?d' =
          retrievedRsps PageMigration ?d' + (if isCurrentlyMigratingOnePage ?d' then 1 else 0)"
        using D(4) npm by (simp add: sentReqs_def retrievedRsps_def)
      show "k = k'" if "ackCounter k ?d' \<noteq> 0" "ackCounter k' ?d' \<noteq> 0" for k k'
        using that D(5) [of k k'] by simp
      show "ackCounter k ?d' = 0" if "\<not> isCurrentlyHandlingMigrationReq ?d'" for k
        using that D(6) [of k] by simp
      show "length (GPUs ?d') < 2 ^ 64" using D(7) by simp
      show "wfMigrationReq (length (GPUs ?d')) c" if "currentPageMigrationReq ?d' = Some c" for c
        using that D(8) [of c] by simp
      show "wfMMUMsg (length (GPUs ?d')) x" if "x \<in> set (incoming (mmuPort ?d'))" for x
        using that D(9) [of x] by simp
    qed
    then show ?thesis by (simp only: d')
  qed
qed

lemma migInv_sendToMMU:
  assumes inv: "migInv d"
  shows "migInv (snd (sendToMMU accepted d))"
proof -
  have "snd (sendToMMU accepted d) = d
    \<or> (\<exists>rsp. snd (sendToMMU accepted d)
          = d\<lparr>mmuPort := (mmuPort d)\<lparr>sent := sent (mmuPort d) @ [rsp]\<rparr>, toSendToMMU := None\<rparr>)"
    by (auto simp: sendToMMU_def mmuSend_def split: option.splits)
  then show ?thesis
  proof
    assume "snd (sendToMMU accepted d) = d" then show ?thesis using inv by simp
  next
    assume "\<exists>rsp. snd (sendToMMU accepted d)
          = d\<lparr>mmuPort := (mmuPort d)\<lparr>sent := sent (mmuPort d) @ [rsp]\<rparr>, toSendToMMU := None\<rparr>"
    then obtain rsp where e: "snd (sendToMMU accepted d)
          = d\<lparr>mmuPort := (mmuPort d)\<lparr>sent := sent (mmuPort d) @ [rsp]\<rparr>, toSendToMMU := None\<rparr>"
      by blast
    have "migInv (d\<lparr>mmuPort := (mmuPort d)\<lparr>sent := sent (mmuPort d) @ [rsp]\<rparr>, toSendToMMU := None\<rparr>)
          = migInv d"
      by (rule migInv_cong)
        (simp_all add: queuedReqs_def sentReqs_def retrievedRsps_def waitingRsps_def)
    then show ?thesis using inv by (simp only: e)
  qed
qed

lemma migInv_sendMigrationReqToCP:
  assumes inv: "migInv d"
  shows "migInv (snd (sendMigrationReqToCP accepted d))"
proof (cases "accepted \<and> migrationReqToSendToCP d \<noteq> [] \<and> \<not> isCurrentlyMigratingOnePage d")
  case False
  then have "snd (sendMigrationReqToCP accepted d) = d"
    by (auto simp: sendMigrationReqToCP_def gpuSend_def split: list.splits)
  then show ?thesis using inv by simp
next
  case True
  then obtain req rest where q: "migrationReqToSendToCP d = req # rest"
    by (cases "migrationReqToSendToCP d") auto
  let ?d' = "d\<lparr>gpuPort := (gpuPort d)\<lparr>sent := sent (gpuPort d) @ [PageMigrationReqToCPMsg req]\<rparr>,
      migrationReqToSendToCP := rest, isCurrentlyMigratingOnePage := True\<rparr>"
  have d': "snd (sendMigrationReqToCP accepted d) = ?d'"
    using True q by (simp add: sendMigrationReqToCP_def gpuSend_def)
  note D = migInvD [OF inv]
  have "migInv ?d'"
  proof (rule migInvI)
    show "unat (ackCounter k ?d') + retrievedRsps k ?d' = queuedReqs k ?d' + sentReqs k ?d'" for k
      using D(1) [of k] q by (simp add: queuedReqs_def sentReqs_def retrievedRsps_def)
    show "retrievedRsps k ?d' + waitingRsps k ?d' \<le> sentReqs k ?d'" for k
      using D(2) [of k] by (simp add: sentReqs_def retrievedRsps_def waitingRsps_def)
    show "countKind reqKind PageMigration (requestsToSend ?d') = 0" using D(3) by simp
    show "sentReqs PageMigration ?d' =
        retrievedRsps PageMigration ?d' + (if isCurrentlyMigratingOnePage ?d' then 1 else 0)"
      using D(4) True by (simp add: sentReqs_def retrievedRsps_def)
    show "k = k'" if "ackCounter k ?d' \<noteq> 0" "ackCounter k' ?d' \<noteq> 0" for k k'
      using that D(5) [of k k'] by simp
    show "ackCounter k ?d' = 0" if "\<not> isCurrentlyHandlingMigrationReq ?d'" for k
      using that D(6) [of k] by simp
    show "length (GPUs ?d') < 2 ^ 64" using D(7) by simp
    show "wfMigrationReq (length (GPUs ?d')) c" if "currentPageMigrationReq ?d' = Some c" for c
      using that D(8) [of c] by simp
    show "wfMMUMsg (length (GPUs ?d')) x" if "x \<in> set (incoming (mmuPort ?d'))" for x
      using that D(9) [of x] by simp
  qed
  then show ?thesis by (simp only: d')
qed

lemma migInv_parseFromMMU:
  assumes inv: "migInv d" and r: "parseFromMMU d = Inr (p, d')"
  shows "migInv d'"
proof (cases "isCurrentlyHandlingMigrationReq d \<or> incoming (mmuPort d) = []")
  case True
  then show ?thesis using parseFromMMU_Inr [OF r] inv by simp
next
  case False
  from parseFromMMU_Inr [OF r] False obtain req rest where
    inc: "incoming (mmuPort d) = PageMigrationReqToDriverMsg req # rest"
    and d': "d' = d\<lparr>requestsToSend := requestsToSend d @
                   drainCmds (idGenerator d) (portName (gpuPort d)) (GPUs d),
                 mmuPort := RetrieveIncoming (mmuPort d),
                 currentPageMigrationReq := Some req,
                 isCurrentlyHandlingMigrationReq := True,
                 numRDMADrainACK := numRDMADrainACK d + of_nat (length (GPUs d)),
                 idGenerator := idGenerator d + length (GPUs d)\<rparr>"
    by auto
  note D = migInvD [OF inv]
  have z: "\<And>k. ackCounter k d = 0" using D(6) False by blast
  have z1: "numRDMADrainACK d = 0" using z [of RDMADrain] by simp
  have len: "unat (of_nat (length (GPUs d)) :: 64 word) = length (GPUs d)"
    using D(7) by (rule unat_of_nat64)
  have mp: "incoming (RetrieveIncoming (mmuPort d)) = rest"
    using inc by (simp add: RetrieveIncoming_def)
  show ?thesis
  proof (rule migInvI)
    show "unat (ackCounter k d') + retrievedRsps k d' = queuedReqs k d' + sentReqs k d'" for k
      using D(1) [of k] z [of k]
      by (cases k) (simp_all add: d' z1 len queuedReqs_def sentReqs_def retrievedRsps_def)
    show "retrievedRsps k d' + waitingRsps k d' \<le> sentReqs k d'" for k
      using D(2) [of k] by (simp add: d' sentReqs_def retrievedRsps_def waitingRsps_def)
    show "countKind reqKind PageMigration (requestsToSend d') = 0" using D(3) by (simp add: d')
    show "sentReqs PageMigration d' =
        retrievedRsps PageMigration d' + (if isCurrentlyMigratingOnePage d' then 1 else 0)"
      using D(4) by (simp add: d' sentReqs_def retrievedRsps_def)
    show "k = k'" if "ackCounter k d' \<noteq> 0" "ackCounter k' d' \<noteq> 0" for k k'
      using that z [of k] z [of k'] by (simp add: d' split: if_splits)
    show "ackCounter k d' = 0" if "\<not> isCurrentlyHandlingMigrationReq d'" for k
      using that by (simp add: d')
    show "length (GPUs d') < 2 ^ 64" using D(7) by (simp add: d')
    show "wfMigrationReq (length (GPUs d')) c" if "currentPageMigrationReq d' = Some c" for c
      using that D(9) [of "PageMigrationReqToDriverMsg req"] inc by (simp add: d')
    show "wfMMUMsg (length (GPUs d')) x" if "x \<in> set (incoming (mmuPort d'))" for x
      using that D(9) [of x] inc by (simp add: d' mp)
  qed
qed

lemma migInv_deliver:
  assumes inv: "migInv d" and wb: "wellBehaved inp d"
  shows "migInv (deliver (gpuArrivals inp) (mmuArrivals inp) d)"
proof (rule migInvI)
  let ?d' = "deliver (gpuArrivals inp) (mmuArrivals inp) d"
  note D = migInvD [OF inv]
  have w2: "\<And>m. m \<in> set (mmuArrivals inp) \<Longrightarrow> wfMMUMsg (length (GPUs d)) m"
    and w3: "\<And>k. retrievedRsps k d + waitingRsps k d + countKind rspKind k (gpuArrivals inp)
           \<le> sentReqs k d"
    using wb unfolding wellBehaved_def by blast+
  show "unat (ackCounter k ?d') + retrievedRsps k ?d' = queuedReqs k ?d' + sentReqs k ?d'" for k
    using D(1) [of k] by (simp add: deliver_def queuedReqs_def sentReqs_def retrievedRsps_def)
  show "retrievedRsps k ?d' + waitingRsps k ?d' \<le> sentReqs k ?d'" for k
    using w3 [of k] by (simp add: deliver_def sentReqs_def retrievedRsps_def waitingRsps_def)
  show "countKind reqKind PageMigration (requestsToSend ?d') = 0" using D(3) by (simp add: deliver_def)
  show "sentReqs PageMigration ?d' =
      retrievedRsps PageMigration ?d' + (if isCurrentlyMigratingOnePage ?d' then 1 else 0)"
    using D(4) by (simp add: deliver_def sentReqs_def retrievedRsps_def)
  show "k = k'" if "ackCounter k ?d' \<noteq> 0" "ackCounter k' ?d' \<noteq> 0" for k k'
    using that D(5) [of k k'] by (simp add: deliver_def)
  show "ackCounter k ?d' = 0" if "\<not> isCurrentlyHandlingMigrationReq ?d'" for k
    using that D(6) [of k] by (simp add: deliver_def)
  show "length (GPUs ?d') < 2 ^ 64" using D(7) by (simp add: deliver_def)
  show "wfMigrationReq (length (GPUs ?d')) c" if "currentPageMigrationReq ?d' = Some c" for c
    using that D(8) [of c] by (simp add: deliver_def)
  show "wfMMUMsg (length (GPUs ?d')) x" if "x \<in> set (incoming (mmuPort ?d'))" for x
    using that D(9) [of x] w2 [of x] by (auto simp: deliver_def)
qed

lemma Tick_Inr:
  "Tick env allocFrame mws d = Inr (p, d') \<longleftrightarrow>
     (\<exists>r5 r6 r7.
        processReturnReq allocFrame (mapOrder env)
          (snd (tickMiddlewares mws
             (snd (sendMigrationReqToCP (cpAccepts env)
                (snd (sendToMMU (mmuAccepts env) (snd (sendToGPUs (gpuAccepts env) d)))))))) = Inr r5
      \<and> processNewCommand mws (snd r5) = Inr r6
      \<and> parseFromMMU (snd r6) = Inr r7
      \<and> d' = snd r7
      \<and> p = (fst r7 \<or> fst r6 \<or> fst r5
             \<or> fst (tickMiddlewares mws
                 (snd (sendMigrationReqToCP (cpAccepts env)
                    (snd (sendToMMU (mmuAccepts env) (snd (sendToGPUs (gpuAccepts env) d)))))))
             \<or> fst (sendMigrationReqToCP (cpAccepts env)
                    (snd (sendToMMU (mmuAccepts env) (snd (sendToGPUs (gpuAccepts env) d)))))
             \<or> fst (sendToMMU (mmuAccepts env) (snd (sendToGPUs (gpuAccepts env) d)))
             \<or> fst (sendToGPUs (gpuAccepts env) d)))"
  unfolding Tick_def by (simp add: case_prod_unfold Let_def bindE_eq_Inr) blast

lemma migInv_Tick:
  assumes inv: "migInv d" and mw: "middlewaresKeep keepsMigInv mws"
    and perm: "\<And>ks. mset (mapOrder env ks) = mset ks"
    and t: "Tick env allocFrame mws d = Inr (p, d')"
  shows "migInv d'"
proof -
  let ?d1 = "snd (sendToGPUs (gpuAccepts env) d)"
  let ?d2 = "snd (sendToMMU (mmuAccepts env) ?d1)"
  let ?d3 = "snd (sendMigrationReqToCP (cpAccepts env) ?d2)"
  let ?d4 = "snd (tickMiddlewares mws ?d3)"
  have 3: "migInv ?d3"
    by (intro migInv_sendMigrationReqToCP migInv_sendToMMU migInv_sendToGPUs inv)
  have 4: "migInv ?d4"
    using tickMiddlewares_rel [OF launchClosed_keepsMigInv mw, of ?d3] 3
    by (simp add: keepsMigInv_def)
  from t obtain r5 r6 r7 where
    5: "processReturnReq allocFrame (mapOrder env) ?d4 = Inr r5"
    and 6: "processNewCommand mws (snd r5) = Inr r6" and 7: "parseFromMMU (snd r6) = Inr r7"
    and d': "d' = snd r7"
    unfolding Tick_Inr by blast
  obtain p5 d5 where r5: "r5 = (p5, d5)" by (cases r5)
  obtain p6 d6 where r6: "r6 = (p6, d6)" by (cases r6)
  obtain p7 where r7: "r7 = (p7, d')" using d' by (cases r7) simp
  note 5 = 5 [unfolded r5] and 6 = 6 [unfolded r5 r6 snd_conv] and 7 = 7 [unfolded r6 r7 snd_conv]
  have "migInv d5" using 4 perm 5 by (rule migInv_processReturnReq)
  then have "migInv d6"
    using processNewCommand_rel [OF launchClosed_keepsMigInv mw 6] by (simp add: keepsMigInv_def)
  then show ?thesis using 7 by (rule migInv_parseFromMMU)
qed

subsection \<open>The protocol invariant holds in every state the driver passes through\<close>

lemma reachable_migInv:
  assumes "reachable allocFrame mws d" and "middlewaresKeep keepsMigInv mws"
  shows "migInv d"
  using assms(1)
proof (induction rule: reachable.induct)
  case (start d)
  then show ?case by (rule freshDriver_migInv)
next
  case (arrive d inp)
  then show ?case by (simp add: migInv_deliver)
next
  case (toGPUs d accepted)
  then show ?case by (simp add: migInv_sendToGPUs)
next
  case (toMMU d accepted)
  then show ?case by (simp add: migInv_sendToMMU)
next
  case (toCP d accepted)
  then show ?case by (simp add: migInv_sendMigrationReqToCP)
next
  case (hooks d)
  then show ?case
    using tickMiddlewares_rel [OF launchClosed_keepsMigInv assms(2), of d]
    by (simp add: keepsMigInv_def)
next
  case (fromGPUs d ord madeProgress d')
  show ?case
    by (rule migInv_processReturnReq [OF fromGPUs.IH _ fromGPUs.hyps(3)])
      (simp add: fromGPUs.hyps(2))
next
  case (admit d madeProgress d')
  then show ?case
    using processNewCommand_rel [OF launchClosed_keepsMigInv assms(2), of d madeProgress d']
    by (simp add: keepsMigInv_def)
next
  case (fromMMU d madeProgress d')
  then show ?case using migInv_parseFromMMU by blast
qed

lemma reachable_Tick:
  assumes r: "reachable allocFrame mws d" and wb: "wellBehaved inp d"
    and t: "Tick (tickEnv inp) allocFrame mws (deliver (gpuArrivals inp) (mmuArrivals inp) d)
            = Inr (p, d')"
  shows "reachable allocFrame mws d'"
proof -
  let ?env = "tickEnv inp"
  let ?d0 = "deliver (gpuArrivals inp) (mmuArrivals inp) d"
  let ?d1 = "snd (sendToGPUs (gpuAccepts ?env) ?d0)"
  let ?d2 = "snd (sendToMMU (mmuAccepts ?env) ?d1)"
  let ?d3 = "snd (sendMigrationReqToCP (cpAccepts ?env) ?d2)"
  let ?d4 = "snd (tickMiddlewares mws ?d3)"
  have 4: "reachable allocFrame mws ?d4"
    by (intro reachable.hooks reachable.toCP reachable.toMMU reachable.toGPUs
        reachable.arrive r wb)
  from t obtain r5 r6 r7 where
    5: "processReturnReq allocFrame (mapOrder ?env) ?d4 = Inr r5"
    and 6: "processNewCommand mws (snd r5) = Inr r6" and 7: "parseFromMMU (snd r6) = Inr r7"
    and d': "d' = snd r7"
    unfolding Tick_Inr by blast
  have perm: "\<forall>ks. mset (mapOrder ?env ks) = mset ks"
    using wb unfolding wellBehaved_def by blast
  have "reachable allocFrame mws (snd r5)"
    using reachable.fromGPUs [OF 4 perm, of "fst r5" "snd r5"] 5 by simp
  then have "reachable allocFrame mws (snd r6)"
    using reachable.admit [of allocFrame mws "snd r5" "fst r6" "snd r6"] 6 by simp
  then show ?thesis
    using reachable.fromMMU [of allocFrame mws "snd r6" "fst r7" "snd r7"] 7 d' by simp
qed

lemma launchClosed_sameAckCounters:
  "launchClosed (sameAckCounters :: 'a Driver \<Rightarrow> 'a Driver \<Rightarrow> bool)"
  unfolding launchClosed_def sameAckCounters_def by simp

subsection \<open>The counters at the phase transitions\<close>

lemma drain_transition:
  assumes inv: "migInv d" and inc: "incoming (gpuPort d) = RDMADrainRspToDriver mt # rest"
    and r: "processRDMADrainRsp (gpuRetrieveIncoming d) = Inr (p, d')"
  shows "if ackCounter RDMADrain d = 1
         then \<exists>cur. currentPageMigrationReq d = Some cur
            \<and> (\<forall>k. unat (ackCounter k d') = (if k = ShootDown then length (CurrAccessingGPUs cur) else 0))
            \<and> queuedReqs ShootDown d' = queuedReqs ShootDown d + length (CurrAccessingGPUs cur)
         else \<forall>k. ackCounter k d' = (if k = RDMADrain then ackCounter k d - 1 else 0)"
proof -
  have kind: "rspKind (RDMADrainRspToDriver mt) = Some RDMADrain" by simp
  note z = waiting_others [OF inv inc kind]
  show ?thesis
  proof (cases "numRDMADrainACK d = 1")
    case True
    from processRDMADrainRsp_Inr [OF r] True obtain cur where
      cur: "currentPageMigrationReq d = Some cur"
      and d': "d' = (gpuRetrieveIncoming d)\<lparr>requestsToSend := requestsToSend d @
                 shootDownCmds (idGenerator d) (portName (gpuPort (gpuRetrieveIncoming d))) (GPUs d)
                   (requestedVAddrs cur (GetNumGPUs (gpuRetrieveIncoming d))) (mig_PID cur) (CurrAccessingGPUs cur),
               numRDMADrainACK := 0,
               numShootDownACK := of_nat (length (CurrAccessingGPUs cur)),
               idGenerator := idGenerator d + length (CurrAccessingGPUs cur)\<rparr>"
      by auto
    have wf: "length (CurrAccessingGPUs cur) < 2 ^ 64"
      using migInvD(8) [OF inv cur] by (simp add: wfMigrationReq_def)
    have "unat (ackCounter k d') = (if k = ShootDown then length (CurrAccessingGPUs cur) else 0)" for k
      using z(1) [of k] by (cases k) (simp_all add: d' unat_of_nat64 [OF wf])
    moreover have "queuedReqs ShootDown d' = queuedReqs ShootDown d + length (CurrAccessingGPUs cur)"
      by (simp add: d' queuedReqs_def)
    ultimately show ?thesis using True cur by simp
  next
    case False
    from processRDMADrainRsp_Inr [OF r] False have
      d': "d' = (gpuRetrieveIncoming d)\<lparr>numRDMADrainACK := numRDMADrainACK d - 1\<rparr>"
      by auto
    have "ackCounter k d' = (if k = RDMADrain then ackCounter k d - 1 else 0)" for k
      using z(1) [of k] by (cases k) (simp_all add: d')
    then show ?thesis using False by simp
  qed
qed

lemma shootdown_transition:
  assumes inv: "migInv d" and inc: "incoming (gpuPort d) = ShootDownCompleteRsp mt # rest"
    and perm: "\<And>ks. mset (ord ks) = mset ks"
    and r: "processShootdownCompleteRsp allocFrame ord (gpuRetrieveIncoming d) = Inr (p, d')"
  shows "if ackCounter ShootDown d = 1
         then \<exists>cur. currentPageMigrationReq d = Some cur
            \<and> (\<forall>k. unat (ackCounter k d')
                   = (if k = PageMigration then length (requestedVAddrs cur (length (GPUs d))) else 0))
            \<and> queuedReqs PageMigration d'
                 = queuedReqs PageMigration d + length (requestedVAddrs cur (length (GPUs d)))
         else \<forall>k. ackCounter k d' = (if k = ShootDown then ackCounter k d - 1 else 0)"
proof -
  have kind: "rspKind (ShootDownCompleteRsp mt) = Some ShootDown" by simp
  note z = waiting_others [OF inv inc kind]
  let ?g = "gpuRetrieveIncoming d"
  show ?thesis
  proof (cases "numShootDownACK d = 1")
    case True
    from processShootdownCompleteRsp_Inr [OF r] True obtain cur pmc ctx where
      cur: "currentPageMigrationReq d = Some cur"
      and mp: "migratePages allocFrame ctx pmc (visitPageVaddrs ord cur (findRequestingGPUs cur ?g))
            (?g\<lparr>numShootDownACK := 0\<rparr>) = Inr d'"
      by auto
    let ?ps = "visitPageVaddrs ord cur (findRequestingGPUs cur ?g)"
    from migratePages_frame [OF mp] obtain a pt reqs n where
      d': "d' = ?g\<lparr>numShootDownACK := 0, memAllocator := a, pageTable := pt,
          migrationReqToSendToCP := migrationReqToSendToCP d @ reqs,
          numPagesMigratingACK := numPagesMigratingACK d + of_nat (length ?ps),
          idGenerator := n\<rparr>" and len: "length reqs = length ?ps"
      by auto
    have l: "length ?ps = length (requestedVAddrs cur (length (GPUs d)))"
      using length_visitPageVaddrs [of ord cur ?g] perm by (simp add: GetNumGPUs_def)
    then have wf: "length ?ps < 2 ^ 64"
      using migInvD(8) [OF inv cur] by (simp add: wfMigrationReq_def)
    have "unat (ackCounter k d')
        = (if k = PageMigration then length (requestedVAddrs cur (length (GPUs d))) else 0)" for k
      using z(1) [of k] by (cases k) (simp_all add: d' l unat_of_nat64 [OF wf [unfolded l]])
    moreover have "queuedReqs PageMigration d'
        = queuedReqs PageMigration d + length (requestedVAddrs cur (length (GPUs d)))"
      using l by (simp add: d' queuedReqs_def len)
    ultimately show ?thesis using True cur by simp
  next
    case False
    from processShootdownCompleteRsp_Inr [OF r] False have
      d': "d' = ?g\<lparr>numShootDownACK := numShootDownACK d - 1\<rparr>"
      by auto
    have "ackCounter k d' = (if k = ShootDown then ackCounter k d - 1 else 0)" for k
      using z(1) [of k] by (cases k) (simp_all add: d')
    then show ?thesis using False by simp
  qed
qed

lemma pagecopy_transition:
  assumes inv: "migInv d" and inc: "incoming (gpuPort d) = PageMigrationRspToDriver mt # rest"
    and r: "processPageMigrationRspFromCP ord (gpuRetrieveIncoming d) = Inr (p, d')"
  shows "if ackCounter PageMigration d = 1
         then \<exists>cur. currentPageMigrationReq d = Some cur
            \<and> (\<forall>k. unat (ackCounter k d') = (if k = GPURestart then length (CurrAccessingGPUs cur) else 0))
            \<and> queuedReqs GPURestart d' = queuedReqs GPURestart d + length (CurrAccessingGPUs cur)
         else \<forall>k. ackCounter k d' = (if k = PageMigration then ackCounter k d - 1 else 0)"
proof -
  have kind: "rspKind (PageMigrationRspToDriver mt) = Some PageMigration" by simp
  note z = waiting_others [OF inv inc kind]
  let ?g = "gpuRetrieveIncoming d"
  show ?thesis
  proof (cases "numPagesMigratingACK d = 1")
    case True
    from processPageMigrationRspFromCP_Inr [OF r] True obtain cur rsp where
      cur: "currentPageMigrationReq d = Some cur"
      and d': "d' = ?g\<lparr>requestsToSend := requestsToSend d @
                 gpuRestartCmds (idGenerator d) (portName (gpuPort ?g)) (GPUs d) (CurrAccessingGPUs cur),
               toSendToMMU := Some rsp,
               numRestartACK := numRestartACK d + of_nat (length (CurrAccessingGPUs cur)),
               numPagesMigratingACK := 0,
               isCurrentlyMigratingOnePage := False,
               idGenerator := Suc (idGenerator d + length (CurrAccessingGPUs cur))\<rparr>"
      by auto
    have wf: "length (CurrAccessingGPUs cur) < 2 ^ 64"
      using migInvD(8) [OF inv cur] by (simp add: wfMigrationReq_def)
    have "unat (ackCounter k d') = (if k = GPURestart then length (CurrAccessingGPUs cur) else 0)" for k
      using z(1) [of k] by (cases k) (simp_all add: d' unat_of_nat64 [OF wf])
    moreover have "queuedReqs GPURestart d' = queuedReqs GPURestart d + length (CurrAccessingGPUs cur)"
      by (simp add: d' queuedReqs_def)
    ultimately show ?thesis using True cur by simp
  next
    case False
    from processPageMigrationRspFromCP_Inr [OF r] False have
      d': "d' = ?g\<lparr>numPagesMigratingACK := numPagesMigratingACK d - 1,
                 isCurrentlyMigratingOnePage := False\<rparr>"
      by auto
    have "ackCounter k d' = (if k = PageMigration then ackCounter k d - 1 else 0)" for k
      using z(1) [of k] by (cases k) (simp_all add: d')
    then show ?thesis using False by simp
  qed
qed

lemma gpurestart_transition:
  assumes inv: "migInv d" and inc: "incoming (gpuPort d) = GPURestartRsp mt # rest"
    and r: "handleGPURestartRsp (gpuRetrieveIncoming d) = (p, d')"
  shows "if ackCounter GPURestart d = 1
         then (\<forall>k. unat (ackCounter k d') = (if k = RDMARestart then length (GPUs d) else 0))
            \<and> queuedReqs RDMARestart d' = queuedReqs RDMARestart d + length (GPUs d)
         else \<forall>k. ackCounter k d' = (if k = GPURestart then ackCounter k d - 1 else 0)"
proof -
  have kind: "rspKind (GPURestartRsp mt) = Some GPURestart" by simp
  note z = waiting_others [OF inv inc kind]
  let ?g = "gpuRetrieveIncoming d"
  have len: "length (GPUs d) < 2 ^ 64" using migInvD(7) [OF inv] .
  show ?thesis
  proof (cases "numRestartACK d = 1")
    case True
    have d': "d' = ?g\<lparr>requestsToSend := requestsToSend d @
                     rdmaRestartCmds (idGenerator d) (portName (gpuPort ?g)) (GPUs d),
                   numRDMARestartACK := numRDMARestartACK d + of_nat (length (GPUs d)),
                   numRestartACK := 0,
                   idGenerator := idGenerator d + length (GPUs d)\<rparr>"
      using r True by (simp add: handleGPURestartRsp_eq)
    have "unat (ackCounter k d') = (if k = RDMARestart then length (GPUs d) else 0)" for k
      using z(1) [of k] by (cases k) (simp_all add: d' unat_of_nat64 [OF len])
    moreover have "queuedReqs RDMARestart d' = queuedReqs RDMARestart d + length (GPUs d)"
      by (simp add: d' queuedReqs_def)
    ultimately show ?thesis using True by simp
  next
    case False
    have d': "d' = ?g\<lparr>numRestartACK := numRestartACK d - 1\<rparr>"
      using r False by (simp add: handleGPURestartRsp_eq)
    have "ackCounter k d' = (if k = GPURestart then ackCounter k d - 1 else 0)" for k
      using z(1) [of k] by (cases k) (simp_all add: d')
    then show ?thesis using False by simp
  qed
qed

lemma rdmarestart_transition:
  assumes inv: "migInv d" and inc: "incoming (gpuPort d) = RDMARestartRspToDriver mt # rest"
    and r: "processRDMARestartRspToDriver (gpuRetrieveIncoming d) = (p, d')"
  shows "if ackCounter RDMARestart d = 1
         then (\<forall>k. ackCounter k d' = 0) \<and> \<not> isCurrentlyHandlingMigrationReq d'
         else (\<forall>k. ackCounter k d' = (if k = RDMARestart then ackCounter k d - 1 else 0))
              \<and> isCurrentlyHandlingMigrationReq d'"
proof -
  have kind: "rspKind (RDMARestartRspToDriver mt) = Some RDMARestart" by simp
  note z = waiting_others [OF inv inc kind]
  let ?g = "gpuRetrieveIncoming d"
  have d': "d' = (if numRDMARestartACK d = 1
            then ?g\<lparr>currentPageMigrationReq := None, isCurrentlyHandlingMigrationReq := False,
                   numRDMARestartACK := 0\<rparr>
            else ?g\<lparr>numRDMARestartACK := numRDMARestartACK d - 1\<rparr>)"
    using r by (auto simp: processRDMARestartRspToDriver_eq)
  have c: "ackCounter k d' = (if k = RDMARestart then ackCounter k d - 1 else 0)" for k
    using z(1) [of k] by (cases k) (simp_all add: d')
  show ?thesis
  proof (cases "numRDMARestartACK d = 1")
    case True
    then have "ackCounter k d' = 0" for k using c [of k] by simp
    moreover have "\<not> isCurrentlyHandlingMigrationReq d'" using True by (simp add: d')
    ultimately show ?thesis using True by simp
  next
    case False
    then have "isCurrentlyHandlingMigrationReq d'" using z(2) by (simp add: d')
    then show ?thesis using False c by simp
  qed
qed

lemma response_transition:
  assumes inv: "migInv d" and perm: "\<And>ks. mset (ord ks) = mset ks"
    and r: "processReturnReq allocFrame ord d = Inr (p, d')"
    and inc: "incoming (gpuPort d) = m # rest" and kind: "rspKind m = Some k"
  shows "ackCounter k d \<noteq> 0 \<and> (\<forall>k'. k' \<noteq> k \<longrightarrow> ackCounter k' d = 0)
     \<and> (if ackCounter k d = 1
        then (case k of
            RDMADrain \<Rightarrow> \<exists>cur. currentPageMigrationReq d = Some cur
              \<and> (\<forall>k'. unat (ackCounter k' d')
                     = (if k' = ShootDown then length (CurrAccessingGPUs cur) else 0))
              \<and> queuedReqs ShootDown d' = queuedReqs ShootDown d + length (CurrAccessingGPUs cur)
          | ShootDown \<Rightarrow> \<exists>cur. currentPageMigrationReq d = Some cur
              \<and> (\<forall>k'. unat (ackCounter k' d')
                     = (if k' = PageMigration then length (requestedVAddrs cur (length (GPUs d))) else 0))
              \<and> queuedReqs PageMigration d'
                   = queuedReqs PageMigration d + length (requestedVAddrs cur (length (GPUs d)))
          | PageMigration \<Rightarrow> \<exists>cur. currentPageMigrationReq d = Some cur
              \<and> (\<forall>k'. unat (ackCounter k' d')
                     = (if k' = GPURestart then length (CurrAccessingGPUs cur) else 0))
              \<and> queuedReqs GPURestart d' = queuedReqs GPURestart d + length (CurrAccessingGPUs cur)
          | GPURestart \<Rightarrow>
                (\<forall>k'. unat (ackCounter k' d') = (if k' = RDMARestart then length (GPUs d) else 0))
              \<and> queuedReqs RDMARestart d' = queuedReqs RDMARestart d + length (GPUs d)
          | RDMARestart \<Rightarrow> (\<forall>k'. ackCounter k' d' = 0) \<and> \<not> isCurrentlyHandlingMigrationReq d')
        else (\<forall>k'. ackCounter k' d' = (if k' = k then ackCounter k d - 1 else 0)))"
proof -
  have a: "ackCounter k d \<noteq> 0" using waiting_counter(1) [OF inv inc kind] .
  have b: "\<forall>k'. k' \<noteq> k \<longrightarrow> ackCounter k' d = 0" using waiting_others(1) [OF inv inc kind] by blast
  have c: "if ackCounter k d = 1
        then (case k of
            RDMADrain \<Rightarrow> \<exists>cur. currentPageMigrationReq d = Some cur
              \<and> (\<forall>k'. unat (ackCounter k' d')
                     = (if k' = ShootDown then length (CurrAccessingGPUs cur) else 0))
              \<and> queuedReqs ShootDown d' = queuedReqs ShootDown d + length (CurrAccessingGPUs cur)
          | ShootDown \<Rightarrow> \<exists>cur. currentPageMigrationReq d = Some cur
              \<and> (\<forall>k'. unat (ackCounter k' d')
                     = (if k' = PageMigration then length (requestedVAddrs cur (length (GPUs d))) else 0))
              \<and> queuedReqs PageMigration d'
                   = queuedReqs PageMigration d + length (requestedVAddrs cur (length (GPUs d)))
          | PageMigration \<Rightarrow> \<exists>cur. currentPageMigrationReq d = Some cur
              \<and> (\<forall>k'. unat (ackCounter k' d')
                     = (if k' = GPURestart then length (CurrAccessingGPUs cur) else 0))
              \<and> queuedReqs GPURestart d' = queuedReqs GPURestart d + length (CurrAccessingGPUs cur)
          | GPURestart \<Rightarrow>
                (\<forall>k'. unat (ackCounter k' d') = (if k' = RDMARestart then length (GPUs d) else 0))
              \<and> queuedReqs RDMARestart d' = queuedReqs RDMARestart d + length (GPUs d)
          | RDMARestart \<Rightarrow> (\<forall>k'. ackCounter k' d' = 0) \<and> \<not> isCurrentlyHandlingMigrationReq d')
        else (\<forall>k'. ackCounter k' d' = (if k' = k then ackCounter k d - 1 else 0))"
  proof (cases m)
    case (RDMADrainRspToDriver mt)
    then have k: "k = RDMADrain" using kind by simp
    have "processRDMADrainRsp (gpuRetrieveIncoming d) = Inr (p, d')"
      using r inc RDMADrainRspToDriver by (simp add: processReturnReq_def)
    from drain_transition [OF inv inc [unfolded RDMADrainRspToDriver] this]
    show ?thesis unfolding k by simp
  next
    case (ShootDownCompleteRsp mt)
    then have k: "k = ShootDown" using kind by simp
    have "processShootdownCompleteRsp allocFrame ord (gpuRetrieveIncoming d) = Inr (p, d')"
      using r inc ShootDownCompleteRsp by (simp add: processReturnReq_def)
    from shootdown_transition [OF inv inc [unfolded ShootDownCompleteRsp] perm this]
    show ?thesis unfolding k by simp
  next
    case (PageMigrationRspToDriver mt)
    then have k: "k = PageMigration" using kind by simp
    have "processPageMigrationRspFromCP ord (gpuRetrieveIncoming d) = Inr (p, d')"
      using r inc PageMigrationRspToDriver by (simp add: processReturnReq_def)
    from pagecopy_transition [OF inv inc [unfolded PageMigrationRspToDriver] this]
    show ?thesis unfolding k by simp
  next
    case (GPURestartRsp mt)
    then have k: "k = GPURestart" using kind by simp
    have "handleGPURestartRsp (gpuRetrieveIncoming d) = (p, d')"
      using r inc GPURestartRsp by (simp add: processReturnReq_def)
    from gpurestart_transition [OF inv inc [unfolded GPURestartRsp] this]
    show ?thesis unfolding k by simp
  next
    case (RDMARestartRspToDriver mt)
    then have k: "k = RDMARestart" using kind by simp
    have "processRDMARestartRspToDriver (gpuRetrieveIncoming d) = (p, d')"
      using r inc RDMARestartRspToDriver by (simp add: processReturnReq_def)
    from rdmarestart_transition [OF inv inc [unfolded RDMARestartRspToDriver] this]
    show ?thesis unfolding k by simp
  qed (insert kind, simp_all)
  show ?thesis using a b c by (intro conjI)
qed

lemma parseFromMMU_transition:
  assumes inv: "migInv d" and r: "parseFromMMU d = Inr (p, d')"
  shows "if p then (\<forall>k. ackCounter k d = 0)
            \<and> (\<forall>k. unat (ackCounter k d') = (if k = RDMADrain then length (GPUs d) else 0))
            \<and> queuedReqs RDMADrain d' = queuedReqs RDMADrain d + length (GPUs d)
         else d' = d"
proof (cases "isCurrentlyHandlingMigrationReq d \<or> incoming (mmuPort d) = []")
  case True
  then show ?thesis using parseFromMMU_Inr [OF r] by simp
next
  case False
  from parseFromMMU_Inr [OF r] False obtain req rest where p: p
    and d': "d' = d\<lparr>requestsToSend := requestsToSend d @
                   drainCmds (idGenerator d) (portName (gpuPort d)) (GPUs d),
                 mmuPort := RetrieveIncoming (mmuPort d),
                 currentPageMigrationReq := Some req,
                 isCurrentlyHandlingMigrationReq := True,
                 numRDMADrainACK := numRDMADrainACK d + of_nat (length (GPUs d)),
                 idGenerator := idGenerator d + length (GPUs d)\<rparr>"
    by auto
  have z: "\<And>k. ackCounter k d = 0" using migInvD(6) [OF inv] False by blast
  have len: "unat (of_nat (length (GPUs d)) :: 64 word) = length (GPUs d)"
    using migInvD(7) [OF inv] by (rule unat_of_nat64)
  have "unat (ackCounter k d') = (if k = RDMADrain then length (GPUs d) else 0)" for k
    using z [of k] z [of RDMADrain] by (cases k) (simp_all add: d' len)
  moreover have "queuedReqs RDMADrain d' = queuedReqs RDMADrain d + length (GPUs d)"
    by (simp add: d' queuedReqs_def)
  ultimately show ?thesis using p z by simp
qed

lemma sends_sameAckCounters:
  "sameAckCounters d (snd (sendToGPUs accepted d))"
  "sameAckCounters d (snd (sendToMMU accepted d))"
  "sameAckCounters d (snd (sendMigrationReqToCP accepted d))"
  "sameAckCounters d (deliver gpuMsgs mmuMsgs d)"
  by (auto simp: sameAckCounters_def sendToGPUs_def sendToMMU_def sendMigrationReqToCP_def
      gpuSend_def mmuSend_def deliver_def split: list.splits option.splits)

lemma processReturnReq_sameAckCounters:
  assumes "processReturnReq allocFrame ord d = Inr (p, d')"
    and "incoming (gpuPort d) = [] \<or> rspKind (hd (incoming (gpuPort d))) = None"
  shows "sameAckCounters d d'"
proof (cases "incoming (gpuPort d)")
  case Nil
  then show ?thesis using assms(1) by (simp add: processReturnReq_def sameAckCounters_def)
next
  case (Cons m rest)
  then have k: "rspKind m = None" using assms(2) by simp
  show ?thesis
  proof (cases m)
    case (LaunchKernelRsp mt rspTo)
    then have "processLaunchKernelReturn rspTo (gpuRetrieveIncoming d) = Inr (p, d')"
      using assms(1) Cons by (simp add: processReturnReq_def)
    from processLaunchKernelReturn_frame [OF this] show ?thesis
      by (auto simp: sameAckCounters_def)
  qed (insert k assms(1) Cons, simp_all add: processReturnReq_def sameAckCounters_def)
qed

subsection \<open>Concrete runs\<close>

lemma reachable_run:
  "reachable allocFrame mws d \<Longrightarrow> wellBehavedRun allocFrame mws inputs d \<Longrightarrow>
   run allocFrame mws inputs d = Inr d' \<Longrightarrow> reachable allocFrame mws d'"
proof (induction inputs arbitrary: d)
  case Nil
  then show ?case by simp
next
  case (Cons inp rest)
  from Cons.prems(3) obtain r where
    t: "Tick (tickEnv inp) allocFrame mws (deliver (gpuArrivals inp) (mmuArrivals inp) d) = Inr r"
    and r: "run allocFrame mws rest (snd r) = Inr d'"
    by (auto simp: bindE_eq_Inr)
  have wb: "wellBehaved inp d" and wr: "wellBehavedRun allocFrame mws rest (snd r)"
    using Cons.prems(2) t by (auto split: prod.splits)
  have "reachable allocFrame mws (snd r)"
    using reachable_Tick [OF Cons.prems(1) wb, of "fst r" "snd r"] t by simp
  then show ?case using wr r by (rule Cons.IH)
qed

lemma all_AckKind:
  "(\<forall>k. P k) \<longleftrightarrow> P RDMADrain \<and> P ShootDown \<and> P PageMigration \<and> P GPURestart \<and> P RDMARestart"
  by (metis AckKind.exhaust)

lemma wellBehaved_eval:
  "wellBehaved inp d \<longleftrightarrow>
     (\<forall>ks. mset (mapOrder (tickEnv inp) ks) = mset ks)
   \<and> list_all (wfMMUMsg (length (GPUs d))) (mmuArrivals inp)
   \<and> list_all (\<lambda>k. retrievedRsps k d + waitingRsps k d + countKind rspKind k (gpuArrivals inp)
           \<le> sentReqs k d) [RDMADrain, ShootDown, PageMigration, GPURestart, RDMARestart]"
  unfolding wellBehaved_def by (subst all_AckKind) (simp add: list_all_iff)

lemmas tick_eval =
  Tick_def deliver_def sendToGPUs_def sendToMMU_def sendMigrationReqToCP_def gpuSend_def mmuSend_def
  processReturnReq_def processNewCommand_def processNewCommandFromContext_def
  parseFromMMU_def initiateRDMADrain_def mmuRetrieveIncoming_def
  gpuRetrieveIncoming_def RetrieveIncoming_def newMeta_def at_def indexW_def Let_def
  processRDMADrainRsp_def sendShootDownReqs_def requestedVAddrs_def GetNumGPUs_def
  processShootdownCompleteRsp_def findRequestingGPUs_def findContext_def visitPageVaddrs_def
  pageVaddrs_def migrateOnePage_def preparePageForMigration_def AllocatePageWithGivenVAddr_def
  pageTableUpdate_def processPageMigrationRspFromCP_def prepareGPURestartReqs_def
  preparePageMigrationRspToMMU_def handleGPURestartRsp_def prepareRDMARestartReqs_def
  processRDMARestartRspToDriver_def
  wellBehaved_eval retrievedRsps_def waitingRsps_def sentReqs_def queuedReqs_def inFlight_def
  wfMigrationReq_def

lemmas example_eval =
  exampleEnv_def exampleMigDriver_def exampleDriver_def exampleContext_def exampleMigrationReq_def
  exampleRspMeta_def exampleInputs_def exampleAllocFrame_def exampleQuietInput_def

lemma freshDriver_exampleMigDriver: "freshDriver exampleMigDriver"
  by (simp add: freshDriver_def all_AckKind exampleMigDriver_def exampleDriver_def)

subsection \<open>One page copy at a time\<close>

lemma keepsMigInv_exampleQuietMiddleware: "middlewaresKeep keepsMigInv [exampleQuietMiddleware]"
  by (simp add: middlewaresKeep_def keepsMigInv_def exampleQuietMiddleware_def)

lemma pagecopy_response_flag:
  assumes inv: "migInv d" and perm: "\<And>ks. mset (ord ks) = mset ks"
    and inc: "incoming (gpuPort d) = PageMigrationRspToDriver mt # rest"
    and r: "processReturnReq allocFrame ord d = Inr (p, d')"
  shows "isCurrentlyMigratingOnePage d \<and> \<not> isCurrentlyMigratingOnePage d'
     \<and> inFlight PageMigration d = 1 \<and> inFlight PageMigration d' = 0"
proof -
  have kind: "rspKind (PageMigrationRspToDriver mt) = Some PageMigration" by simp
  have f: "isCurrentlyMigratingOnePage d" using waiting_counter(2) [OF inv inc kind] by simp
  have r': "processPageMigrationRspFromCP ord (gpuRetrieveIncoming d) = Inr (p, d')"
    using r inc by (simp add: processReturnReq_def)
  have f': "\<not> isCurrentlyMigratingOnePage d'"
    using processPageMigrationRspFromCP_Inr [OF r'] by (auto split: if_splits)
  have inv': "migInv d'" using inv perm r by (rule migInv_processReturnReq)
  show ?thesis
    using f f' migInvD(4) [OF inv] migInvD(4) [OF inv'] by (simp add: inFlight_def)
qed

subsection \<open>The migration context\<close>

lemma launchClosed_sameMigrationContext:
  "launchClosed (sameMigrationContext :: 'a Driver \<Rightarrow> 'a Driver \<Rightarrow> bool)"
  unfolding launchClosed_def sameMigrationContext_def by (simp add: updateContext_def)

lemma sends_sameMigrationContext:
  "sameMigrationContext d (snd (sendToGPUs accepted d))"
  "sameMigrationContext d (snd (sendToMMU accepted d))"
  "sameMigrationContext d (snd (sendMigrationReqToCP accepted d))"
  "sameMigrationContext d (deliver gpuMsgs mmuMsgs d)"
  by (auto simp: sameMigrationContext_def sendToGPUs_def sendToMMU_def sendMigrationReqToCP_def
      gpuSend_def mmuSend_def deliver_def split: list.splits option.splits)

lemma processReturnReq_context:
  assumes r: "processReturnReq allocFrame ord d = Inr (p, d')"
  shows "if (\<exists>mt rest. incoming (gpuPort d) = RDMARestartRspToDriver mt # rest)
            \<and> numRDMARestartACK d = 1
         then \<not> isCurrentlyHandlingMigrationReq d' \<and> currentPageMigrationReq d' = None
         else sameMigrationContext d d'"
proof (cases "incoming (gpuPort d)")
  case Nil
  then show ?thesis using r by (simp add: processReturnReq_def sameMigrationContext_def)
next
  case (Cons m rest)
  let ?g = "gpuRetrieveIncoming d"
  show ?thesis
  proof (cases m)
    case (LaunchKernelRsp mt rspTo)
    then have "processLaunchKernelReturn rspTo ?g = Inr (p, d')"
      using r Cons by (simp add: processReturnReq_def)
    from processLaunchKernelReturn_frame [OF this] show ?thesis
      using Cons LaunchKernelRsp by (auto simp: sameMigrationContext_def)
  next
    case (RDMADrainRspToDriver mt)
    then have "processRDMADrainRsp ?g = Inr (p, d')"
      using r Cons by (simp add: processReturnReq_def)
    from processRDMADrainRsp_Inr [OF this] show ?thesis
      using Cons RDMADrainRspToDriver by (auto simp: sameMigrationContext_def split: if_splits)
  next
    case (ShootDownCompleteRsp mt)
    then have s: "processShootdownCompleteRsp allocFrame ord ?g = Inr (p, d')"
      using r Cons by (simp add: processReturnReq_def)
    have "sameMigrationContext d d'"
    proof (cases "numShootDownACK ?g = 1")
      case True
      with processShootdownCompleteRsp_Inr [OF s] obtain cur pmc ctx where
        "migratePages allocFrame ctx pmc (visitPageVaddrs ord cur (findRequestingGPUs cur ?g))
            (?g\<lparr>numShootDownACK := 0\<rparr>) = Inr d'"
        by auto
      from migratePages_frame [OF this] show ?thesis
        by (auto simp: sameMigrationContext_def)
    next
      case False
      with processShootdownCompleteRsp_Inr [OF s] show ?thesis
        by (auto simp: sameMigrationContext_def)
    qed
    then show ?thesis using Cons ShootDownCompleteRsp by simp
  next
    case (PageMigrationRspToDriver mt)
    then have "processPageMigrationRspFromCP ord ?g = Inr (p, d')"
      using r Cons by (simp add: processReturnReq_def)
    from processPageMigrationRspFromCP_Inr [OF this] show ?thesis
      using Cons PageMigrationRspToDriver by (auto simp: sameMigrationContext_def split: if_splits)
  next
    case (GPURestartRsp mt)
    then have "handleGPURestartRsp ?g = (p, d')"
      using r Cons by (simp add: processReturnReq_def)
    then show ?thesis
      using Cons GPURestartRsp
      by (auto simp: handleGPURestartRsp_eq sameMigrationContext_def split: if_splits)
  next
    case (RDMARestartRspToDriver mt)
    then have "processRDMARestartRspToDriver ?g = (p, d')"
      using r Cons by (simp add: processReturnReq_def)
    then show ?thesis
      using Cons RDMARestartRspToDriver
      by (auto simp: processRDMARestartRspToDriver_eq sameMigrationContext_def split: if_splits)
  qed (insert r Cons, simp_all add: processReturnReq_def sameMigrationContext_def)
qed

lemma processReturnReq_prepares_response:
  assumes inc: "incoming (gpuPort d) = PageMigrationRspToDriver mt # rest"
    and c: "numPagesMigratingACK d = 1"
    and r: "processReturnReq allocFrame ord d = Inr (p, d')"
  shows "\<exists>rsp. toSendToMMU d' = Some rsp \<and> Some (OriginalReq rsp) = currentPageMigrationReq d"
proof -
  have "processPageMigrationRspFromCP ord (gpuRetrieveIncoming d) = Inr (p, d')"
    using r inc by (simp add: processReturnReq_def)
  from processPageMigrationRspFromCP_Inr [OF this] c show ?thesis by auto
qed

subsection \<open>What processReturnReq retrieves and reports\<close>

lemma processReturnReq_gpuPort:
  assumes r: "processReturnReq allocFrame ord d = Inr (p, d')"
  shows "(case incoming (gpuPort d) of
            [] \<Rightarrow> gpuPort d' = gpuPort d
          | m # rest \<Rightarrow>
              if recognisedRsp m
              then gpuPort d' = (gpuPort d)\<lparr>incoming := rest, retrieved := retrieved (gpuPort d) @ [m]\<rparr>
              else gpuPort d' = gpuPort d)"
proof (cases "incoming (gpuPort d)")
  case Nil
  then show ?thesis using r by (simp add: processReturnReq_def)
next
  case (Cons m rest)
  let ?g = "gpuRetrieveIncoming d"
  have g: "gpuPort ?g = (gpuPort d)\<lparr>incoming := rest, retrieved := retrieved (gpuPort d) @ [m]\<rparr>"
    using Cons by (simp add: RetrieveIncoming_def)
  show ?thesis
  proof (cases m)
    case (LaunchKernelRsp mt rspTo)
    then have "processLaunchKernelReturn rspTo ?g = Inr (p, d')"
      using r Cons by (simp add: processReturnReq_def)
    from processLaunchKernelReturn_frame [OF this] show ?thesis
      using Cons LaunchKernelRsp g by auto
  next
    case (RDMADrainRspToDriver mt)
    then have "processRDMADrainRsp ?g = Inr (p, d')"
      using r Cons by (simp add: processReturnReq_def)
    from processRDMADrainRsp_Inr [OF this] show ?thesis
      using Cons RDMADrainRspToDriver g by (auto split: if_splits)
  next
    case (ShootDownCompleteRsp mt)
    then have s: "processShootdownCompleteRsp allocFrame ord ?g = Inr (p, d')"
      using r Cons by (simp add: processReturnReq_def)
    have "gpuPort d' = gpuPort ?g"
    proof (cases "numShootDownACK ?g = 1")
      case True
      with processShootdownCompleteRsp_Inr [OF s] obtain cur pmc ctx where
        "migratePages allocFrame ctx pmc (visitPageVaddrs ord cur (findRequestingGPUs cur ?g))
            (?g\<lparr>numShootDownACK := 0\<rparr>) = Inr d'"
        by auto
      from migratePages_frame [OF this] show ?thesis by auto
    next
      case False
      with processShootdownCompleteRsp_Inr [OF s] show ?thesis by auto
    qed
    then show ?thesis using Cons ShootDownCompleteRsp g by simp
  next
    case (PageMigrationRspToDriver mt)
    then have "processPageMigrationRspFromCP ord ?g = Inr (p, d')"
      using r Cons by (simp add: processReturnReq_def)
    from processPageMigrationRspFromCP_Inr [OF this] show ?thesis
      using Cons PageMigrationRspToDriver g by (auto split: if_splits)
  next
    case (GPURestartRsp mt)
    then have "handleGPURestartRsp ?g = (p, d')"
      using r Cons by (simp add: processReturnReq_def)
    then show ?thesis
      using Cons GPURestartRsp g by (auto simp: handleGPURestartRsp_eq split: if_splits)
  next
    case (RDMARestartRspToDriver mt)
    then have "processRDMARestartRspToDriver ?g = (p, d')"
      using r Cons by (simp add: processReturnReq_def)
    then show ?thesis
      using Cons RDMARestartRspToDriver g
      by (auto simp: processRDMARestartRspToDriver_eq split: if_splits)
  qed (insert r Cons, simp_all add: processReturnReq_def)
qed

lemma processReturnReq_reports:
  assumes r: "processReturnReq allocFrame ord d = Inr (p, d')"
  shows "p \<longleftrightarrow> (case incoming (gpuPort d) of
            [] \<Rightarrow> False
          | m # rest \<Rightarrow> recognisedRsp m
              \<and> \<not> ((\<exists>mt. m = ShootDownCompleteRsp mt) \<and> numShootDownACK d \<noteq> 1))"
proof (cases "incoming (gpuPort d)")
  case Nil
  then show ?thesis using r by (simp add: processReturnReq_def)
next
  case (Cons m rest)
  let ?g = "gpuRetrieveIncoming d"
  show ?thesis
  proof (cases m)
    case (LaunchKernelRsp mt rspTo)
    then have "processLaunchKernelReturn rspTo ?g = Inr (p, d')"
      using r Cons by (simp add: processReturnReq_def)
    then have p
      by (auto simp: processLaunchKernelReturn_def bindE_eq_Inr Let_def split: if_splits)
    then show ?thesis using Cons LaunchKernelRsp by simp
  next
    case (RDMADrainRspToDriver mt)
    then have "processRDMADrainRsp ?g = Inr (p, d')"
      using r Cons by (simp add: processReturnReq_def)
    from processRDMADrainRsp_Inr [OF this] show ?thesis
      using Cons RDMADrainRspToDriver by simp
  next
    case (ShootDownCompleteRsp mt)
    then have s: "processShootdownCompleteRsp allocFrame ord ?g = Inr (p, d')"
      using r Cons by (simp add: processReturnReq_def)
    from processShootdownCompleteRsp_Inr [OF s] show ?thesis
      using Cons ShootDownCompleteRsp by (auto split: if_splits)
  next
    case (PageMigrationRspToDriver mt)
    then have "processPageMigrationRspFromCP ord ?g = Inr (p, d')"
      using r Cons by (simp add: processReturnReq_def)
    from processPageMigrationRspFromCP_Inr [OF this] show ?thesis
      using Cons PageMigrationRspToDriver by simp
  next
    case (GPURestartRsp mt)
    then have "handleGPURestartRsp ?g = (p, d')"
      using r Cons by (simp add: processReturnReq_def)
    then show ?thesis
      using Cons GPURestartRsp by (auto simp: handleGPURestartRsp_eq split: if_splits)
  next
    case (RDMARestartRspToDriver mt)
    then have "processRDMARestartRspToDriver ?g = (p, d')"
      using r Cons by (simp add: processReturnReq_def)
    then show ?thesis
      using Cons RDMARestartRspToDriver
      by (auto simp: processRDMARestartRspToDriver_eq split: if_splits)
  qed (insert r Cons, simp_all add: processReturnReq_def)
qed

subsection \<open>The page-copy phase\<close>







subsection \<open>The context of the migrating process\<close>


section \<open>The claims\<close>

text \<open>
  Claim C5. \<open>distributeWGToGPUs\<close> computes
  \<open>num_wg = ceil(gx/wgx) * ceil(gy/wgy) * ceil(gz/wgz)\<close> from the first packet and
  \<open>wg_per_cu = ceil(num_wg / sum of the members' CU counts)\<close>, reserves
  \<open>cu_count * wg_per_cu\<close> workgroups for each member in order, with cumulative
  boundaries that start at 0, and the last boundary is at least \<open>num_wg\<close>. This holds
  for every launch whose members exist and have CU counts that are not negative, with a
  positive total below \<open>2^62\<close>, whose grid and workgroup sizes are not zero and whose
  workgroup count fits \<open>uint32\<close> (so that nothing wraps). On every input a result is
  returned only if the last boundary covers the number of workgroups the code computed:
  a violation is the panic \<open>NotAllWGAllocated\<close>.
\<close>

theorem distributeWGToGPUs_boundaries:
  assumes "0 \<le> g" and "g < int (length devs)"
    and "members = UnifiedGPUIDs (devs ! nat g)"
    and "\<forall>m\<in>set members. 0 \<le> m \<and> m < int (length devs)"
    and "cus = memberCUs devs members"
    and "\<forall>c\<in>set cus. 0 \<le> c" and "0 < sum_list cus" and "sum_list cus < 2 ^ 62"
    and "packetArray = pkt0 # pkts"
    and "GridSizeX pkt0 \<noteq> 0" and "GridSizeY pkt0 \<noteq> 0" and "GridSizeZ pkt0 \<noteq> 0"
    and "WorkgroupSizeX pkt0 \<noteq> 0" and "WorkgroupSizeY pkt0 \<noteq> 0"
    and "WorkgroupSizeZ pkt0 \<noteq> 0"
    and "num_wg = spec_num_wg pkt0" and "num_wg < 2 ^ 32"
    and "wg_per_cu = int (ceilDiv num_wg (nat (sum_list cus)))"
  shows "distributeWGToGPUs devs g packetArray = Inr (spec_wg_dist wg_per_cu cus)
       \<and> int num_wg \<le> last (spec_wg_dist wg_per_cu cus)
       \<and> (\<forall>devs' g' packetArray' wgDist.
             distributeWGToGPUs devs' g' packetArray' = Inr wgDist \<longrightarrow>
             (\<exists>p n. index packetArray' 0 = Inr p \<and> totalWGCountOf p = Inr n \<and> n \<le> last wgDist))"
  using distributeWGToGPUs_ok(1,2) [OF assms] distributeWGToGPUs_checked by blast

theorem distributeWGToGPUs_boundaries_witness:
  "distributeWGToGPUs exampleDevices 3 [examplePacket] = Inr [0, 2, 8]
   \<and> (8::int) \<le> last [0, 2, 8]"
proof -
  have members: "[1, 2] = UnifiedGPUIDs (exampleDevices ! nat 3)"
    by (simp add: exampleDevices_def)
  have cus: "[1, 3] = memberCUs exampleDevices [1, 2]"
    by (simp add: exampleDevices_def memberCUs_def)
  have num_wg: "8 = spec_num_wg examplePacket"
    by (simp add: examplePacket_def spec_num_wg_def ceilDiv_def)
  have wg_per_cu: "(2::int) = int (ceilDiv 8 (nat (sum_list [1, 3])))"
    by (simp add: ceilDiv_def)
  have "distributeWGToGPUs exampleDevices 3 [examplePacket] = Inr (spec_wg_dist 2 [1, 3])
      \<and> int 8 \<le> last (spec_wg_dist 2 [1, 3])"
    using distributeWGToGPUs_boundaries [where g = 3 and devs = exampleDevices
      and members = "[1, 2]" and cus = "[1, 3]" and packetArray = "[examplePacket]"
      and ?pkt0.0 = examplePacket and pkts = "[]" and num_wg = 8 and wg_per_cu = 2,
      OF _ _ members _ cus _ _ _ _ _ _ _ _ _ _ num_wg _ wg_per_cu]
    by (simp add: exampleDevices_def examplePacket_def)
  then show ?thesis by (simp add: spec_wg_dist_def)
qed

text \<open>
  Claim C4. For a unified multi-GPU launch over members with CU counts \<open>c1..ck\<close>
  (members that exist, CU counts not negative with a positive total below \<open>2^62\<close>,
  non-zero sizes in the first packet, a workgroup count that fits \<open>uint32\<close>, one packet
  per member): the boundary array has \<open>k + 1\<close> entries, starts at 0 and is sorted, so
  the ranges \<open>[wg_dist[i], wg_dist[i+1])\<close> are contiguous, disjoint and in member order,
  and their total size is at least \<open>num_wg\<close>; exactly the members with a non-empty range
  get one launch request each, in member order, whose filter is the closure over
  \<open>wg_dist\<close> and the member's position; that filter accepts a workgroup iff its
  row-major flattened id lies in the member's range (for workgroup ids that are not
  negative and a flattened id that fits \<open>int\<close>); and every id in \<open>[0, num_wg)\<close> lies in
  exactly one member's range.
\<close>

theorem unified_launch_partition:
  assumes "at (contexts d) ci = Inr ctx" and "at (queues ctx) qi = Inr queue"
    and "0 \<le> GPUID queue" and "GPUID queue < int (length (devices d))"
    and "members = UnifiedGPUIDs (devices d ! nat (GPUID queue))"
    and "\<forall>m\<in>set members. 0 \<le> m \<and> m < int (length (devices d))"
    and "cus = memberCUs (devices d) members"
    and "\<forall>c\<in>set cus. 0 \<le> c" and "0 < sum_list cus" and "sum_list cus < 2 ^ 62"
    and "packetArray = pkt0 # pkts"
    and "GridSizeX pkt0 \<noteq> 0" and "GridSizeY pkt0 \<noteq> 0" and "GridSizeZ pkt0 \<noteq> 0"
    and "WorkgroupSizeX pkt0 \<noteq> 0" and "WorkgroupSizeY pkt0 \<noteq> 0"
    and "WorkgroupSizeZ pkt0 \<noteq> 0"
    and "num_wg = spec_num_wg pkt0" and "num_wg < 2 ^ 32"
    and "wg_per_cu = int (ceilDiv num_wg (nat (sum_list cus)))"
    and "\<forall>m\<in>set members. 1 \<le> m \<and> m \<le> int (length (GPUs d))"
    and "length (GPUs d) < 2 ^ 63"
    and "length members \<le> length packetArray" and "length members \<le> length dPacketArray"
    and "wgDist = spec_wg_dist wg_per_cu cus"
  shows "distributeWGToGPUs (devices d) (GPUID queue) packetArray = Inr wgDist
    \<and> length wgDist = Suc (length members) \<and> wgDist ! 0 = 0 \<and> sorted wgDist
    \<and> int num_wg \<le> (\<Sum>i<length members. wgDist ! Suc i - wgDist ! i)
    \<and> (\<exists>d' newReqs.
          processUnifiedMultiGPULaunchKernelCommand co packetArray dPacketArray ci qi d = Inr (True, d')
        \<and> requestsToSend d' = requestsToSend d @ map LaunchKernelReqMsg newReqs
        \<and> map launchView newReqs =
            map (\<lambda>(i, m). (GPUs d ! nat (m - 1), packetArray ! i,
                            Some \<lparr>captured_wgDist = wgDist, currentGPUIndex = int i\<rparr>))
                (filter (\<lambda>(i, m). wgDist ! Suc i \<noteq> wgDist ! i)
                   (zip [0..<length members] members)))
    \<and> (\<forall>i pkt wg.
          i < length members \<and> GridSizeX pkt \<noteq> 0 \<and> GridSizeY pkt \<noteq> 0
          \<and> WorkgroupSizeX pkt \<noteq> 0 \<and> WorkgroupSizeY pkt \<noteq> 0
          \<and> 0 \<le> IDX wg \<and> 0 \<le> IDY wg \<and> 0 \<le> IDZ wg \<and> spec_flattened_id pkt wg < 2 ^ 63 \<longrightarrow>
          WGFilter_apply \<lparr>captured_wgDist = wgDist, currentGPUIndex = int i\<rparr> pkt wg =
            Inr (wgDist ! i \<le> spec_flattened_id pkt wg \<and> spec_flattened_id pkt wg < wgDist ! Suc i))
    \<and> (\<forall>v. 0 \<le> v \<and> v < int num_wg \<longrightarrow>
          (\<exists>!i. i < length members \<and> wgDist ! i \<le> v \<and> v < wgDist ! Suc i))"
proof -
  note ok = unified_launch_ok [OF assms]
  have tele: "(\<Sum>i<length members. wgDist ! Suc i - wgDist ! i) = wgDist ! length members - wgDist ! 0"
    by (rule sum_lessThan_telescope)
  have total: "int num_wg \<le> (\<Sum>i<length members. wgDist ! Suc i - wgDist ! i)"
    using ok(3,5) tele by simp
  have filt: "\<forall>i pkt wg.
          i < length members \<and> GridSizeX pkt \<noteq> 0 \<and> GridSizeY pkt \<noteq> 0
          \<and> WorkgroupSizeX pkt \<noteq> 0 \<and> WorkgroupSizeY pkt \<noteq> 0
          \<and> 0 \<le> IDX wg \<and> 0 \<le> IDY wg \<and> 0 \<le> IDZ wg \<and> spec_flattened_id pkt wg < 2 ^ 63 \<longrightarrow>
          WGFilter_apply \<lparr>captured_wgDist = wgDist, currentGPUIndex = int i\<rparr> pkt wg =
            Inr (wgDist ! i \<le> spec_flattened_id pkt wg \<and> spec_flattened_id pkt wg < wgDist ! Suc i)"
    using WGFilter_apply_spec ok(2) by auto
  have uniq: "\<forall>v. 0 \<le> v \<and> v < int num_wg \<longrightarrow>
          (\<exists>!i. i < length members \<and> wgDist ! i \<le> v \<and> v < wgDist ! Suc i)"
  proof (intro allI impI)
    fix v assume v: "0 \<le> v \<and> v < int num_wg"
    show "\<exists>!i. i < length members \<and> wgDist ! i \<le> v \<and> v < wgDist ! Suc i"
      using sorted_interval_unique [OF ok(4) ok(2), of v] v ok(3,5) by simp
  qed
  show ?thesis
    using ok(1,2,3,4,6) total filt uniq by blast
qed

theorem unified_launch_partition_witness:
  "distributeWGToGPUs (devices exampleDriver) 3 [examplePacket, examplePacket] = Inr [0, 2, 8]
   \<and> sorted [0, 2, 8 :: int]
   \<and> (\<exists>d' newReqs.
         processUnifiedMultiGPULaunchKernelCommand 0 [examplePacket, examplePacket] [0, 0] 0 0
           exampleDriver = Inr (True, d')
       \<and> requestsToSend d' = map LaunchKernelReqMsg newReqs
       \<and> map launchView newReqs =
           [(''GPU1.CP'', examplePacket, Some \<lparr>captured_wgDist = [0, 2, 8], currentGPUIndex = 0\<rparr>),
            (''GPU2.CP'', examplePacket, Some \<lparr>captured_wgDist = [0, 2, 8], currentGPUIndex = 1\<rparr>)])
   \<and> WGFilter_apply \<lparr>captured_wgDist = [0, 2, 8], currentGPUIndex = 1\<rparr> examplePacket
         \<lparr>IDX = 5, IDY = 0, IDZ = 0\<rparr> = Inr True
   \<and> (\<exists>!i. i < (2::nat) \<and> [0, 2, 8 :: int] ! i \<le> 5 \<and> 5 < [0, 2, 8 :: int] ! Suc i)"
proof -
  have h1: "at (contexts exampleDriver) 0 = Inr exampleContext"
    by (simp add: exampleDriver_def at_def)
  have h2: "at (queues exampleContext) 0 = Inr exampleQueue"
    by (simp add: exampleContext_def at_def)
  have h5: "[1, 2] = UnifiedGPUIDs (devices exampleDriver ! nat (GPUID exampleQueue))"
    by (simp add: exampleDriver_def exampleDevices_def exampleQueue_def)
  have h7: "[1, 3] = memberCUs (devices exampleDriver) [1, 2]"
    by (simp add: exampleDriver_def exampleDevices_def memberCUs_def)
  have h11: "[examplePacket, examplePacket] = examplePacket # [examplePacket]" by simp
  have h18: "8 = spec_num_wg examplePacket"
    by (simp add: examplePacket_def spec_num_wg_def ceilDiv_def)
  have h20: "(2::int) = int (ceilDiv 8 (nat (sum_list [1, 3])))"
    by (simp add: ceilDiv_def)
  have h25: "[0, 2, 8] = spec_wg_dist 2 [1, 3]"
    by (simp add: spec_wg_dist_def)
  have g: "GPUID exampleQueue = 3" by (simp add: exampleQueue_def)
  have gp: "GPUs exampleDriver = [''GPU1.CP'', ''GPU2.CP'']" by (simp add: exampleDriver_def)
  have rq: "requestsToSend exampleDriver = []" by (simp add: exampleDriver_def)
  have fl: "spec_flattened_id examplePacket \<lparr>IDX = 5, IDY = 0, IDZ = 0\<rparr> = 5"
    by (simp add: spec_flattened_id_def)
  note inst = unified_launch_partition [where d = exampleDriver and ci = 0 and qi = 0
      and ctx = exampleContext and queue = exampleQueue and members = "[1, 2]"
      and cus = "[1, 3]" and packetArray = "[examplePacket, examplePacket]"
      and ?pkt0.0 = examplePacket and pkts = "[examplePacket]" and num_wg = 8
      and wg_per_cu = 2 and dPacketArray = "[0, 0]" and wgDist = "[0, 2, 8]" and co = 0,
      OF h1 h2 _ _ h5 _ h7 _ _ _ h11 _ _ _ _ _ _ h18 _ h20 _ _ _ _ h25]
  have all: "distributeWGToGPUs (devices exampleDriver) (GPUID exampleQueue)
               [examplePacket, examplePacket] = Inr [0, 2, 8]
    \<and> sorted [0, 2, 8 :: int]
    \<and> (\<exists>d' newReqs.
          processUnifiedMultiGPULaunchKernelCommand 0 [examplePacket, examplePacket] [0, 0] 0 0
            exampleDriver = Inr (True, d')
        \<and> requestsToSend d' = requestsToSend exampleDriver @ map LaunchKernelReqMsg newReqs
        \<and> map launchView newReqs =
            map (\<lambda>(i, m). (GPUs exampleDriver ! nat (m - 1), [examplePacket, examplePacket] ! i,
                            Some \<lparr>captured_wgDist = [0, 2, 8], currentGPUIndex = int i\<rparr>))
                (filter (\<lambda>(i, m). [0, 2, 8 :: int] ! Suc i \<noteq> [0, 2, 8] ! i)
                   (zip [0..<length [1, 2 :: int]] [1, 2])))
    \<and> (\<forall>i pkt wg.
          i < length [1, 2 :: int] \<and> GridSizeX pkt \<noteq> 0 \<and> GridSizeY pkt \<noteq> 0
          \<and> WorkgroupSizeX pkt \<noteq> 0 \<and> WorkgroupSizeY pkt \<noteq> 0
          \<and> 0 \<le> IDX wg \<and> 0 \<le> IDY wg \<and> 0 \<le> IDZ wg \<and> spec_flattened_id pkt wg < 2 ^ 63 \<longrightarrow>
          WGFilter_apply \<lparr>captured_wgDist = [0, 2, 8], currentGPUIndex = int i\<rparr> pkt wg =
            Inr ([0, 2, 8] ! i \<le> spec_flattened_id pkt wg \<and> spec_flattened_id pkt wg < [0, 2, 8] ! Suc i))
    \<and> (\<forall>v. 0 \<le> v \<and> v < int 8 \<longrightarrow>
          (\<exists>!i. i < length [1, 2 :: int] \<and> [0, 2, 8] ! i \<le> v \<and> v < [0, 2, 8] ! Suc i))"
    using inst by (simp add: g gp exampleDriver_def exampleDevices_def examplePacket_def)
  have zp: "zip [0..<length [1, 2 :: int]] [1, 2 :: int] = [(0, 1), (1, 2)]"
    by (simp add: upt_conv_Cons)
  have c1: "distributeWGToGPUs (devices exampleDriver) 3 [examplePacket, examplePacket] = Inr [0, 2, 8]"
    using all g by simp
  have c3: "\<exists>d' newReqs.
         processUnifiedMultiGPULaunchKernelCommand 0 [examplePacket, examplePacket] [0, 0] 0 0
           exampleDriver = Inr (True, d')
       \<and> requestsToSend d' = map LaunchKernelReqMsg newReqs
       \<and> map launchView newReqs =
           [(''GPU1.CP'', examplePacket, Some \<lparr>captured_wgDist = [0, 2, 8], currentGPUIndex = 0\<rparr>),
            (''GPU2.CP'', examplePacket, Some \<lparr>captured_wgDist = [0, 2, 8], currentGPUIndex = 1\<rparr>)]"
    using all unfolding zp rq gp by simp
  have F: "\<forall>i pkt wg.
          i < length [1, 2 :: int] \<and> GridSizeX pkt \<noteq> 0 \<and> GridSizeY pkt \<noteq> 0
          \<and> WorkgroupSizeX pkt \<noteq> 0 \<and> WorkgroupSizeY pkt \<noteq> 0
          \<and> 0 \<le> IDX wg \<and> 0 \<le> IDY wg \<and> 0 \<le> IDZ wg \<and> spec_flattened_id pkt wg < 2 ^ 63 \<longrightarrow>
          WGFilter_apply \<lparr>captured_wgDist = [0, 2, 8], currentGPUIndex = int i\<rparr> pkt wg =
            Inr ([0, 2, 8] ! i \<le> spec_flattened_id pkt wg \<and> spec_flattened_id pkt wg < [0, 2, 8] ! Suc i)"
    using all by blast
  have c4: "WGFilter_apply \<lparr>captured_wgDist = [0, 2, 8], currentGPUIndex = 1\<rparr> examplePacket
         \<lparr>IDX = 5, IDY = 0, IDZ = 0\<rparr> = Inr True"
    using F [rule_format, of 1 examplePacket "\<lparr>IDX = 5, IDY = 0, IDZ = 0\<rparr>"] fl
    by (simp add: examplePacket_def)
  have U: "\<forall>v. 0 \<le> v \<and> v < int 8 \<longrightarrow>
          (\<exists>!i. i < length [1, 2 :: int] \<and> [0, 2, 8] ! i \<le> v \<and> v < [0, 2, 8] ! Suc i)"
    using all by blast
  have c5: "\<exists>!i. i < (2::nat) \<and> [0, 2, 8 :: int] ! i \<le> 5 \<and> 5 < [0, 2, 8 :: int] ! Suc i"
    using U [rule_format, of 5] by (simp add: numeral_2_eq_2)
  show ?thesis using c1 c3 c4 c5 by simp
qed

text \<open>
  Claim C9. \<open>findContext\<close> starts from a non-nil sentinel context, so its nil check
  never fires: on no driver state and for no pid does it end in the panic
  ``Process does not exist''. With no context registered it returns the sentinel. Whenever
  a migration request is current (as it is at the only call, which passes the pid of
  that request; the function reads the pid of the current request, not its parameter),
  it returns: the empty sentinel context when no registered context has that pid, and a
  registered context of that pid otherwise.
\<close>

theorem findContext_sentinel:
  "findContext p d \<noteq> Inl ProcessDoesNotExist
   \<and> (contexts d = [] \<longrightarrow> findContext p d = Inr emptyContext)
   \<and> (\<forall>cur. currentPageMigrationReq d = Some cur \<longrightarrow>
        (\<exists>c. findContext p d = Inr c
           \<and> ((\<forall>x\<in>set (contexts d). pid x \<noteq> mig_PID cur) \<longrightarrow> c = emptyContext)
           \<and> ((\<exists>x\<in>set (contexts d). pid x = mig_PID cur) \<longrightarrow>
                c \<in> set (contexts d) \<and> pid c = mig_PID cur)))"
proof (intro conjI allI impI)
  show "findContext p d \<noteq> Inl ProcessDoesNotExist"
  proof
    assume a: "findContext p d = Inl ProcessDoesNotExist"
    show False
    proof (cases "findContextLoop (contexts d) (currentPageMigrationReq d) (Some emptyContext)")
      case (Inl e)
      have "e \<noteq> ProcessDoesNotExist"
        using Inl findContextLoop_Inl by fastforce
      then show False using a Inl by (simp add: findContext_def)
    next
      case (Inr c)
      then show False
        using a findContextLoop_not_None [of "contexts d" "currentPageMigrationReq d" emptyContext]
        by (cases c) (simp_all add: findContext_def)
    qed
  qed
next
  assume "contexts d = []"
  then show "findContext p d = Inr emptyContext" by (simp add: findContext_def)
next
  fix cur assume cur: "currentPageMigrationReq d = Some cur"
  obtain c where c: "findContextLoop (contexts d) (Some cur) (Some emptyContext) = Inr (Some c)"
    "if \<exists>x\<in>set (contexts d). pid x = mig_PID cur
     then c \<in> set (contexts d) \<and> pid c = mig_PID cur else c = emptyContext"
    using findContextLoop_Some by blast
  show "\<exists>c. findContext p d = Inr c
           \<and> ((\<forall>x\<in>set (contexts d). pid x \<noteq> mig_PID cur) \<longrightarrow> c = emptyContext)
           \<and> ((\<exists>x\<in>set (contexts d). pid x = mig_PID cur) \<longrightarrow>
                c \<in> set (contexts d) \<and> pid c = mig_PID cur)"
    using c cur by (intro exI [of _ c]) (auto simp: findContext_def split: if_splits)
qed

theorem findContext_sentinel_witness:
  "findContext 7 (exampleDriver\<lparr>currentPageMigrationReq := Some (exampleMigrationReq\<lparr>mig_PID := 7\<rparr>)\<rparr>)
     = Inr emptyContext
   \<and> findContext 1 (exampleDriver\<lparr>currentPageMigrationReq := Some exampleMigrationReq\<rparr>)
     = Inr exampleContext"
proof -
  let ?d7 = "exampleDriver\<lparr>currentPageMigrationReq := Some (exampleMigrationReq\<lparr>mig_PID := 7\<rparr>)\<rparr>"
  let ?d1 = "exampleDriver\<lparr>currentPageMigrationReq := Some exampleMigrationReq\<rparr>"
  have "\<exists>c. findContext 7 ?d7 = Inr c
           \<and> ((\<forall>x\<in>set (contexts ?d7). pid x \<noteq> mig_PID (exampleMigrationReq\<lparr>mig_PID := 7\<rparr>))
                \<longrightarrow> c = emptyContext)"
    using findContext_sentinel [of 7 ?d7] by simp blast
  then have a: "findContext 7 ?d7 = Inr emptyContext"
    by (auto simp: exampleDriver_def exampleContext_def)
  have "\<exists>c. findContext 1 ?d1 = Inr c
           \<and> ((\<exists>x\<in>set (contexts ?d1). pid x = mig_PID exampleMigrationReq) \<longrightarrow>
                c \<in> set (contexts ?d1) \<and> pid c = mig_PID exampleMigrationReq)"
    using findContext_sentinel [of 1 ?d1] by simp blast
  then have b: "findContext 1 ?d1 = Inr exampleContext"
    by (auto simp: exampleDriver_def exampleContext_def exampleMigrationReq_def)
  show ?thesis using a b by simp
qed

text \<open>
  Claim C8. Let the command at the head of queue \<open>qi\<close> of context \<open>ci\<close> hold the
  outstanding request \<open>req\<close> with id \<open>r\<close>, the ids of its outstanding requests be
  distinct, and no head command of another queue hold a request with id \<open>r\<close>. Then
  the arrival of a \<open>LaunchKernelRsp\<close> with \<open>rsp_to = r\<close> removes exactly \<open>req\<close> from
  the outstanding requests of that command and changes nothing else, unless no request
  is left: then the queue's \<open>IsRunning\<close> is set to false and the command is dequeued.
  A response whose id matches no request of any head command is the panic
  \<open>CannotFindCommand\<close>.
\<close>

theorem launch_return_removes_request:
  "(ci < length (contexts d) \<and> qi < length (queues (contexts d ! ci))
      \<and> q = queues (contexts d ! ci) ! qi \<and> commands q = cmd # rest
      \<and> req \<in> set (GetReqs cmd) \<and> MsgID (Meta req) = r
      \<and> distinct (map (\<lambda>m. MsgID (Meta m)) (GetReqs cmd))
      \<and> (\<forall>ci' qi'. ci' < length (contexts d) \<and> qi' < length (queues (contexts d ! ci'))
            \<and> (ci', qi') \<noteq> (ci, qi) \<longrightarrow> \<not> hasReq r (queues (contexts d ! ci') ! qi'))
    \<longrightarrow> processLaunchKernelReturn r d =
          Inr (True, updateQueue ci qi
                 (\<lambda>_. if remove1 req (GetReqs cmd) = []
                      then q\<lparr>IsRunning := False, commands := rest\<rparr>
                      else q\<lparr>commands := setReqs (remove1 req (GetReqs cmd)) cmd # rest\<rparr>) d)
        \<and> set (remove1 req (GetReqs cmd)) = set (GetReqs cmd) - {req})
   \<and> ((\<forall>c\<in>set (contexts d). \<forall>q\<in>set (queues c). \<not> hasReq r q)
        \<longrightarrow> processLaunchKernelReturn r d = Inl CannotFindCommand)"
proof (intro conjI impI)
  assume "\<forall>c\<in>set (contexts d). \<forall>q\<in>set (queues c). \<not> hasReq r q"
  then have "findInContexts r (contexts d) 0 = None" by (simp add: findInContexts_None)
  then show "processLaunchKernelReturn r d = Inl CannotFindCommand"
    by (simp add: processLaunchKernelReturn_def findCommandByReqID_def)
next
  assume a: "ci < length (contexts d) \<and> qi < length (queues (contexts d ! ci))
      \<and> q = queues (contexts d ! ci) ! qi \<and> commands q = cmd # rest
      \<and> req \<in> set (GetReqs cmd) \<and> MsgID (Meta req) = r
      \<and> distinct (map (\<lambda>m. MsgID (Meta m)) (GetReqs cmd))
      \<and> (\<forall>ci' qi'. ci' < length (contexts d) \<and> qi' < length (queues (contexts d ! ci'))
            \<and> (ci', qi') \<noteq> (ci, qi) \<longrightarrow> \<not> hasReq r (queues (contexts d ! ci') ! qi'))"
  then have ci: "ci < length (contexts d)" and qi: "qi < length (queues (contexts d ! ci))"
    and q: "q = queues (contexts d ! ci) ! qi" and cmds: "commands q = cmd # rest"
    and req: "req \<in> set (GetReqs cmd)" and r: "MsgID (Meta req) = r"
    and dist: "distinct (map (\<lambda>m. MsgID (Meta m)) (GetReqs cmd))"
    and others: "\<And>ci' qi'. ci' < length (contexts d) \<Longrightarrow> qi' < length (queues (contexts d ! ci'))
            \<Longrightarrow> (ci', qi') \<noteq> (ci, qi) \<Longrightarrow> \<not> hasReq r (queues (contexts d ! ci') ! qi')"
    by auto
  have hr: "headReqs q = GetReqs cmd" using cmds by (simp add: headReqs_def)
  have f: "List.find (\<lambda>m. MsgID (Meta m) = r) (headReqs (queues (contexts d ! ci) ! qi)) = Some req"
    using find_unique_id [OF req dist] r hr q by simp
  have fq: "findInQueues r (queues (contexts d ! ci)) 0 = Some (req, qi)"
    using findInQueues_at [OF qi _ f, of 0] others [OF ci] qi by auto
  have fc: "findInContexts r (contexts d) 0 = Some (req, ci, qi)"
  proof -
    have "\<forall>i'<ci. \<forall>q'\<in>set (queues (contexts d ! i')). \<not> hasReq r q'"
    proof (intro allI impI ballI)
      fix i' q' assume i': "i' < ci" and "q' \<in> set (queues (contexts d ! i'))"
      then obtain j where "j < length (queues (contexts d ! i'))" "q' = queues (contexts d ! i') ! j"
        by (auto simp: in_set_conv_nth)
      then show "\<not> hasReq r q'" using others [of i' j] i' ci by auto
    qed
    then show ?thesis using findInContexts_at [OF ci _ fq, of 0] by simp
  qed
  have ne: "GetReqs cmd \<noteq> []" using req by auto
  let ?d1 = "updateQueue ci qi (updateHead (RemoveReq req)) d"
  have q1: "queues (contexts ?d1 ! ci) ! qi = q\<lparr>commands := setReqs (remove1 req (GetReqs cmd)) cmd # rest\<rparr>"
    using ci qi q cmds by (simp add: updateQueue_get updateHead_def RemoveReq_def)
  have len: "length (GetReqs (hd (commands (queues (contexts ?d1 ! ci) ! qi)))) = 0
      \<longleftrightarrow> remove1 req (GetReqs cmd) = []"
    using q1 ne by (simp add: GetReqs_setReqs)
  have run: "processLaunchKernelReturn r d =
      (if remove1 req (GetReqs cmd) = []
       then Inr (True, updateQueue ci qi (\<lambda>q. Dequeue (q\<lparr>IsRunning := False\<rparr>)) ?d1)
       else Inr (True, ?d1))"
    using fc len by (simp add: processLaunchKernelReturn_def findCommandByReqID_def Let_def)
  show "processLaunchKernelReturn r d =
          Inr (True, updateQueue ci qi
                 (\<lambda>_. if remove1 req (GetReqs cmd) = []
                      then q\<lparr>IsRunning := False, commands := rest\<rparr>
                      else q\<lparr>commands := setReqs (remove1 req (GetReqs cmd)) cmd # rest\<rparr>) d)"
  proof (cases "remove1 req (GetReqs cmd) = []")
    case True
    have "updateQueue ci qi (\<lambda>q. Dequeue (q\<lparr>IsRunning := False\<rparr>)) ?d1 =
        updateQueue ci qi (\<lambda>q. Dequeue ((updateHead (RemoveReq req) q)\<lparr>IsRunning := False\<rparr>)) d"
      using ci qi by (rule updateQueue_twice)
    also have "\<dots> = updateQueue ci qi (\<lambda>_. q\<lparr>IsRunning := False, commands := rest\<rparr>) d"
      using q cmds by (intro updateQueue_cong) (simp add: Dequeue_def updateHead_def)
    finally show ?thesis using run True by simp
  next
    case False
    have "?d1 = updateQueue ci qi (\<lambda>_. q\<lparr>commands := setReqs (remove1 req (GetReqs cmd)) cmd # rest\<rparr>) d"
      using q cmds by (intro updateQueue_cong) (simp add: updateHead_def RemoveReq_def)
    then show ?thesis using run False by simp
  qed
  show "set (remove1 req (GetReqs cmd)) = set (GetReqs cmd) - {req}"
    using dist by (simp add: distinct_map)
qed

theorem launch_return_removes_request_witness:
  "processLaunchKernelReturn 5 exampleRunningDriver =
     Inr (True, exampleDriver\<lparr>contexts :=
        [exampleContext\<lparr>queues := [\<lparr>IsRunning = False, GPUID = 1, commands = [NoopCommand 2]\<rparr>]\<rparr>]\<rparr>)
   \<and> processLaunchKernelReturn 9 exampleRunningDriver = Inl CannotFindCommand"
proof -
  let ?cmd = "LaunchKernelCommand 1 0 examplePacket 0 [LaunchKernelReqMsg exampleLaunchReq]"
  have c: "contexts exampleRunningDriver = [exampleContext\<lparr>queues := [exampleRunningQueue]\<rparr>]"
    by (simp add: exampleRunningDriver_def exampleDriver_def)
  have pre: "0 < length (contexts exampleRunningDriver)
      \<and> 0 < length (queues (contexts exampleRunningDriver ! 0))
      \<and> exampleRunningQueue = queues (contexts exampleRunningDriver ! 0) ! 0
      \<and> commands exampleRunningQueue = ?cmd # [NoopCommand 2]
      \<and> LaunchKernelReqMsg exampleLaunchReq \<in> set (GetReqs ?cmd)
      \<and> MsgID (Meta (LaunchKernelReqMsg exampleLaunchReq)) = 5
      \<and> distinct (map (\<lambda>m. MsgID (Meta m)) (GetReqs ?cmd))
      \<and> (\<forall>ci' qi'. ci' < length (contexts exampleRunningDriver)
            \<and> qi' < length (queues (contexts exampleRunningDriver ! ci'))
            \<and> (ci', qi') \<noteq> (0, 0) \<longrightarrow> \<not> hasReq 5 (queues (contexts exampleRunningDriver ! ci') ! qi'))"
    by (simp add: c exampleContext_def exampleRunningQueue_def exampleLaunchReq_def)
  have none: "\<forall>c\<in>set (contexts exampleRunningDriver). \<forall>q\<in>set (queues c). \<not> hasReq 9 q"
    by (simp add: c exampleContext_def exampleRunningQueue_def exampleLaunchReq_def hasReq_def
        headReqs_def)
  note inst = launch_return_removes_request [where d = exampleRunningDriver and ci = 0 and qi = 0
      and q = exampleRunningQueue and cmd = ?cmd and rest = "[NoopCommand 2]"
      and req = "LaunchKernelReqMsg exampleLaunchReq" and r = 5]
  have a: "processLaunchKernelReturn 5 exampleRunningDriver =
          Inr (True, updateQueue 0 0
                 (\<lambda>_. if remove1 (LaunchKernelReqMsg exampleLaunchReq) (GetReqs ?cmd) = []
                      then exampleRunningQueue\<lparr>IsRunning := False, commands := [NoopCommand 2]\<rparr>
                      else exampleRunningQueue\<lparr>commands :=
                             setReqs (remove1 (LaunchKernelReqMsg exampleLaunchReq) (GetReqs ?cmd)) ?cmd
                             # [NoopCommand 2]\<rparr>) exampleRunningDriver)"
    using inst pre by blast
  have b: "processLaunchKernelReturn 9 exampleRunningDriver = Inl CannotFindCommand"
    using launch_return_removes_request [where d = exampleRunningDriver and r = 9] none by blast
  show ?thesis
    using a b
    by (simp add: updateQueue_def updateContext_def exampleRunningDriver_def exampleDriver_def
        exampleContext_def exampleRunningQueue_def)
qed

text \<open>
  Claim C10, corrected. If the message at the head of the incoming queue of the GPU port is
  of none of the six kinds \<open>processReturnReq\<close> knows, \<open>processReturnReq\<close> returns
  false, retrieves nothing and changes nothing. As long as no hook of a middleware alters
  the incoming queue of the GPU port, every run of ticks that does not panic leaves the
  message at the head with all that arrived behind it, and retrieves nothing from the
  port: no later GPU response is handled. On the MMU port an inbound message of another
  type than the migration request is the panic \<open>CannotHandleRequest\<close>.
\<close>

theorem unrecognised_response_blocks:
  assumes "incoming (gpuPort d) = m # rest" and "\<not> recognisedRsp m"
    and "middlewaresKeep sameGPUInbox mws"
  shows "processReturnReq allocFrame ord d = Inr (False, d)
    \<and> (\<forall>inputs d'. run allocFrame mws inputs d = Inr d' \<longrightarrow>
          incoming (gpuPort d') = m # rest @ concat (map gpuArrivals inputs)
          \<and> retrieved (gpuPort d') = retrieved (gpuPort d))
    \<and> (\<forall>dm meta rest'.
          \<not> isCurrentlyHandlingMigrationReq (dm :: 'a Driver)
          \<and> incoming (mmuPort dm) = OtherMMUMsg meta # rest' \<longrightarrow>
          parseFromMMU dm = Inl CannotHandleRequest)"
proof (intro conjI allI impI)
  show "processReturnReq allocFrame ord d = Inr (False, d)"
    using assms(1,2) by (rule processReturnReq_blocked)
next
  fix inputs d' assume "run allocFrame mws inputs d = Inr d'"
  then have "incoming (gpuPort d') = m # rest @ concat (map gpuArrivals inputs)
         \<and> retrieved (gpuPort d') = retrieved (gpuPort d)"
    using run_blocked [OF assms(2,3) assms(1)] by blast
  then show "incoming (gpuPort d') = m # rest @ concat (map gpuArrivals inputs)"
    and "retrieved (gpuPort d') = retrieved (gpuPort d)" by simp_all
next
  fix dm :: "'a Driver" and meta rest'
  assume "\<not> isCurrentlyHandlingMigrationReq dm \<and> incoming (mmuPort dm) = OtherMMUMsg meta # rest'"
  then show "parseFromMMU dm = Inl CannotHandleRequest"
    by (simp add: parseFromMMU_def)
qed

theorem unrecognised_response_blocks_witness:
  "processReturnReq exampleAllocFrame (\<lambda>ks. ks) exampleBlockedDriver = Inr (False, exampleBlockedDriver)
   \<and> (\<exists>d'. run exampleAllocFrame [exampleQuietMiddleware]
               [\<lparr>tickEnv = exampleEnv, gpuArrivals = [], mmuArrivals = []\<rparr>,
                \<lparr>tickEnv = exampleEnv,
                  gpuArrivals = [GPURestartRsp \<lparr>MsgID = 9, Src = ''GPU1.CP'', Dst = ''Driver.GPU''\<rparr>],
                  mmuArrivals = []\<rparr>] exampleBlockedDriver = Inr d'
          \<and> idGenerator d' = 2
          \<and> incoming (gpuPort d') =
              [OtherMsg \<lparr>MsgID = 7, Src = ''GPU1.CP'', Dst = ''Driver.GPU''\<rparr>,
               LaunchKernelRsp \<lparr>MsgID = 8, Src = ''GPU1.CP'', Dst = ''Driver.GPU''\<rparr> 5,
               GPURestartRsp \<lparr>MsgID = 9, Src = ''GPU1.CP'', Dst = ''Driver.GPU''\<rparr>]
          \<and> retrieved (gpuPort d') = [])
   \<and> parseFromMMU
        (exampleDriver\<lparr>mmuPort := \<lparr>portName = ''Driver.MMU'',
            incoming = [OtherMMUMsg \<lparr>MsgID = 3, Src = ''MMU'', Dst = ''Driver.MMU''\<rparr>],
            retrieved = [], sent = []\<rparr>\<rparr>) = Inl CannotHandleRequest"
proof -
  let ?m = "OtherMsg \<lparr>MsgID = 7, Src = ''GPU1.CP'', Dst = ''Driver.GPU''\<rparr>"
  let ?rest = "[LaunchKernelRsp \<lparr>MsgID = 8, Src = ''GPU1.CP'', Dst = ''Driver.GPU''\<rparr> 5]"
  let ?inputs = "[\<lparr>tickEnv = exampleEnv, gpuArrivals = [], mmuArrivals = []\<rparr>,
                \<lparr>tickEnv = exampleEnv,
                  gpuArrivals = [GPURestartRsp \<lparr>MsgID = 9, Src = ''GPU1.CP'', Dst = ''Driver.GPU''\<rparr>],
                  mmuArrivals = []\<rparr>]"
  let ?dm = "exampleDriver\<lparr>mmuPort := \<lparr>portName = ''Driver.MMU'',
            incoming = [OtherMMUMsg \<lparr>MsgID = 3, Src = ''MMU'', Dst = ''Driver.MMU''\<rparr>],
            retrieved = [], sent = []\<rparr>\<rparr>"
  have h1: "incoming (gpuPort exampleBlockedDriver) = ?m # ?rest"
    by (simp add: exampleBlockedDriver_def)
  have h2: "\<not> recognisedRsp ?m" by simp
  have h3: "middlewaresKeep sameGPUInbox [exampleQuietMiddleware]"
    by (simp add: middlewaresKeep_def sameGPUInbox_def exampleQuietMiddleware_def)
  note inst = unrecognised_response_blocks [OF h1 h2 h3, of exampleAllocFrame "\<lambda>ks. ks"]
  have a: "processReturnReq exampleAllocFrame (\<lambda>ks. ks) exampleBlockedDriver
      = Inr (False, exampleBlockedDriver)"
    using inst by (rule conjunct1)
  obtain d' where r: "run exampleAllocFrame [exampleQuietMiddleware] ?inputs exampleBlockedDriver = Inr d'"
    and i: "idGenerator d' = 2"
    by (simp add: exampleBlockedDriver_def exampleDriver_def exampleEnv_def Tick_def deliver_def
      sendToGPUs_def sendToMMU_def sendMigrationReqToCP_def processReturnReq_def
      processNewCommand_def parseFromMMU_def exampleQuietMiddleware_def)
  have "incoming (gpuPort d') = ?m # ?rest @ concat (map gpuArrivals ?inputs)
          \<and> retrieved (gpuPort d') = retrieved (gpuPort exampleBlockedDriver)"
    using inst r by blast
  then have b: "incoming (gpuPort d') =
              [?m, LaunchKernelRsp \<lparr>MsgID = 8, Src = ''GPU1.CP'', Dst = ''Driver.GPU''\<rparr> 5,
               GPURestartRsp \<lparr>MsgID = 9, Src = ''GPU1.CP'', Dst = ''Driver.GPU''\<rparr>]
          \<and> retrieved (gpuPort d') = []"
    by (simp add: exampleBlockedDriver_def)
  have "\<not> isCurrentlyHandlingMigrationReq ?dm
      \<and> incoming (mmuPort ?dm) = OtherMMUMsg \<lparr>MsgID = 3, Src = ''MMU'', Dst = ''Driver.MMU''\<rparr> # []"
    by (simp add: exampleDriver_def)
  then have c: "parseFromMMU ?dm = Inl CannotHandleRequest"
    using inst by blast
  show ?thesis using a b c r i by blast
qed

text \<open>
  Without the condition on the middlewares the message need not stay: \<open>Tick\<close> runs
  the \<open>Tick\<close> of every middleware before \<open>processReturnReq\<close>. With a middleware that
  retrieves the unknown message, one tick empties the incoming queue: the response to
  launch request 5 behind it is handled, and the launch and the noop after it leave the
  queue.
\<close>

theorem retrieving_middleware_unblocks:
  "incoming (gpuPort exampleBlockedRunningDriver) =
     [OtherMsg \<lparr>MsgID = 7, Src = ''GPU1.CP'', Dst = ''Driver.GPU''\<rparr>,
      LaunchKernelRsp \<lparr>MsgID = 8, Src = ''GPU1.CP'', Dst = ''Driver.GPU''\<rparr> 5]
   \<and> \<not> recognisedRsp (OtherMsg \<lparr>MsgID = 7, Src = ''GPU1.CP'', Dst = ''Driver.GPU''\<rparr>)
   \<and> processReturnReq exampleAllocFrame (\<lambda>ks. ks) exampleBlockedRunningDriver
        = Inr (False, exampleBlockedRunningDriver)
   \<and> (\<exists>d'. run exampleAllocFrame [exampleRetrievingMiddleware]
               [\<lparr>tickEnv = exampleEnv, gpuArrivals = [], mmuArrivals = []\<rparr>]
               exampleBlockedRunningDriver = Inr d'
          \<and> incoming (gpuPort d') = []
          \<and> retrieved (gpuPort d') =
              [OtherMsg \<lparr>MsgID = 7, Src = ''GPU1.CP'', Dst = ''Driver.GPU''\<rparr>,
               LaunchKernelRsp \<lparr>MsgID = 8, Src = ''GPU1.CP'', Dst = ''Driver.GPU''\<rparr> 5]
          \<and> map commands (queues (hd (contexts d'))) = [[]])"
  by (simp add: exampleBlockedRunningDriver_def exampleRunningDriver_def exampleBlockedDriver_def
      exampleDriver_def exampleEnv_def exampleContext_def exampleRunningQueue_def exampleLaunchReq_def
      exampleRetrievingMiddleware_def Tick_def deliver_def
      sendToGPUs_def sendToMMU_def sendMigrationReqToCP_def processReturnReq_def
      processNewCommand_def parseFromMMU_def gpuRetrieveIncoming_def RetrieveIncoming_def
      processLaunchKernelReturn_def findCommandByReqID_def updateQueue_def updateContext_def
      updateHead_def RemoveReq_def Dequeue_def processNewCommandFromContext_def
      processNewCommandFromCmdQueue_def processNoopCommand_def at_def Let_def)

text \<open>
  Claim C6, corrected. \<open>sendMigrationReqToCP\<close> sends the head of
  \<open>migrationReqToSendToCP\<close>, and only when \<open>isCurrentlyMigratingOnePage\<close> is false and
  the port accepts; a successful send removes the head and sets the flag, otherwise nothing
  changes. Handling a \<open>PageMigrationRspToDriver\<close> clears the flag. In every state the
  driver passes through, provided that the GPUs send no more responses than they received
  requests and that the hooks of the middlewares preserve the protocol invariant, the
  page-copy requests sent over the GPU port exceed the responses retrieved by one while
  the flag is set and by none otherwise, so at most one is in flight; and no page-copy
  request waits in \<open>requestsToSend\<close>.
\<close>

theorem one_page_copy_in_flight:
  assumes "reachable allocFrame mws d" and "middlewaresKeep keepsMigInv mws"
  shows "inFlight PageMigration d = (if isCurrentlyMigratingOnePage d then 1 else 0)
     \<and> inFlight PageMigration d \<le> 1
     \<and> countKind reqKind PageMigration (requestsToSend d) = 0
     \<and> (\<forall>accepted. sendMigrationReqToCP accepted d =
          (case migrationReqToSendToCP d of
             [] \<Rightarrow> (False, d)
           | req # rest \<Rightarrow>
               if accepted \<and> \<not> isCurrentlyMigratingOnePage d
               then (True, d\<lparr>gpuPort := (gpuPort d)
                                 \<lparr>sent := sent (gpuPort d) @ [PageMigrationReqToCPMsg req]\<rparr>,
                              migrationReqToSendToCP := rest,
                              isCurrentlyMigratingOnePage := True\<rparr>)
               else (False, d)))
     \<and> (\<forall>ord p d' meta rest.
          (\<forall>ks. mset (ord ks) = mset ks)
          \<and> incoming (gpuPort d) = PageMigrationRspToDriver meta # rest
          \<and> processReturnReq allocFrame ord d = Inr (p, d') \<longrightarrow>
          isCurrentlyMigratingOnePage d \<and> \<not> isCurrentlyMigratingOnePage d'
          \<and> inFlight PageMigration d = 1 \<and> inFlight PageMigration d' = 0)"
proof -
  have inv: "migInv d" using assms by (rule reachable_migInv)
  have 1: "inFlight PageMigration d = (if isCurrentlyMigratingOnePage d then 1 else 0)"
    using migInvD(4) [OF inv] by (simp add: inFlight_def)
  then have 2: "inFlight PageMigration d \<le> 1" by simp
  have 3: "countKind reqKind PageMigration (requestsToSend d) = 0" using migInvD(3) [OF inv] .
  have 4: "\<forall>accepted. sendMigrationReqToCP accepted d =
          (case migrationReqToSendToCP d of
             [] \<Rightarrow> (False, d)
           | req # rest \<Rightarrow>
               if accepted \<and> \<not> isCurrentlyMigratingOnePage d
               then (True, d\<lparr>gpuPort := (gpuPort d)
                                 \<lparr>sent := sent (gpuPort d) @ [PageMigrationReqToCPMsg req]\<rparr>,
                              migrationReqToSendToCP := rest,
                              isCurrentlyMigratingOnePage := True\<rparr>)
               else (False, d))"
    by (auto simp: sendMigrationReqToCP_def gpuSend_def split: list.splits)
  have 5: "\<forall>ord p d' meta rest.
          (\<forall>ks. mset (ord ks) = mset ks)
          \<and> incoming (gpuPort d) = PageMigrationRspToDriver meta # rest
          \<and> processReturnReq allocFrame ord d = Inr (p, d') \<longrightarrow>
          isCurrentlyMigratingOnePage d \<and> \<not> isCurrentlyMigratingOnePage d'
          \<and> inFlight PageMigration d = 1 \<and> inFlight PageMigration d' = 0"
    using pagecopy_response_flag [OF inv] by blast
  show ?thesis using 1 2 3 4 5 by (intro conjI)
qed

theorem one_page_copy_in_flight_witness:
  "\<exists>d d'. run exampleAllocFrame [exampleQuietMiddleware] (take 8 exampleInputs) exampleMigDriver = Inr d
      \<and> isCurrentlyMigratingOnePage d \<and> inFlight PageMigration d = 1
      \<and> sendMigrationReqToCP True d = (False, d)
      \<and> processReturnReq exampleAllocFrame (\<lambda>ks. ks)
           (deliver [PageMigrationRspToDriver (exampleRspMeta 5)] [] d) = Inr (True, d')
      \<and> \<not> isCurrentlyMigratingOnePage d' \<and> inFlight PageMigration d' = 0"
proof -
  let ?inp = "exampleQuietInput\<lparr>gpuArrivals := [PageMigrationRspToDriver (exampleRspMeta 5)]\<rparr>"
  obtain d where r: "run exampleAllocFrame [exampleQuietMiddleware] (take 8 exampleInputs)
        exampleMigDriver = Inr d"
    and f: "isCurrentlyMigratingOnePage d" and q: "migrationReqToSendToCP d = []"
    and e: "incoming (gpuPort d) = []"
    and wb: "wellBehaved ?inp d"
    and p: "\<exists>d'. processReturnReq exampleAllocFrame (\<lambda>ks. ks)
           (deliver [PageMigrationRspToDriver (exampleRspMeta 5)] [] d) = Inr (True, d')"
    by (simp add: tick_eval example_eval exampleQuietMiddleware_def)
  from p obtain d' where p': "processReturnReq exampleAllocFrame (\<lambda>ks. ks)
           (deliver [PageMigrationRspToDriver (exampleRspMeta 5)] [] d) = Inr (True, d')" by blast
  have w: "wellBehavedRun exampleAllocFrame [exampleQuietMiddleware] (take 8 exampleInputs)
      exampleMigDriver"
    by (simp add: tick_eval example_eval exampleQuietMiddleware_def)
  have reach: "reachable exampleAllocFrame [exampleQuietMiddleware] d"
    using reachable.start [OF freshDriver_exampleMigDriver] w r by (rule reachable_run)
  have reach': "reachable exampleAllocFrame [exampleQuietMiddleware]
      (deliver [PageMigrationRspToDriver (exampleRspMeta 5)] [] d)"
    using reachable.arrive [OF reach wb] by (simp add: exampleQuietInput_def)
  note a = one_page_copy_in_flight [OF reach keepsMigInv_exampleQuietMiddleware]
  note b = one_page_copy_in_flight [OF reach' keepsMigInv_exampleQuietMiddleware]
  have 1: "inFlight PageMigration d = 1" using a f by simp
  have 2: "sendMigrationReqToCP True d = (False, d)" using a q by simp
  have i: "incoming (gpuPort (deliver [PageMigrationRspToDriver (exampleRspMeta 5)] [] d))
      = PageMigrationRspToDriver (exampleRspMeta 5) # []"
    using e by (simp add: deliver_def)
  have "\<forall>ord p d' meta rest.
          (\<forall>ks. mset (ord ks) = mset ks)
          \<and> incoming (gpuPort (deliver [PageMigrationRspToDriver (exampleRspMeta 5)] [] d))
              = PageMigrationRspToDriver meta # rest
          \<and> processReturnReq exampleAllocFrame ord
                (deliver [PageMigrationRspToDriver (exampleRspMeta 5)] [] d) = Inr (p, d') \<longrightarrow>
          isCurrentlyMigratingOnePage (deliver [PageMigrationRspToDriver (exampleRspMeta 5)] [] d)
          \<and> \<not> isCurrentlyMigratingOnePage d'
          \<and> inFlight PageMigration (deliver [PageMigrationRspToDriver (exampleRspMeta 5)] [] d) = 1
          \<and> inFlight PageMigration d' = 0"
    using b by (elim conjE)
  from this [rule_format, of "\<lambda>ks. ks" "exampleRspMeta 5" "[]" True d']
  have 3: "\<not> isCurrentlyMigratingOnePage d' \<and> inFlight PageMigration d' = 0"
    using i p' by simp
  show ?thesis using r f 1 2 p' 3 by blast
qed

text \<open>
  Without the condition on the middlewares two page-copy requests can be in flight over
  the GPU port: \<open>Tick\<close> runs the middlewares, which share the port. In the run of the
  example migration with the copying middleware the GPUs behave well, and after the
  eighth tick two page-copy requests have been sent and no response has arrived.
\<close>

theorem copying_middleware_two_in_flight:
  "freshDriver exampleMigDriver
   \<and> wellBehavedRun exampleAllocFrame [exampleCopyingMiddleware] (take 8 exampleInputs)
        exampleMigDriver
   \<and> (\<exists>d. run exampleAllocFrame [exampleCopyingMiddleware] (take 8 exampleInputs)
              exampleMigDriver = Inr d
          \<and> map reqKind (sent (gpuPort d)) =
              [Some RDMADrain, Some RDMADrain, Some ShootDown, Some ShootDown,
               Some PageMigration, Some PageMigration]
          \<and> retrievedRsps PageMigration d = 0 \<and> waitingRsps PageMigration d = 0
          \<and> inFlight PageMigration d = 2)"
proof -
  have "wellBehavedRun exampleAllocFrame [exampleCopyingMiddleware] (take 8 exampleInputs)
        exampleMigDriver"
    by (simp add: tick_eval example_eval exampleCopyingMiddleware_def)
  moreover have "\<exists>d. run exampleAllocFrame [exampleCopyingMiddleware] (take 8 exampleInputs)
              exampleMigDriver = Inr d
          \<and> map reqKind (sent (gpuPort d)) =
              [Some RDMADrain, Some RDMADrain, Some ShootDown, Some ShootDown,
               Some PageMigration, Some PageMigration]
          \<and> retrievedRsps PageMigration d = 0 \<and> waitingRsps PageMigration d = 0
          \<and> inFlight PageMigration d = 2"
    by (simp add: tick_eval example_eval exampleCopyingMiddleware_def)
  ultimately show ?thesis using freshDriver_exampleMigDriver by (intro conjI)
qed

text \<open>
  Claim C1, corrected. In every state the driver passes through, provided that the GPUs
  send no more responses than they received requests and that the hooks of the middlewares
  preserve the protocol invariant:

  \<^item> when \<open>parseFromMMU\<close> accepts a migration request all five counters are 0, and
    afterwards the drain counter is the number of registered GPUs, that many drain
    commands are queued, and the other counters are 0;

  \<^item> when a response of a kind is handled, the counter of that kind is not 0, the
    other four are 0, and the counter of the kind decreases by one;

  \<^item> if that was not the last response the other counters stay 0; if it was the last,
    the counter of the phase completed is 0 and the counter of the next phase is the
    fanout of that phase, with as many requests queued: the number of accessing GPUs for
    the shootdown and the GPU restart, the number of v-addresses of the requesting GPUs
    for the page copy, the number of registered GPUs for the RDMA restart; after the last
    RDMA restart response all counters are 0 and the migration is over;

  \<^item> the sends, the arrival of messages, the handling of other messages of the GPUs, and
    the admission of commands (with middlewares that leave the counters alone) keep the
    five counters.
\<close>

theorem ack_counters_at_phase_transitions:
  assumes "reachable allocFrame mws d" and "middlewaresKeep keepsMigInv mws"
  shows
   "(\<forall>p d'. parseFromMMU d = Inr (p, d') \<longrightarrow>
       (if p then (\<forall>k. ackCounter k d = 0)
            \<and> (\<forall>k. unat (ackCounter k d') = (if k = RDMADrain then length (GPUs d) else 0))
            \<and> queuedReqs RDMADrain d' = queuedReqs RDMADrain d + length (GPUs d)
        else d' = d))
  \<and> (\<forall>ord p d' m rest k.
       (\<forall>ks. mset (ord ks) = mset ks) \<and> processReturnReq allocFrame ord d = Inr (p, d')
       \<and> incoming (gpuPort d) = m # rest \<and> rspKind m = Some k \<longrightarrow>
       ackCounter k d \<noteq> 0 \<and> (\<forall>k'. k' \<noteq> k \<longrightarrow> ackCounter k' d = 0)
     \<and> unat (ackCounter k d') + 1 = unat (ackCounter k d)
     \<and> (if ackCounter k d = 1
        then (case k of
            RDMADrain \<Rightarrow> \<exists>cur. currentPageMigrationReq d = Some cur
              \<and> (\<forall>k'. unat (ackCounter k' d')
                     = (if k' = ShootDown then length (CurrAccessingGPUs cur) else 0))
              \<and> queuedReqs ShootDown d' = queuedReqs ShootDown d + length (CurrAccessingGPUs cur)
          | ShootDown \<Rightarrow> \<exists>cur. currentPageMigrationReq d = Some cur
              \<and> (\<forall>k'. unat (ackCounter k' d')
                     = (if k' = PageMigration then length (requestedVAddrs cur (length (GPUs d))) else 0))
              \<and> queuedReqs PageMigration d'
                   = queuedReqs PageMigration d + length (requestedVAddrs cur (length (GPUs d)))
          | PageMigration \<Rightarrow> \<exists>cur. currentPageMigrationReq d = Some cur
              \<and> (\<forall>k'. unat (ackCounter k' d')
                     = (if k' = GPURestart then length (CurrAccessingGPUs cur) else 0))
              \<and> queuedReqs GPURestart d' = queuedReqs GPURestart d + length (CurrAccessingGPUs cur)
          | GPURestart \<Rightarrow>
                (\<forall>k'. unat (ackCounter k' d') = (if k' = RDMARestart then length (GPUs d) else 0))
              \<and> queuedReqs RDMARestart d' = queuedReqs RDMARestart d + length (GPUs d)
          | RDMARestart \<Rightarrow> (\<forall>k'. ackCounter k' d' = 0) \<and> \<not> isCurrentlyHandlingMigrationReq d')
        else (\<forall>k'. ackCounter k' d' = (if k' = k then ackCounter k d - 1 else 0))))
  \<and> (\<forall>ord p d'. processReturnReq allocFrame ord d = Inr (p, d')
       \<and> (incoming (gpuPort d) = [] \<or> rspKind (hd (incoming (gpuPort d))) = None) \<longrightarrow>
       sameAckCounters d d')
  \<and> (\<forall>accepted. sameAckCounters d (snd (sendToGPUs accepted d))
       \<and> sameAckCounters d (snd (sendToMMU accepted d))
       \<and> sameAckCounters d (snd (sendMigrationReqToCP accepted d)))
  \<and> (\<forall>gpuMsgs mmuMsgs. sameAckCounters d (deliver gpuMsgs mmuMsgs d))
  \<and> (\<forall>p d'. middlewaresKeep sameAckCounters mws \<and> processNewCommand mws d = Inr (p, d') \<longrightarrow>
       sameAckCounters d d')"
proof -
  have inv: "migInv d" using assms by (rule reachable_migInv)
  have 1: "\<forall>p d'. parseFromMMU d = Inr (p, d') \<longrightarrow>
       (if p then (\<forall>k. ackCounter k d = 0)
            \<and> (\<forall>k. unat (ackCounter k d') = (if k = RDMADrain then length (GPUs d) else 0))
            \<and> queuedReqs RDMADrain d' = queuedReqs RDMADrain d + length (GPUs d)
        else d' = d)"
    using parseFromMMU_transition [OF inv] by blast
  have 2: "ackCounter k d \<noteq> 0 \<and> (\<forall>k'. k' \<noteq> k \<longrightarrow> ackCounter k' d = 0)
     \<and> unat (ackCounter k d') + 1 = unat (ackCounter k d)
     \<and> (if ackCounter k d = 1
        then (case k of
            RDMADrain \<Rightarrow> \<exists>cur. currentPageMigrationReq d = Some cur
              \<and> (\<forall>k'. unat (ackCounter k' d')
                     = (if k' = ShootDown then length (CurrAccessingGPUs cur) else 0))
              \<and> queuedReqs ShootDown d' = queuedReqs ShootDown d + length (CurrAccessingGPUs cur)
          | ShootDown \<Rightarrow> \<exists>cur. currentPageMigrationReq d = Some cur
              \<and> (\<forall>k'. unat (ackCounter k' d')
                     = (if k' = PageMigration then length (requestedVAddrs cur (length (GPUs d))) else 0))
              \<and> queuedReqs PageMigration d'
                   = queuedReqs PageMigration d + length (requestedVAddrs cur (length (GPUs d)))
          | PageMigration \<Rightarrow> \<exists>cur. currentPageMigrationReq d = Some cur
              \<and> (\<forall>k'. unat (ackCounter k' d')
                     = (if k' = GPURestart then length (CurrAccessingGPUs cur) else 0))
              \<and> queuedReqs GPURestart d' = queuedReqs GPURestart d + length (CurrAccessingGPUs cur)
          | GPURestart \<Rightarrow>
                (\<forall>k'. unat (ackCounter k' d') = (if k' = RDMARestart then length (GPUs d) else 0))
              \<and> queuedReqs RDMARestart d' = queuedReqs RDMARestart d + length (GPUs d)
          | RDMARestart \<Rightarrow> (\<forall>k'. ackCounter k' d' = 0) \<and> \<not> isCurrentlyHandlingMigrationReq d')
        else (\<forall>k'. ackCounter k' d' = (if k' = k then ackCounter k d - 1 else 0)))"
    if perm: "\<forall>ks. mset (ord ks) = mset ks" and r: "processReturnReq allocFrame ord d = Inr (p, d')"
      and inc: "incoming (gpuPort d) = m # rest" and kind: "rspKind m = Some k"
    for ord p d' m rest k
  proof -
    have perm': "\<And>ks. mset (ord ks) = mset ks" using perm by blast
    note t = response_transition [OF inv perm' r inc kind]
    have nz: "ackCounter k d \<noteq> 0" using t by (rule conjunct1)
    have inv': "migInv d'" using inv perm' r by (rule migInv_processReturnReq)
    have dec: "ackCounter k d' = ackCounter k d - 1"
    proof (cases "ackCounter k d = 1")
      case False
      then show ?thesis using t by simp
    next
      case True
      then have "unat (ackCounter k d') = 0" using t by (cases k) (auto simp: all_AckKind)
      then show ?thesis using True by (simp add: unat_eq_0)
    qed
    have "unat (ackCounter k d') + 1 = unat (ackCounter k d)"
      using nz by (simp add: dec unat_dec unat_gt_0 Suc_leI)
    then show ?thesis using t by blast
  qed
  have 3: "\<forall>ord p d'. processReturnReq allocFrame ord d = Inr (p, d')
       \<and> (incoming (gpuPort d) = [] \<or> rspKind (hd (incoming (gpuPort d))) = None) \<longrightarrow>
       sameAckCounters d d'"
    using processReturnReq_sameAckCounters by blast
  have 4: "\<forall>accepted. sameAckCounters d (snd (sendToGPUs accepted d))
       \<and> sameAckCounters d (snd (sendToMMU accepted d))
       \<and> sameAckCounters d (snd (sendMigrationReqToCP accepted d))"
    by (simp add: sends_sameAckCounters)
  have 5: "\<forall>gpuMsgs mmuMsgs. sameAckCounters d (deliver gpuMsgs mmuMsgs d)"
    by (simp add: sends_sameAckCounters)
  have 6: "\<forall>p d'. middlewaresKeep sameAckCounters mws \<and> processNewCommand mws d = Inr (p, d') \<longrightarrow>
       sameAckCounters d d'"
    using processNewCommand_rel [OF launchClosed_sameAckCounters] by blast
  show ?thesis
    apply (intro conjI)
         apply (rule 1)
        apply (intro allI impI)
        apply (elim conjE)
        apply (rule 2; assumption)
       apply (rule 3)
      apply (rule 4)
     apply (rule 5)
    apply (rule 6)
    done
qed

theorem ack_counters_at_phase_transitions_witness:
  "(\<exists>d1. parseFromMMU (deliver [] [PageMigrationReqToDriverMsg exampleMigrationReq] exampleMigDriver)
           = Inr (True, d1)
        \<and> map (\<lambda>k. unat (ackCounter k d1)) [RDMADrain, ShootDown, PageMigration, GPURestart, RDMARestart]
           = [2, 0, 0, 0, 0])
   \<and> (\<exists>d d'. run exampleAllocFrame [exampleQuietMiddleware] (take 3 exampleInputs) exampleMigDriver = Inr d
        \<and> ackCounter RDMADrain d = 1
        \<and> processReturnReq exampleAllocFrame (\<lambda>ks. ks)
             (deliver [RDMADrainRspToDriver (exampleRspMeta 2)] [] d) = Inr (True, d')
        \<and> map (\<lambda>k. unat (ackCounter k d')) [RDMADrain, ShootDown, PageMigration, GPURestart, RDMARestart]
           = [0, 2, 0, 0, 0]
        \<and> queuedReqs ShootDown d' = 2)
   \<and> (\<exists>d d'. run exampleAllocFrame [exampleQuietMiddleware] (take 6 exampleInputs) exampleMigDriver = Inr d
        \<and> ackCounter ShootDown d = 1
        \<and> processReturnReq exampleAllocFrame (\<lambda>ks. ks)
             (deliver [ShootDownCompleteRsp (exampleRspMeta 4)] [] d) = Inr (True, d')
        \<and> map (\<lambda>k. unat (ackCounter k d')) [RDMADrain, ShootDown, PageMigration, GPURestart, RDMARestart]
           = [0, 0, 1, 0, 0]
        \<and> queuedReqs PageMigration d' = 1)"
proof -
  note keeps = keepsMigInv_exampleQuietMiddleware
  note start = reachable.start [OF freshDriver_exampleMigDriver,
      of exampleAllocFrame "[exampleQuietMiddleware]"]
  let ?inp0 = "exampleQuietInput\<lparr>mmuArrivals := [PageMigrationReqToDriverMsg exampleMigrationReq]\<rparr>"
  let ?s0 = "deliver [] [PageMigrationReqToDriverMsg exampleMigrationReq] exampleMigDriver"
  have wb0: "wellBehaved ?inp0 exampleMigDriver" by (simp add: tick_eval example_eval exampleQuietMiddleware_def)
  have r0: "reachable exampleAllocFrame [exampleQuietMiddleware] ?s0"
    using reachable.arrive [OF start wb0] by (simp add: exampleQuietInput_def)
  obtain d1 where p0: "parseFromMMU ?s0 = Inr (True, d1)"
    by (simp add: tick_eval example_eval exampleQuietMiddleware_def)
  have n0: "length (GPUs ?s0) = 2" by (simp add: tick_eval example_eval exampleQuietMiddleware_def)
  have "\<forall>p d'. parseFromMMU ?s0 = Inr (p, d') \<longrightarrow>
       (if p then (\<forall>k. ackCounter k ?s0 = 0)
            \<and> (\<forall>k. unat (ackCounter k d') = (if k = RDMADrain then length (GPUs ?s0) else 0))
            \<and> queuedReqs RDMADrain d' = queuedReqs RDMADrain ?s0 + length (GPUs ?s0)
        else d' = ?s0)"
    using ack_counters_at_phase_transitions [OF r0 keeps] by (elim conjE)
  from this [rule_format, OF p0]
  have A: "map (\<lambda>k. unat (ackCounter k d1)) [RDMADrain, ShootDown, PageMigration, GPURestart, RDMARestart]
           = [2, 0, 0, 0, 0]"
    by (simp add: n0)
  let ?inp3 = "exampleQuietInput\<lparr>gpuArrivals := [RDMADrainRspToDriver (exampleRspMeta 2)]\<rparr>"
  obtain d3 where run3: "run exampleAllocFrame [exampleQuietMiddleware] (take 3 exampleInputs)
        exampleMigDriver = Inr d3"
    and c3: "ackCounter RDMADrain d3 = 1" and e3: "incoming (gpuPort d3) = []"
    and cur3: "length (CurrAccessingGPUs (the (currentPageMigrationReq d3))) = 2"
    and q3: "queuedReqs ShootDown d3 = 0"
    and wb3: "wellBehaved ?inp3 d3"
    and p3: "\<exists>d'. processReturnReq exampleAllocFrame (\<lambda>ks. ks)
           (deliver [RDMADrainRspToDriver (exampleRspMeta 2)] [] d3) = Inr (True, d')"
    by (simp add: tick_eval example_eval exampleQuietMiddleware_def)
  from p3 obtain d3' where p3': "processReturnReq exampleAllocFrame (\<lambda>ks. ks)
           (deliver [RDMADrainRspToDriver (exampleRspMeta 2)] [] d3) = Inr (True, d3')" by blast
  let ?s3 = "deliver [RDMADrainRspToDriver (exampleRspMeta 2)] [] d3"
  have w3: "wellBehavedRun exampleAllocFrame [exampleQuietMiddleware] (take 3 exampleInputs)
      exampleMigDriver"
    by (simp add: tick_eval example_eval exampleQuietMiddleware_def)
  have r3: "reachable exampleAllocFrame [exampleQuietMiddleware] ?s3"
    using reachable.arrive [OF reachable_run [OF start w3 run3] wb3]
    by (simp add: exampleQuietInput_def)
  have f3: "incoming (gpuPort ?s3) = RDMADrainRspToDriver (exampleRspMeta 2) # []"
    "ackCounter RDMADrain ?s3 = 1" "queuedReqs ShootDown ?s3 = 0"
    "currentPageMigrationReq ?s3 = currentPageMigrationReq d3"
    using e3 c3 q3 by (simp_all add: deliver_def queuedReqs_def)
  have "\<forall>ord p d' m rest k.
       (\<forall>ks. mset (ord ks) = mset ks) \<and> processReturnReq exampleAllocFrame ord ?s3 = Inr (p, d')
       \<and> incoming (gpuPort ?s3) = m # rest \<and> rspKind m = Some k \<longrightarrow>
       ackCounter k ?s3 \<noteq> 0 \<and> (\<forall>k'. k' \<noteq> k \<longrightarrow> ackCounter k' ?s3 = 0)
     \<and> unat (ackCounter k d') + 1 = unat (ackCounter k ?s3)
     \<and> (if ackCounter k ?s3 = 1
        then (case k of
            RDMADrain \<Rightarrow> \<exists>cur. currentPageMigrationReq ?s3 = Some cur
              \<and> (\<forall>k'. unat (ackCounter k' d')
                     = (if k' = ShootDown then length (CurrAccessingGPUs cur) else 0))
              \<and> queuedReqs ShootDown d' = queuedReqs ShootDown ?s3 + length (CurrAccessingGPUs cur)
          | ShootDown \<Rightarrow> \<exists>cur. currentPageMigrationReq ?s3 = Some cur
              \<and> (\<forall>k'. unat (ackCounter k' d')
                     = (if k' = PageMigration then length (requestedVAddrs cur (length (GPUs ?s3))) else 0))
              \<and> queuedReqs PageMigration d'
                   = queuedReqs PageMigration ?s3 + length (requestedVAddrs cur (length (GPUs ?s3)))
          | PageMigration \<Rightarrow> \<exists>cur. currentPageMigrationReq ?s3 = Some cur
              \<and> (\<forall>k'. unat (ackCounter k' d')
                     = (if k' = GPURestart then length (CurrAccessingGPUs cur) else 0))
              \<and> queuedReqs GPURestart d' = queuedReqs GPURestart ?s3 + length (CurrAccessingGPUs cur)
          | GPURestart \<Rightarrow>
                (\<forall>k'. unat (ackCounter k' d') = (if k' = RDMARestart then length (GPUs ?s3) else 0))
              \<and> queuedReqs RDMARestart d' = queuedReqs RDMARestart ?s3 + length (GPUs ?s3)
          | RDMARestart \<Rightarrow> (\<forall>k'. ackCounter k' d' = 0) \<and> \<not> isCurrentlyHandlingMigrationReq d')
        else (\<forall>k'. ackCounter k' d' = (if k' = k then ackCounter k ?s3 - 1 else 0)))"
    using ack_counters_at_phase_transitions [OF r3 keeps] by (elim conjE)
  from this [rule_format, of "\<lambda>ks. ks" True d3' "RDMADrainRspToDriver (exampleRspMeta 2)" "[]" RDMADrain]
  have "\<exists>cur. currentPageMigrationReq d3 = Some cur
              \<and> (\<forall>k'. unat (ackCounter k' d3')
                     = (if k' = ShootDown then length (CurrAccessingGPUs cur) else 0))
              \<and> queuedReqs ShootDown d3' = length (CurrAccessingGPUs cur)"
    using p3' f3 by simp
  then have B: "map (\<lambda>k. unat (ackCounter k d3')) [RDMADrain, ShootDown, PageMigration, GPURestart, RDMARestart]
           = [0, 2, 0, 0, 0] \<and> queuedReqs ShootDown d3' = 2"
    using cur3 by (auto simp: all_AckKind)
  let ?inp6 = "exampleQuietInput\<lparr>gpuArrivals := [ShootDownCompleteRsp (exampleRspMeta 4)]\<rparr>"
  obtain d6 where run6: "run exampleAllocFrame [exampleQuietMiddleware] (take 6 exampleInputs)
        exampleMigDriver = Inr d6"
    and c6: "ackCounter ShootDown d6 = 1" and e6: "incoming (gpuPort d6) = []"
    and cur6: "length (requestedVAddrs (the (currentPageMigrationReq d6)) (length (GPUs d6))) = 1"
    and q6: "queuedReqs PageMigration d6 = 0"
    and wb6: "wellBehaved ?inp6 d6"
    and p6: "\<exists>d'. processReturnReq exampleAllocFrame (\<lambda>ks. ks)
           (deliver [ShootDownCompleteRsp (exampleRspMeta 4)] [] d6) = Inr (True, d')"
    by (simp add: tick_eval example_eval exampleQuietMiddleware_def)
  from p6 obtain d6' where p6': "processReturnReq exampleAllocFrame (\<lambda>ks. ks)
           (deliver [ShootDownCompleteRsp (exampleRspMeta 4)] [] d6) = Inr (True, d6')" by blast
  let ?s6 = "deliver [ShootDownCompleteRsp (exampleRspMeta 4)] [] d6"
  have w6: "wellBehavedRun exampleAllocFrame [exampleQuietMiddleware] (take 6 exampleInputs)
      exampleMigDriver"
    by (simp add: tick_eval example_eval exampleQuietMiddleware_def)
  have r6: "reachable exampleAllocFrame [exampleQuietMiddleware] ?s6"
    using reachable.arrive [OF reachable_run [OF start w6 run6] wb6]
    by (simp add: exampleQuietInput_def)
  have f6: "incoming (gpuPort ?s6) = ShootDownCompleteRsp (exampleRspMeta 4) # []"
    "ackCounter ShootDown ?s6 = 1" "queuedReqs PageMigration ?s6 = 0"
    "currentPageMigrationReq ?s6 = currentPageMigrationReq d6" "GPUs ?s6 = GPUs d6"
    using e6 c6 q6 by (simp_all add: deliver_def queuedReqs_def)
  have "\<forall>ord p d' m rest k.
       (\<forall>ks. mset (ord ks) = mset ks) \<and> processReturnReq exampleAllocFrame ord ?s6 = Inr (p, d')
       \<and> incoming (gpuPort ?s6) = m # rest \<and> rspKind m = Some k \<longrightarrow>
       ackCounter k ?s6 \<noteq> 0 \<and> (\<forall>k'. k' \<noteq> k \<longrightarrow> ackCounter k' ?s6 = 0)
     \<and> unat (ackCounter k d') + 1 = unat (ackCounter k ?s6)
     \<and> (if ackCounter k ?s6 = 1
        then (case k of
            RDMADrain \<Rightarrow> \<exists>cur. currentPageMigrationReq ?s6 = Some cur
              \<and> (\<forall>k'. unat (ackCounter k' d')
                     = (if k' = ShootDown then length (CurrAccessingGPUs cur) else 0))
              \<and> queuedReqs ShootDown d' = queuedReqs ShootDown ?s6 + length (CurrAccessingGPUs cur)
          | ShootDown \<Rightarrow> \<exists>cur. currentPageMigrationReq ?s6 = Some cur
              \<and> (\<forall>k'. unat (ackCounter k' d')
                     = (if k' = PageMigration then length (requestedVAddrs cur (length (GPUs ?s6))) else 0))
              \<and> queuedReqs PageMigration d'
                   = queuedReqs PageMigration ?s6 + length (requestedVAddrs cur (length (GPUs ?s6)))
          | PageMigration \<Rightarrow> \<exists>cur. currentPageMigrationReq ?s6 = Some cur
              \<and> (\<forall>k'. unat (ackCounter k' d')
                     = (if k' = GPURestart then length (CurrAccessingGPUs cur) else 0))
              \<and> queuedReqs GPURestart d' = queuedReqs GPURestart ?s6 + length (CurrAccessingGPUs cur)
          | GPURestart \<Rightarrow>
                (\<forall>k'. unat (ackCounter k' d') = (if k' = RDMARestart then length (GPUs ?s6) else 0))
              \<and> queuedReqs RDMARestart d' = queuedReqs RDMARestart ?s6 + length (GPUs ?s6)
          | RDMARestart \<Rightarrow> (\<forall>k'. ackCounter k' d' = 0) \<and> \<not> isCurrentlyHandlingMigrationReq d')
        else (\<forall>k'. ackCounter k' d' = (if k' = k then ackCounter k ?s6 - 1 else 0)))"
    using ack_counters_at_phase_transitions [OF r6 keeps] by (elim conjE)
  from this [rule_format, of "\<lambda>ks. ks" True d6' "ShootDownCompleteRsp (exampleRspMeta 4)" "[]" ShootDown]
  have "\<exists>cur. currentPageMigrationReq d6 = Some cur
              \<and> (\<forall>k'. unat (ackCounter k' d6')
                     = (if k' = PageMigration then length (requestedVAddrs cur (length (GPUs d6))) else 0))
              \<and> queuedReqs PageMigration d6' = length (requestedVAddrs cur (length (GPUs d6)))"
    using p6' f6(1-4) by (simp add: f6(5) cong: if_cong)
  then have C: "map (\<lambda>k. unat (ackCounter k d6')) [RDMADrain, ShootDown, PageMigration, GPURestart, RDMARestart]
           = [0, 0, 1, 0, 0] \<and> queuedReqs PageMigration d6' = 1"
    using cur6 by (auto simp: all_AckKind)
  show ?thesis
    apply (intro conjI)
      apply (rule exI [of _ d1])
      apply (simp only: p0 A)
     apply (rule exI [of _ d3], rule exI [of _ d3'])
     apply (simp only: run3 c3 p3' B)
    apply (rule exI [of _ d6], rule exI [of _ d6'])
    apply (simp only: run6 c6 p6' C)
    done
qed

text \<open>
  Without the two conditions the counter of the phase entered need not be its fanout.
  The counters of the drain, page copy, GPU restart and RDMA restart are incremented once
  per request, starting from the value they have. When a drain response that answers no
  request arrives at the fresh driver in the tick in which the migration request is
  accepted, the drain counter wraps to the largest 64-bit value and is 1 after two drain commands
  were queued for the two GPUs. When a middleware has called \<open>initiateRDMADrain\<close> in
  that tick, the GPUs behaving well, the counter is 4.
\<close>

theorem stray_response_wrong_fanout:
  "freshDriver exampleMigDriver \<and> length (GPUs exampleMigDriver) = 2
   \<and> (\<exists>d. run exampleAllocFrame []
              [exampleQuietInput\<lparr>gpuArrivals := [RDMADrainRspToDriver (exampleRspMeta 0)],
                                 mmuArrivals := [PageMigrationReqToDriverMsg exampleMigrationReq]\<rparr>]
              exampleMigDriver = Inr d
        \<and> isCurrentlyHandlingMigrationReq d \<and> length (GPUs d) = 2
        \<and> countKind reqKind RDMADrain (requestsToSend d) = 2
        \<and> unat (ackCounter RDMADrain d) = 1)
   \<and> wellBehavedRun exampleAllocFrame [exampleDrainingMiddleware] (take 1 exampleInputs)
        exampleMigDriver
   \<and> (\<exists>d. run exampleAllocFrame [exampleDrainingMiddleware] (take 1 exampleInputs)
              exampleMigDriver = Inr d
        \<and> isCurrentlyHandlingMigrationReq d \<and> length (GPUs d) = 2
        \<and> unat (ackCounter RDMADrain d) = 4)"
proof -
  have "length (GPUs exampleMigDriver) = 2" by (simp add: example_eval)
  moreover have "\<exists>d. run exampleAllocFrame []
              [exampleQuietInput\<lparr>gpuArrivals := [RDMADrainRspToDriver (exampleRspMeta 0)],
                                 mmuArrivals := [PageMigrationReqToDriverMsg exampleMigrationReq]\<rparr>]
              exampleMigDriver = Inr d
        \<and> isCurrentlyHandlingMigrationReq d \<and> length (GPUs d) = 2
        \<and> countKind reqKind RDMADrain (requestsToSend d) = 2
        \<and> unat (ackCounter RDMADrain d) = 1"
    by (simp add: tick_eval example_eval)
  moreover have "wellBehavedRun exampleAllocFrame [exampleDrainingMiddleware] (take 1 exampleInputs)
        exampleMigDriver"
    by (simp add: tick_eval example_eval exampleDrainingMiddleware_def)
  moreover have "\<exists>d. run exampleAllocFrame [exampleDrainingMiddleware] (take 1 exampleInputs)
              exampleMigDriver = Inr d
        \<and> isCurrentlyHandlingMigrationReq d \<and> length (GPUs d) = 2
        \<and> unat (ackCounter RDMADrain d) = 4"
    by (simp add: tick_eval example_eval exampleDrainingMiddleware_def)
  ultimately show ?thesis using freshDriver_exampleMigDriver by (intro conjI)
qed

text \<open>
  Claim C3, corrected. While \<open>isCurrentlyHandlingMigrationReq\<close> is set \<open>parseFromMMU\<close>
  retrieves nothing and changes nothing, so no second migration request is taken from the
  MMU port. When it is not set and a migration request is at the head, \<open>parseFromMMU\<close>
  retrieves exactly that request, makes it the current one and sets the flag. The flag and
  the current request are cleared by one step only: the handling of the
  \<open>RDMARestartRspToDriver\<close> that brings \<open>numRDMARestartACK\<close> to 0. Sending to the
  MMU, to the GPUs and to the CP, the arrival of messages, the handling of every other
  response and the admission of commands (with middlewares that leave the context alone)
  keep both. The response to the MMU is prepared when the last page-copy response is
  handled, with the current request as its original request.
\<close>

theorem migration_context_until_last_restart_ack:
  "(isCurrentlyHandlingMigrationReq d \<longrightarrow> parseFromMMU d = Inr (False, d))
  \<and> (\<forall>r rest. \<not> isCurrentlyHandlingMigrationReq d
        \<and> incoming (mmuPort d) = PageMigrationReqToDriverMsg r # rest \<longrightarrow>
        (\<exists>d'. parseFromMMU d = Inr (True, d')
           \<and> isCurrentlyHandlingMigrationReq d' \<and> currentPageMigrationReq d' = Some r
           \<and> incoming (mmuPort d') = rest
           \<and> retrieved (mmuPort d') = retrieved (mmuPort d) @ [PageMigrationReqToDriverMsg r]))
  \<and> (\<forall>accepted. sameMigrationContext d (snd (sendToMMU accepted d))
        \<and> sameMigrationContext d (snd (sendToGPUs accepted d))
        \<and> sameMigrationContext d (snd (sendMigrationReqToCP accepted d)))
  \<and> (\<forall>gpuMsgs mmuMsgs. sameMigrationContext d (deliver gpuMsgs mmuMsgs d))
  \<and> (\<forall>ord p d'. processReturnReq allocFrame ord d = Inr (p, d') \<longrightarrow>
        (if (\<exists>mt rest. incoming (gpuPort d) = RDMARestartRspToDriver mt # rest)
            \<and> numRDMARestartACK d = 1
         then \<not> isCurrentlyHandlingMigrationReq d' \<and> currentPageMigrationReq d' = None
         else sameMigrationContext d d'))
  \<and> (\<forall>ord p d' mt rest. incoming (gpuPort d) = PageMigrationRspToDriver mt # rest
        \<and> numPagesMigratingACK d = 1 \<and> processReturnReq allocFrame ord d = Inr (p, d') \<longrightarrow>
        (\<exists>rsp. toSendToMMU d' = Some rsp \<and> Some (OriginalReq rsp) = currentPageMigrationReq d))
  \<and> (\<forall>mws p d'. middlewaresKeep sameMigrationContext mws
        \<and> processNewCommand mws d = Inr (p, d') \<longrightarrow> sameMigrationContext d d')"
proof -
  have 1: "isCurrentlyHandlingMigrationReq d \<longrightarrow> parseFromMMU d = Inr (False, d)"
    by (simp add: parseFromMMU_def)
  have 2: "\<forall>r rest. \<not> isCurrentlyHandlingMigrationReq d
        \<and> incoming (mmuPort d) = PageMigrationReqToDriverMsg r # rest \<longrightarrow>
        (\<exists>d'. parseFromMMU d = Inr (True, d')
           \<and> isCurrentlyHandlingMigrationReq d' \<and> currentPageMigrationReq d' = Some r
           \<and> incoming (mmuPort d') = rest
           \<and> retrieved (mmuPort d') = retrieved (mmuPort d) @ [PageMigrationReqToDriverMsg r])"
    by (simp add: parseFromMMU_def initiateRDMADrain_eq mmuRetrieveIncoming_def RetrieveIncoming_def)
  have 3: "\<forall>accepted. sameMigrationContext d (snd (sendToMMU accepted d))
        \<and> sameMigrationContext d (snd (sendToGPUs accepted d))
        \<and> sameMigrationContext d (snd (sendMigrationReqToCP accepted d))"
    by (simp add: sends_sameMigrationContext)
  have 4: "\<forall>gpuMsgs mmuMsgs. sameMigrationContext d (deliver gpuMsgs mmuMsgs d)"
    by (simp add: sends_sameMigrationContext)
  have 5: "\<forall>ord p d'. processReturnReq allocFrame ord d = Inr (p, d') \<longrightarrow>
        (if (\<exists>mt rest. incoming (gpuPort d) = RDMARestartRspToDriver mt # rest)
            \<and> numRDMARestartACK d = 1
         then \<not> isCurrentlyHandlingMigrationReq d' \<and> currentPageMigrationReq d' = None
         else sameMigrationContext d d')"
    using processReturnReq_context by blast
  have 6: "\<forall>ord p d' mt rest. incoming (gpuPort d) = PageMigrationRspToDriver mt # rest
        \<and> numPagesMigratingACK d = 1 \<and> processReturnReq allocFrame ord d = Inr (p, d') \<longrightarrow>
        (\<exists>rsp. toSendToMMU d' = Some rsp \<and> Some (OriginalReq rsp) = currentPageMigrationReq d)"
    using processReturnReq_prepares_response by blast
  have 7: "\<forall>mws p d'. middlewaresKeep sameMigrationContext mws
        \<and> processNewCommand mws d = Inr (p, d') \<longrightarrow> sameMigrationContext d d'"
    using processNewCommand_rel [OF launchClosed_sameMigrationContext] by blast
  show ?thesis using 1 2 3 4 5 6 7 by (intro conjI)
qed

theorem migration_context_until_last_restart_ack_witness:
  "(\<exists>d. run exampleAllocFrame [] (take 9 exampleInputs) exampleMigDriver = Inr d
        \<and> isCurrentlyHandlingMigrationReq d \<and> toSendToMMU d \<noteq> None
        \<and> parseFromMMU (deliver [] [PageMigrationReqToDriverMsg exampleMigrationReq] d)
            = Inr (False, deliver [] [PageMigrationReqToDriverMsg exampleMigrationReq] d)
        \<and> fst (sendToMMU True d) \<and> isCurrentlyHandlingMigrationReq (snd (sendToMMU True d)))
   \<and> (\<exists>d d'. run exampleAllocFrame [] (take 14 exampleInputs) exampleMigDriver = Inr d
        \<and> isCurrentlyHandlingMigrationReq d \<and> sent (mmuPort d) \<noteq> []
        \<and> processReturnReq exampleAllocFrame (\<lambda>ks. ks)
             (deliver [RDMARestartRspToDriver (exampleRspMeta 9)] [] d) = Inr (True, d')
        \<and> \<not> isCurrentlyHandlingMigrationReq d' \<and> currentPageMigrationReq d' = None)"
proof -
  obtain d9 where run9: "run exampleAllocFrame [] (take 9 exampleInputs) exampleMigDriver = Inr d9"
    and h9: "isCurrentlyHandlingMigrationReq d9" and t9: "toSendToMMU d9 \<noteq> None"
    and s9: "fst (sendToMMU True d9)"
    by (simp add: tick_eval example_eval)
  let ?s9 = "deliver [] [PageMigrationReqToDriverMsg exampleMigrationReq] d9"
  have "sameMigrationContext d9 ?s9"
    using migration_context_until_last_restart_ack [of d9 exampleAllocFrame] by blast
  then have "isCurrentlyHandlingMigrationReq ?s9" using h9 by (simp add: sameMigrationContext_def)
  then have a: "parseFromMMU ?s9 = Inr (False, ?s9)"
    using migration_context_until_last_restart_ack [of ?s9 exampleAllocFrame] by blast
  have "sameMigrationContext d9 (snd (sendToMMU True d9))"
    using migration_context_until_last_restart_ack [of d9 exampleAllocFrame] by blast
  then have b: "isCurrentlyHandlingMigrationReq (snd (sendToMMU True d9))"
    using h9 by (simp add: sameMigrationContext_def)
  obtain d14 where run14: "run exampleAllocFrame [] (take 14 exampleInputs) exampleMigDriver = Inr d14"
    and h14: "isCurrentlyHandlingMigrationReq d14" and m14: "sent (mmuPort d14) \<noteq> []"
    and e14: "incoming (gpuPort d14) = []" and c14: "numRDMARestartACK d14 = 1"
    and p14: "\<exists>d'. processReturnReq exampleAllocFrame (\<lambda>ks. ks)
             (deliver [RDMARestartRspToDriver (exampleRspMeta 9)] [] d14) = Inr (True, d')"
    by (simp add: tick_eval example_eval)
  from p14 obtain d' where p14': "processReturnReq exampleAllocFrame (\<lambda>ks. ks)
             (deliver [RDMARestartRspToDriver (exampleRspMeta 9)] [] d14) = Inr (True, d')" by blast
  let ?s14 = "deliver [RDMARestartRspToDriver (exampleRspMeta 9)] [] d14"
  have f14: "incoming (gpuPort ?s14) = RDMARestartRspToDriver (exampleRspMeta 9) # []"
    "numRDMARestartACK ?s14 = 1"
    using e14 c14 by (simp_all add: deliver_def)
  have "\<forall>ord p d'. processReturnReq exampleAllocFrame ord ?s14 = Inr (p, d') \<longrightarrow>
        (if (\<exists>mt rest. incoming (gpuPort ?s14) = RDMARestartRspToDriver mt # rest)
            \<and> numRDMARestartACK ?s14 = 1
         then \<not> isCurrentlyHandlingMigrationReq d' \<and> currentPageMigrationReq d' = None
         else sameMigrationContext ?s14 d')"
    using migration_context_until_last_restart_ack [of ?s14 exampleAllocFrame] by (elim conjE)
  from this [rule_format, OF p14']
  have c: "\<not> isCurrentlyHandlingMigrationReq d' \<and> currentPageMigrationReq d' = None"
    using f14 by simp
  show ?thesis
    apply (intro conjI)
     apply (rule exI [of _ d9])
     apply (simp only: run9 h9 t9 s9 a b simp_thms)
    apply (rule exI [of _ d14], rule exI [of _ d'])
    apply (simp only: run14 h14 m14 p14' c simp_thms)
    done
qed

text \<open>
  The flag is not cleared by the sending of the response. In the run of the example
  migration, without middlewares and with GPUs that behave well, the response is prepared
  at tick 9 and sent at tick 10; after tick 10 the flag is still set, one GPU restart
  request is still to be sent and two restart responses are awaited. The flag is clear
  after tick 15, when the second RDMA restart response has been handled.
\<close>

theorem response_sent_while_handling:
  "freshDriver exampleMigDriver
   \<and> wellBehavedRun exampleAllocFrame [] (take 10 exampleInputs) exampleMigDriver
   \<and> (\<exists>d. run exampleAllocFrame [] (take 9 exampleInputs) exampleMigDriver = Inr d
        \<and> map rsp_VAddr (sent (mmuPort d)) = [] \<and> map_option rsp_VAddr (toSendToMMU d) = Some [4096]
        \<and> isCurrentlyHandlingMigrationReq d)
   \<and> (\<exists>d. run exampleAllocFrame [] (take 10 exampleInputs) exampleMigDriver = Inr d
        \<and> map rsp_VAddr (sent (mmuPort d)) = [[4096]] \<and> toSendToMMU d = None
        \<and> isCurrentlyHandlingMigrationReq d
        \<and> map reqKind (requestsToSend d) = [Some GPURestart]
        \<and> map (\<lambda>k. unat (ackCounter k d)) [RDMADrain, ShootDown, PageMigration, GPURestart, RDMARestart]
           = [0, 0, 0, 2, 0])
   \<and> (\<exists>d. run exampleAllocFrame [] exampleInputs exampleMigDriver = Inr d
        \<and> map rsp_VAddr (sent (mmuPort d)) = [[4096]]
        \<and> \<not> isCurrentlyHandlingMigrationReq d)"
proof -
  have "wellBehavedRun exampleAllocFrame [] (take 10 exampleInputs) exampleMigDriver"
    by (simp add: tick_eval example_eval)
  moreover have "\<exists>d. run exampleAllocFrame [] (take 9 exampleInputs) exampleMigDriver = Inr d
        \<and> map rsp_VAddr (sent (mmuPort d)) = [] \<and> map_option rsp_VAddr (toSendToMMU d) = Some [4096]
        \<and> isCurrentlyHandlingMigrationReq d"
    by (simp add: tick_eval example_eval)
  moreover have "\<exists>d. run exampleAllocFrame [] (take 10 exampleInputs) exampleMigDriver = Inr d
        \<and> map rsp_VAddr (sent (mmuPort d)) = [[4096]] \<and> toSendToMMU d = None
        \<and> isCurrentlyHandlingMigrationReq d
        \<and> map reqKind (requestsToSend d) = [Some GPURestart]
        \<and> map (\<lambda>k. unat (ackCounter k d)) [RDMADrain, ShootDown, PageMigration, GPURestart, RDMARestart]
           = [0, 0, 0, 2, 0]"
    by (simp add: tick_eval example_eval)
  moreover have "\<exists>d. run exampleAllocFrame [] exampleInputs exampleMigDriver = Inr d
        \<and> map rsp_VAddr (sent (mmuPort d)) = [[4096]]
        \<and> \<not> isCurrentlyHandlingMigrationReq d"
    by (simp add: tick_eval example_eval)
  ultimately show ?thesis using freshDriver_exampleMigDriver by (intro conjI)
qed

text \<open>
  Claim C7. A tick that does not panic is the composition of seven sub-steps in this
  order: \<open>sendToGPUs\<close>, \<open>sendToMMU\<close>, \<open>sendMigrationReqToCP\<close>, the \<open>Tick\<close> of each
  middleware, \<open>processReturnReq\<close>, \<open>processNewCommand\<close>, \<open>parseFromMMU\<close>; it returns
  the disjunction of what the sub-steps report. Each send sends the head of its list only,
  and removes it when the port accepts; a refused send changes nothing, so the request
  stays at the head. \<open>processReturnReq\<close> retrieves the head of the incoming queue of
  the GPU port when it is of a known kind and nothing otherwise; \<open>parseFromMMU\<close>
  retrieves at most the head of the incoming queue of the MMU port.
  \<open>processNewCommand\<close> visits every queue of every context once, in order, does nothing
  on an empty or running queue and otherwise processes the command at the head.

  The code diverges from the claim in what \<open>processReturnReq\<close> reports: it reports
  progress exactly when it retrieved a response, except for a
  \<open>ShootDownCompleteRsp\<close> that is not the last of its phase, which is retrieved and
  counted but reported as no progress. The second theorem shows a tick of the example migration that handles the first of two
  shootdown responses and returns false.
\<close>

theorem tick_order_and_reported_progress:
  "(Tick env allocFrame mws d = Inr (p, d') \<longleftrightarrow>
     (\<exists>r5 r6 r7.
        processReturnReq allocFrame (mapOrder env)
          (snd (tickMiddlewares mws
             (snd (sendMigrationReqToCP (cpAccepts env)
                (snd (sendToMMU (mmuAccepts env) (snd (sendToGPUs (gpuAccepts env) d)))))))) = Inr r5
      \<and> processNewCommand mws (snd r5) = Inr r6
      \<and> parseFromMMU (snd r6) = Inr r7
      \<and> d' = snd r7
      \<and> p = (fst r7 \<or> fst r6 \<or> fst r5
             \<or> fst (tickMiddlewares mws
                 (snd (sendMigrationReqToCP (cpAccepts env)
                    (snd (sendToMMU (mmuAccepts env) (snd (sendToGPUs (gpuAccepts env) d)))))))
             \<or> fst (sendMigrationReqToCP (cpAccepts env)
                    (snd (sendToMMU (mmuAccepts env) (snd (sendToGPUs (gpuAccepts env) d)))))
             \<or> fst (sendToMMU (mmuAccepts env) (snd (sendToGPUs (gpuAccepts env) d)))
             \<or> fst (sendToGPUs (gpuAccepts env) d))))
  \<and> (\<forall>accepted. sendToGPUs accepted d =
        (case requestsToSend d of
           [] \<Rightarrow> (False, d)
         | req # rest \<Rightarrow>
             if accepted
             then (True, d\<lparr>gpuPort := (gpuPort d)\<lparr>sent := sent (gpuPort d) @ [req]\<rparr>,
                            requestsToSend := rest\<rparr>)
             else (False, d)))
  \<and> (\<forall>accepted. sendToMMU accepted d =
        (case toSendToMMU d of
           None \<Rightarrow> (False, d)
         | Some rsp \<Rightarrow>
             if accepted
             then (True, d\<lparr>mmuPort := (mmuPort d)\<lparr>sent := sent (mmuPort d) @ [rsp]\<rparr>,
                            toSendToMMU := None\<rparr>)
             else (False, d)))
  \<and> (\<forall>accepted. sendMigrationReqToCP accepted d =
        (case migrationReqToSendToCP d of
           [] \<Rightarrow> (False, d)
         | req # rest \<Rightarrow>
             if accepted \<and> \<not> isCurrentlyMigratingOnePage d
             then (True, d\<lparr>gpuPort := (gpuPort d)
                               \<lparr>sent := sent (gpuPort d) @ [PageMigrationReqToCPMsg req]\<rparr>,
                            migrationReqToSendToCP := rest,
                            isCurrentlyMigratingOnePage := True\<rparr>)
             else (False, d)))
  \<and> (\<forall>ord q dq. processReturnReq allocFrame ord d = Inr (q, dq) \<longrightarrow>
        (case incoming (gpuPort d) of
           [] \<Rightarrow> dq = d \<and> \<not> q
         | m # rest \<Rightarrow>
             if recognisedRsp m
             then gpuPort dq = (gpuPort d)\<lparr>incoming := rest, retrieved := retrieved (gpuPort d) @ [m]\<rparr>
                \<and> (q \<longleftrightarrow> \<not> ((\<exists>mt. m = ShootDownCompleteRsp mt) \<and> numShootDownACK d \<noteq> 1))
             else dq = d \<and> \<not> q))
  \<and> (\<forall>q dq. parseFromMMU d = Inr (q, dq) \<longrightarrow>
        (if q
         then \<exists>r rest. incoming (mmuPort d) = PageMigrationReqToDriverMsg r # rest
            \<and> mmuPort dq = (mmuPort d)\<lparr>incoming := rest,
                 retrieved := retrieved (mmuPort d) @ [PageMigrationReqToDriverMsg r]\<rparr>
         else dq = d))
  \<and> processNewCommand mws d = processContexts mws [0..<length (contexts d)] d
  \<and> (\<forall>ci ctx. at (contexts d) ci = Inr ctx \<longrightarrow>
        processNewCommandFromContext mws ci d = processQueues mws ci [0..<length (queues ctx)] d)
  \<and> (\<forall>ci qi ctx q. at (contexts d) ci = Inr ctx \<and> at (queues ctx) qi = Inr q \<longrightarrow>
        processNewCommandFromCmdQueue mws ci qi d =
          (case commands q of
             [] \<Rightarrow> Inr (False, d)
           | cmd # rest \<Rightarrow> if IsRunning q then Inr (False, d) else processOneCommand mws cmd ci qi d))"
proof -
  have 1: "Tick env allocFrame mws d = Inr (p, d') \<longleftrightarrow>
     (\<exists>r5 r6 r7.
        processReturnReq allocFrame (mapOrder env)
          (snd (tickMiddlewares mws
             (snd (sendMigrationReqToCP (cpAccepts env)
                (snd (sendToMMU (mmuAccepts env) (snd (sendToGPUs (gpuAccepts env) d)))))))) = Inr r5
      \<and> processNewCommand mws (snd r5) = Inr r6
      \<and> parseFromMMU (snd r6) = Inr r7
      \<and> d' = snd r7
      \<and> p = (fst r7 \<or> fst r6 \<or> fst r5
             \<or> fst (tickMiddlewares mws
                 (snd (sendMigrationReqToCP (cpAccepts env)
                    (snd (sendToMMU (mmuAccepts env) (snd (sendToGPUs (gpuAccepts env) d)))))))
             \<or> fst (sendMigrationReqToCP (cpAccepts env)
                    (snd (sendToMMU (mmuAccepts env) (snd (sendToGPUs (gpuAccepts env) d)))))
             \<or> fst (sendToMMU (mmuAccepts env) (snd (sendToGPUs (gpuAccepts env) d)))
             \<or> fst (sendToGPUs (gpuAccepts env) d)))"
    by (rule Tick_Inr)
  have 2: "\<forall>accepted. sendToGPUs accepted d =
        (case requestsToSend d of
           [] \<Rightarrow> (False, d)
         | req # rest \<Rightarrow>
             if accepted
             then (True, d\<lparr>gpuPort := (gpuPort d)\<lparr>sent := sent (gpuPort d) @ [req]\<rparr>,
                            requestsToSend := rest\<rparr>)
             else (False, d))"
    by (auto simp: sendToGPUs_def gpuSend_def split: list.splits)
  have 3: "\<forall>accepted. sendToMMU accepted d =
        (case toSendToMMU d of
           None \<Rightarrow> (False, d)
         | Some rsp \<Rightarrow>
             if accepted
             then (True, d\<lparr>mmuPort := (mmuPort d)\<lparr>sent := sent (mmuPort d) @ [rsp]\<rparr>,
                            toSendToMMU := None\<rparr>)
             else (False, d))"
    by (auto simp: sendToMMU_def mmuSend_def split: option.splits)
  have 4: "\<forall>accepted. sendMigrationReqToCP accepted d =
        (case migrationReqToSendToCP d of
           [] \<Rightarrow> (False, d)
         | req # rest \<Rightarrow>
             if accepted \<and> \<not> isCurrentlyMigratingOnePage d
             then (True, d\<lparr>gpuPort := (gpuPort d)
                               \<lparr>sent := sent (gpuPort d) @ [PageMigrationReqToCPMsg req]\<rparr>,
                            migrationReqToSendToCP := rest,
                            isCurrentlyMigratingOnePage := True\<rparr>)
             else (False, d))"
    by (auto simp: sendMigrationReqToCP_def gpuSend_def split: list.splits)
  have 5: "case incoming (gpuPort d) of
           [] \<Rightarrow> dq = d \<and> \<not> q
         | m # rest \<Rightarrow>
             if recognisedRsp m
             then gpuPort dq = (gpuPort d)\<lparr>incoming := rest, retrieved := retrieved (gpuPort d) @ [m]\<rparr>
                \<and> (q \<longleftrightarrow> \<not> ((\<exists>mt. m = ShootDownCompleteRsp mt) \<and> numShootDownACK d \<noteq> 1))
             else dq = d \<and> \<not> q"
    if r: "processReturnReq allocFrame ord d = Inr (q, dq)" for ord q dq
  proof (cases "incoming (gpuPort d)")
    case Nil
    then show ?thesis using r by (simp add: processReturnReq_def)
  next
    case (Cons m rest)
    show ?thesis
    proof (cases "recognisedRsp m")
      case True
      then show ?thesis
        using processReturnReq_gpuPort [OF r] processReturnReq_reports [OF r] Cons by simp
    next
      case False
      then show ?thesis
        using processReturnReq_blocked [OF Cons False, of allocFrame ord] r Cons by simp
    qed
  qed
  have 6: "\<forall>q dq. parseFromMMU d = Inr (q, dq) \<longrightarrow>
        (if q
         then \<exists>r rest. incoming (mmuPort d) = PageMigrationReqToDriverMsg r # rest
            \<and> mmuPort dq = (mmuPort d)\<lparr>incoming := rest,
                 retrieved := retrieved (mmuPort d) @ [PageMigrationReqToDriverMsg r]\<rparr>
         else dq = d)"
    by (auto simp: parseFromMMU_def initiateRDMADrain_eq mmuRetrieveIncoming_def RetrieveIncoming_def
        split: if_splits list.splits MMUMsg.splits)
  have 7: "processNewCommand mws d = processContexts mws [0..<length (contexts d)] d"
    by (simp add: processNewCommand_def)
  have 8: "\<forall>ci ctx. at (contexts d) ci = Inr ctx \<longrightarrow>
        processNewCommandFromContext mws ci d = processQueues mws ci [0..<length (queues ctx)] d"
    by (simp add: processNewCommandFromContext_def)
  have 9: "\<forall>ci qi ctx q. at (contexts d) ci = Inr ctx \<and> at (queues ctx) qi = Inr q \<longrightarrow>
        processNewCommandFromCmdQueue mws ci qi d =
          (case commands q of
             [] \<Rightarrow> Inr (False, d)
           | cmd # rest \<Rightarrow> if IsRunning q then Inr (False, d) else processOneCommand mws cmd ci qi d)"
    by (simp add: processNewCommandFromCmdQueue_def)
  show ?thesis using 1 2 3 4 5 6 7 8 9 by (intro conjI) blast+
qed

theorem tick_order_and_reported_progress_witness:
  "\<exists>d0 d1. run exampleAllocFrame [] (take 5 exampleInputs @ [exampleQuietInput]) exampleMigDriver = Inr d0
      \<and> unat (numShootDownACK d0) = 2 \<and> incoming (gpuPort d0) = []
      \<and> Tick exampleEnv exampleAllocFrame []
           (deliver [ShootDownCompleteRsp (exampleRspMeta 3)] [] d0) = Inr (False, d1)
      \<and> unat (numShootDownACK d1) = 1
      \<and> incoming (gpuPort d1) = []
      \<and> retrieved (gpuPort d1) = retrieved (gpuPort d0) @ [ShootDownCompleteRsp (exampleRspMeta 3)]"
proof -
  obtain d0 where run0: "run exampleAllocFrame [] (take 5 exampleInputs @ [exampleQuietInput])
        exampleMigDriver = Inr d0"
    and c0: "unat (numShootDownACK d0) = 2" and e0: "incoming (gpuPort d0) = []"
    and s0: "requestsToSend d0 = []" "toSendToMMU d0 = None" "migrationReqToSendToCP d0 = []"
    and t0: "\<exists>d1. Tick exampleEnv exampleAllocFrame []
           (deliver [ShootDownCompleteRsp (exampleRspMeta 3)] [] d0) = Inr (False, d1)
           \<and> unat (numShootDownACK d1) = 1"
    by (simp add: tick_eval example_eval)
  from t0 obtain d1 where t1: "Tick exampleEnv exampleAllocFrame []
           (deliver [ShootDownCompleteRsp (exampleRspMeta 3)] [] d0) = Inr (False, d1)"
    and c1: "unat (numShootDownACK d1) = 1" by blast
  let ?s = "deliver [ShootDownCompleteRsp (exampleRspMeta 3)] [] d0"
  note T = tick_order_and_reported_progress [of exampleEnv exampleAllocFrame "[]" ?s False d1]
  have sends: "snd (tickMiddlewares []
             (snd (sendMigrationReqToCP (cpAccepts exampleEnv)
                (snd (sendToMMU (mmuAccepts exampleEnv) (snd (sendToGPUs (gpuAccepts exampleEnv) ?s))))))) = ?s"
    using s0 by (simp add: sendToGPUs_def sendToMMU_def sendMigrationReqToCP_def deliver_def)
  from T [THEN conjunct1] t1 obtain r5 r6 r7 where
    5: "processReturnReq exampleAllocFrame (mapOrder exampleEnv) ?s = Inr r5"
    and 6: "processNewCommand [] (snd r5) = Inr r6" and 7: "parseFromMMU (snd r6) = Inr r7"
    and d1: "d1 = snd r7"
    unfolding sends by blast
  have i: "incoming (gpuPort ?s) = ShootDownCompleteRsp (exampleRspMeta 3) # []"
    "retrieved (gpuPort ?s) = retrieved (gpuPort d0)"
    using e0 by (simp_all add: deliver_def)
  have "\<forall>ord q dq. processReturnReq exampleAllocFrame ord ?s = Inr (q, dq) \<longrightarrow>
        (case incoming (gpuPort ?s) of
           [] \<Rightarrow> dq = ?s \<and> \<not> q
         | m # rest \<Rightarrow>
             if recognisedRsp m
             then gpuPort dq = (gpuPort ?s)\<lparr>incoming := rest, retrieved := retrieved (gpuPort ?s) @ [m]\<rparr>
                \<and> (q \<longleftrightarrow> \<not> ((\<exists>mt. m = ShootDownCompleteRsp mt) \<and> numShootDownACK ?s \<noteq> 1))
             else dq = ?s \<and> \<not> q)"
    using T by (elim conjE)
  from this [rule_format, of "mapOrder exampleEnv" "fst r5" "snd r5"] 5
  have g5: "gpuPort (snd r5) = (gpuPort ?s)\<lparr>incoming := [],
        retrieved := retrieved (gpuPort d0) @ [ShootDownCompleteRsp (exampleRspMeta 3)]\<rparr>"
    by (simp add: i)
  have "sameGPUInbox (snd r5) (snd r6)"
    using processNewCommand_rel [OF launchClosed_sameGPUInbox _ , of "[]" "snd r5" "fst r6" "snd r6"] 6
    by (simp add: middlewaresKeep_def)
  moreover have "sameGPUInbox (snd r6) d1"
    using parseFromMMU_inbox [of "snd r6" "fst r7" "snd r7"] 7 d1 by simp
  ultimately have "incoming (gpuPort d1) = []
      \<and> retrieved (gpuPort d1) = retrieved (gpuPort d0) @ [ShootDownCompleteRsp (exampleRspMeta 3)]"
    using g5 by (simp add: sameGPUInbox_def)
  then show ?thesis using run0 c0 e0 t1 c1 by blast
qed



end
